(* ===== verification/Prelude.thy ===== *)
theory Prelude
  imports Complex_Main
begin

text \<open>
  Shared vocabulary of the development: the errors a Python call can raise, the text
  operations of \<open>str\<close> the sources use (\<open>strip\<close>, \<open>upper\<close>, \<open>split\<close>, \<open>join\<close>, decimal
  rendering), the list queries that stand for SQL result handling
  (\<open>scalar_one_or_none\<close>, \<open>ORDER BY ... LIMIT 1\<close>) and the keyed tables every
  component stores its rows in. Text is ASCII: a \<open>char\<close> is one code point below 128.
\<close>

named_theorems table_simps
named_theorems text_simps

section \<open>Errors\<close>

datatype py_error =
    ValueError string
  | TypeError string
  | OverflowError
  | KeyError string
  | AssertionError
  | RuntimeError string
  | MultipleResultsFound
  | NoResultFound
  | IntegrityError
  | DataError
  | ExtractionError string
  | UnsupportedFileTypeError string
  | PermanentJobError string
  | ResponseError string
  | FileNotFoundError string

type_synonym 'a result = "py_error + 'a"

section \<open>Python text\<close>

definition py_isspace :: "char \<Rightarrow> bool" where
  "py_isspace c \<longleftrightarrow> (let n = (of_char c :: nat) in (9 \<le> n \<and> n \<le> 13) \<or> (28 \<le> n \<and> n \<le> 32))"

definition py_strip :: "string \<Rightarrow> string" where
  "py_strip s = rev (dropWhile py_isspace (rev (dropWhile py_isspace s)))"

definition upper_char :: "char \<Rightarrow> char" where
  "upper_char c = (let n = (of_char c :: nat) in
     if 97 \<le> n \<and> n \<le> 122 then char_of (n - 32) else c)"

definition lower_char :: "char \<Rightarrow> char" where
  "lower_char c = (let n = (of_char c :: nat) in
     if 65 \<le> n \<and> n \<le> 90 then char_of (n + 32) else c)"

definition py_upper :: "string \<Rightarrow> string" where
  "py_upper = map upper_char"

definition py_lower :: "string \<Rightarrow> string" where
  "py_lower = map lower_char"

text \<open>\<open>str.split()\<close> without a separator: maximal runs of non-space characters.\<close>

fun split_ws :: "string \<Rightarrow> string \<Rightarrow> string list" where
  "split_ws acc [] = (if acc = [] then [] else [rev acc])"
| "split_ws acc (c # cs) =
     (if py_isspace c then (if acc = [] then split_ws [] cs else rev acc # split_ws [] cs)
      else split_ws (c # acc) cs)"

definition py_split :: "string \<Rightarrow> string list" where
  "py_split s = split_ws [] s"

fun py_join :: "string \<Rightarrow> string list \<Rightarrow> string" where
  "py_join sep [] = []"
| "py_join sep [x] = x"
| "py_join sep (x # y # ys) = x @ sep @ py_join sep (y # ys)"

definition starts_with :: "string \<Rightarrow> string \<Rightarrow> bool" where
  "starts_with p s \<longleftrightarrow> take (length p) s = p"

definition ends_with :: "string \<Rightarrow> string \<Rightarrow> bool" where
  "ends_with p s \<longleftrightarrow> starts_with (rev p) (rev s)"

text \<open>\<open>p in s\<close> on strings.\<close>

fun contains :: "string \<Rightarrow> string \<Rightarrow> bool" where
  "contains p [] = (p = [])"
| "contains p (c # s) = (starts_with p (c # s) \<or> contains p s)"

definition is_digit :: "char \<Rightarrow> bool" where
  "is_digit c \<longleftrightarrow> (48::nat) \<le> of_char c \<and> of_char c \<le> (57::nat)"

definition digit_val :: "char \<Rightarrow> int" where
  "digit_val c = of_char c - 48"

definition digits_val :: "string \<Rightarrow> int" where
  "digits_val s = foldl (\<lambda>a c. 10 * a + digit_val c) 0 s"

text \<open>Decimal rendering of a non-negative integer.\<close>

function show_digits :: "int \<Rightarrow> string" where
  "show_digits i = (if i < 10 then [char_of (48 + i)]
                    else show_digits (i div 10) @ [char_of (48 + i mod 10)])"
  by pat_completeness auto
termination
  by (relation "measure nat") auto

declare show_digits.simps [simp del]

definition show_int :: "int \<Rightarrow> string" where
  "show_int i = (if i < 0 then ''-'' @ show_digits (- i) else show_digits i)"

text \<open>Zero padding on the left, the \<open>%02d\<close> / \<open>%04d\<close> of \<open>isoformat\<close>.\<close>

definition pad_left :: "nat \<Rightarrow> string \<Rightarrow> string" where
  "pad_left n s = replicate (n - length s) CHR ''0'' @ s"

subsection \<open>Laws of the text operations\<close>

lemma of_char_less_256: "(of_char c :: nat) < 256"
  by (metis of_char_mod_256 mod_less_divisor zero_less_numeral)

lemma upper_char_not_lower: "\<not> (97 \<le> (of_char (upper_char c) :: nat) \<and> of_char (upper_char c) \<le> (122::nat))"
  by (auto simp: upper_char_def Let_def)

lemma upper_char_idem [simp]: "upper_char (upper_char c) = upper_char c"
  using upper_char_not_lower [of c] by (subst upper_char_def) (auto simp: Let_def)

lemma py_isspace_upper [simp]: "py_isspace (upper_char c) = py_isspace c"
  by (auto simp: upper_char_def py_isspace_def Let_def)

lemma dropWhile_upper:
  "dropWhile py_isspace (map upper_char s) = map upper_char (dropWhile py_isspace s)"
  by (induction s) auto

lemma strip_upper: "py_strip (py_upper s) = py_upper (py_strip s)"
  by (simp add: py_strip_def py_upper_def dropWhile_upper rev_map)

lemma upper_idem [simp]: "py_upper (py_upper s) = py_upper s"
  by (simp add: py_upper_def)

lemma upper_Nil_iff [simp]: "py_upper s = [] \<longleftrightarrow> s = []"
  by (simp add: py_upper_def)

text \<open>A text is stripped when neither end is white space.\<close>

definition stripped :: "string \<Rightarrow> bool" where
  "stripped s \<longleftrightarrow> (s = [] \<or> (\<not> py_isspace (hd s) \<and> \<not> py_isspace (last s)))"

lemma strip_id: "stripped s \<Longrightarrow> py_strip s = s"
proof (cases "s = []")
  case False
  assume "stripped s"
  with False have h: "\<not> py_isspace (hd s)" and l: "\<not> py_isspace (last s)"
    by (auto simp: stripped_def)
  from h False have "dropWhile py_isspace s = s"
    by (cases s) auto
  moreover from l False have "dropWhile py_isspace (rev s) = rev s"
    by (cases "rev s") (auto simp: last_rev simp flip: hd_rev)
  ultimately show ?thesis by (simp add: py_strip_def)
qed (simp add: py_strip_def)

lemma last_dropWhile:
  "dropWhile P xs \<noteq> [] \<Longrightarrow> last (dropWhile P xs) = last xs"
  by (induction xs) auto

lemma stripped_strip: "stripped (py_strip s)"
proof (cases "py_strip s = []")
  case False
  let ?l = "dropWhile py_isspace s"
  let ?r = "dropWhile py_isspace (rev ?l)"
  from False have r: "?r \<noteq> []" by (simp add: py_strip_def)
  then have l: "?l \<noteq> []" by (metis dropWhile.simps(1) rev.simps(1))
  have "last (py_strip s) = hd ?r" using r by (simp add: py_strip_def last_rev)
  moreover have "\<not> py_isspace (hd ?r)" using r by (rule hd_dropWhile)
  moreover have "hd (py_strip s) = hd ?l"
    using r l by (simp add: py_strip_def hd_rev last_dropWhile last_rev)
  moreover have "\<not> py_isspace (hd ?l)" using l by (rule hd_dropWhile)
  ultimately show ?thesis by (simp add: stripped_def)
qed (simp add: stripped_def)

lemma strip_strip [simp]: "py_strip (py_strip s) = py_strip s"
  by (rule strip_id) (rule stripped_strip)

lemma stripped_upper [simp]: "stripped (py_upper s) = stripped s"
  by (cases "s = []") (auto simp: stripped_def py_upper_def hd_map last_map)

lemma strip_Nil [simp]: "py_strip [] = []"
  by (simp add: py_strip_def)

section \<open>Lists\<close>

lemma find_append': "List.find P (xs @ ys) = (case List.find P xs of Some x \<Rightarrow> Some x | None \<Rightarrow> List.find P ys)"
  by (induction xs) auto

end
