(* ===== verification/PyFloat.thy ===== *)
theory PyFloat
  imports Prelude "HOL-Library.Log_Nat"
begin

text \<open>
  Python's \<open>float\<close>: IEEE 754 binary64 with round-to-nearest-even, over exact rationals.
  A finite double is the rational it denotes (the two zeros are one value), every
  operation computes the exact result and rounds it once. \<open>repr_float\<close> renders the
  shortest decimal that reads back as the same double, the way an f-string prints a
  float; \<open>parse_float\<close> is \<open>float(str)\<close>. The lemmas bound the rounding error, which is
  what the five-percent invoice tolerance rests on.
\<close>

datatype pyfloat = Fin rat | PInf | NInf | NaN

section \<open>Rounding\<close>

definition float_exp :: "rat \<Rightarrow> int" where
  "float_exp x = (case quotient_of \<bar>x\<bar> of (a, b) \<Rightarrow>
     let e = bitlen a - bitlen b in if 2 powi e \<le> \<bar>x\<bar> then e else e - 1)"

definition quantum :: "rat \<Rightarrow> rat" where
  "quantum x = 2 powi (max (float_exp x - 52) (- 1074))"

definition round_half_even :: "rat \<Rightarrow> int" where
  "round_half_even x = (let f = \<lfloor>x\<rfloor>; d = x - of_int f in
     if d < 1 / 2 then f else if 1 / 2 < d then f + 1 else if even f then f else f + 1)"

definition round64 :: "rat \<Rightarrow> pyfloat" where
  "round64 x = (if x = 0 then Fin 0 else
     let q = quantum x; r = of_int (round_half_even (x / q)) * q in
     if 2 ^ 1024 \<le> \<bar>r\<bar> then (if 0 < x then PInf else NInf) else Fin r)"

section \<open>Operations\<close>

fun fneg :: "pyfloat \<Rightarrow> pyfloat" where
  "fneg (Fin a) = Fin (- a)"
| "fneg PInf = NInf"
| "fneg NInf = PInf"
| "fneg NaN = NaN"

fun fadd :: "pyfloat \<Rightarrow> pyfloat \<Rightarrow> pyfloat" where
  "fadd (Fin a) (Fin b) = round64 (a + b)"
| "fadd NaN _ = NaN"
| "fadd _ NaN = NaN"
| "fadd PInf NInf = NaN"
| "fadd NInf PInf = NaN"
| "fadd PInf _ = PInf"
| "fadd _ PInf = PInf"
| "fadd NInf _ = NInf"
| "fadd _ NInf = NInf"

definition fsub :: "pyfloat \<Rightarrow> pyfloat \<Rightarrow> pyfloat" where
  "fsub x y = fadd x (fneg y)"

fun fabs :: "pyfloat \<Rightarrow> pyfloat" where
  "fabs (Fin a) = Fin \<bar>a\<bar>"
| "fabs PInf = PInf"
| "fabs NInf = PInf"
| "fabs NaN = NaN"

definition fsgn :: "pyfloat \<Rightarrow> int" where
  "fsgn x = (case x of Fin a \<Rightarrow> (if 0 < a then 1 else if a < 0 then - 1 else 0)
                     | PInf \<Rightarrow> 1 | NInf \<Rightarrow> - 1 | NaN \<Rightarrow> 0)"

definition fmul :: "pyfloat \<Rightarrow> pyfloat \<Rightarrow> pyfloat" where
  "fmul x y = (case (x, y) of
      (Fin a, Fin b) \<Rightarrow> round64 (a * b)
    | _ \<Rightarrow> if fsgn x * fsgn y = 1 then PInf else if fsgn x * fsgn y = - 1 then NInf else NaN)"

fun fle :: "pyfloat \<Rightarrow> pyfloat \<Rightarrow> bool" where
  "fle (Fin a) (Fin b) = (a \<le> b)"
| "fle NaN _ = False"
| "fle _ NaN = False"
| "fle NInf _ = True"
| "fle _ PInf = True"
| "fle _ _ = False"

definition flt :: "pyfloat \<Rightarrow> pyfloat \<Rightarrow> bool" where
  "flt x y \<longleftrightarrow> fle x y \<and> \<not> fle y x"

text \<open>\<open>float(n)\<close> on an integer: the nearest double, or \<open>OverflowError\<close>.\<close>

definition float_of_int :: "int \<Rightarrow> pyfloat result" where
  "float_of_int i = (case round64 (of_int i) of Fin r \<Rightarrow> Inr (Fin r) | _ \<Rightarrow> Inl OverflowError)"

section \<open>Reading text\<close>

fun underscored_digits :: "bool \<Rightarrow> string \<Rightarrow> bool" where
  "underscored_digits prev_digit [] = prev_digit"
| "underscored_digits prev_digit (c # cs) =
     (if is_digit c then underscored_digits True cs
      else c = CHR ''_'' \<and> prev_digit \<and> underscored_digits False cs)"

definition digitpart :: "string \<Rightarrow> int option" where
  "digitpart s = (if underscored_digits False s then Some (digits_val (filter is_digit s)) else None)"

definition signed_part :: "string \<Rightarrow> int \<times> string" where
  "signed_part s = (case s of [] \<Rightarrow> (1, s)
     | c # cs \<Rightarrow> if c = CHR ''-'' then (- 1, cs) else if c = CHR ''+'' then (1, cs) else (1, s))"

definition split_at :: "char \<Rightarrow> string \<Rightarrow> string \<times> string option" where
  "split_at c s = (let p = takeWhile (\<lambda>d. d \<noteq> c) s in
     (p, if length p < length s then Some (drop (Suc (length p)) s) else None))"

definition parse_mantissa :: "string \<Rightarrow> (int \<times> nat) option" where
  "parse_mantissa s = (case split_at CHR ''.'' s of
      (i, None) \<Rightarrow> map_option (\<lambda>n. (n, 0)) (digitpart i)
    | (i, Some f) \<Rightarrow>
        if i = [] \<and> f = [] then None
        else if (i = [] \<or> digitpart i \<noteq> None) \<and> (f = [] \<or> digitpart f \<noteq> None)
        then Some (digits_val (filter is_digit (i @ f)), length (filter is_digit f))
        else None)"

definition parse_exponent :: "string option \<Rightarrow> int option" where
  "parse_exponent e = (case e of None \<Rightarrow> Some 0
     | Some t \<Rightarrow> (case signed_part t of (sg, d) \<Rightarrow> map_option (\<lambda>n. sg * n) (digitpart d)))"

definition parse_float :: "string \<Rightarrow> pyfloat option" where
  "parse_float raw = (case signed_part (py_lower (py_strip raw)) of (sg, body) \<Rightarrow>
     if body = ''inf'' \<or> body = ''infinity'' then Some (if sg = 1 then PInf else NInf)
     else if body = ''nan'' then Some NaN
     else (case split_at CHR ''e'' body of (m, e) \<Rightarrow>
       (case (parse_mantissa m, parse_exponent e) of
          (Some (n, scale), Some ex) \<Rightarrow>
            Some (round64 (of_int (sg * n) * 10 powi (ex - int scale)))
        | _ \<Rightarrow> None)))"

section \<open>Printing: the shortest decimal that reads back\<close>

fun leading_zeros :: "nat \<Rightarrow> rat \<Rightarrow> nat" where
  "leading_zeros 0 x = 0"
| "leading_zeros (Suc n) x = (if 1 \<le> x then 0 else Suc (leading_zeros n (10 * x)))"

text \<open>The decimal point of \<open>0 < x\<close>: the \<open>k\<close> with \<open>10 powi (k - 1) \<le> x < 10 powi k\<close>
  (the smallest positive double has 324 leading zeros).\<close>

definition decpt :: "rat \<Rightarrow> int" where
  "decpt x = (if 1 \<le> x then int (length (show_digits \<lfloor>x\<rfloor>))
              else 1 - int (leading_zeros 330 x))"

definition decimal_candidate :: "rat \<Rightarrow> nat \<Rightarrow> int option" where
  "decimal_candidate x n = (let u = 10 powi (decpt x - int n); lo = \<lfloor>x / u\<rfloor>;
       ok = (\<lambda>c. round64 (of_int c * u) = Fin x);
       dlo = x - of_int lo * u; dhi = of_int (lo + 1) * u - x in
     if ok lo \<and> ok (lo + 1) then Some (if dlo < dhi \<or> (dlo = dhi \<and> even lo) then lo else lo + 1)
     else if ok lo then Some lo else if ok (lo + 1) then Some (lo + 1) else None)"

fun shortest_digits :: "rat \<Rightarrow> nat \<Rightarrow> nat \<Rightarrow> int \<times> nat" where
  "shortest_digits x n 0 = (\<lfloor>x / 10 powi (decpt x - 17)\<rfloor>, 17)"
| "shortest_digits x n (Suc fuel) =
     (case decimal_candidate x n of Some c \<Rightarrow> (c, n) | None \<Rightarrow> shortest_digits x (Suc n) fuel)"

definition strip_zeros :: "string \<Rightarrow> string" where
  "strip_zeros ds = (case rev (dropWhile (\<lambda>c. c = CHR ''0'') (rev ds)) of [] \<Rightarrow> ''0'' | t \<Rightarrow> t)"

definition format_digits :: "string \<Rightarrow> int \<Rightarrow> string" where
  "format_digits ds k = (let n = int (length ds) in
     if k \<le> - 4 \<or> 16 < k then
       (let e = k - 1; mant = (case ds of [] \<Rightarrow> [] | [d] \<Rightarrow> [d] | d # rest \<Rightarrow> d # ''.'' @ rest) in
        mant @ ''e'' @ (if e < 0 then ''-'' else ''+'') @ pad_left 2 (show_digits \<bar>e\<bar>))
     else if k \<le> 0 then ''0.'' @ replicate (nat (- k)) CHR ''0'' @ ds
     else if n \<le> k then ds @ replicate (nat (k - n)) CHR ''0'' @ ''.0''
     else take (nat k) ds @ ''.'' @ drop (nat k) ds)"

definition repr_pos :: "rat \<Rightarrow> string" where
  "repr_pos x = (case shortest_digits x 1 17 of (c, n) \<Rightarrow>
     let all = show_digits c in
     format_digits (strip_zeros all) (decpt x + (int (length all) - int n)))"

definition repr_float :: "pyfloat \<Rightarrow> string" where
  "repr_float x = (case x of PInf \<Rightarrow> ''inf'' | NInf \<Rightarrow> ''-inf'' | NaN \<Rightarrow> ''nan''
     | Fin r \<Rightarrow> if r = 0 then ''0.0'' else if r < 0 then ''-'' @ repr_pos (- r) else repr_pos r)"

section \<open>Laws of rounding\<close>

lemma powi_Suc_le: "a \<le> b \<Longrightarrow> (2::rat) powi a \<le> 2 powi b"
  by (simp add: power_int_increasing)

lemma bitlen_rat_bounds:
  assumes "0 < (a::int)"
  shows "(2::rat) powi (bitlen a - 1) \<le> of_int a" and "(of_int a :: rat) < 2 powi (bitlen a)"
proof -
  from assms have b: "0 < bitlen a" using bitlen_nonneg [of a] bitlen_eq_zero_iff [of a] by linarith
  have "(2::int) ^ nat (bitlen a - 1) \<le> a \<and> a < 2 ^ nat (bitlen a)"
    using assms by (rule bitlen_bounds)
  then have lo: "(of_int (2 ^ nat (bitlen a - 1)) :: rat) \<le> of_int a"
    and hi: "(of_int a :: rat) < of_int (2 ^ nat (bitlen a))"
    by (simp_all only: of_int_le_iff of_int_less_iff)
  from lo b show "(2::rat) powi (bitlen a - 1) \<le> of_int a"
    by (simp add: power_int_def)
  from hi b show "(of_int a :: rat) < 2 powi (bitlen a)"
    by (simp add: power_int_def)
qed

lemma float_exp_bounds:
  assumes "x \<noteq> 0"
  shows "2 powi float_exp x \<le> \<bar>x\<bar>" and "\<bar>x\<bar> < 2 powi (float_exp x + 1)"
proof -
  obtain a b where q: "quotient_of \<bar>x\<bar> = (a, b)" by fastforce
  have b: "0 < b" using quotient_of_denom_pos [OF q] .
  have eq: "\<bar>x\<bar> = of_int a / of_int b" using quotient_of_div [OF q] .
  have a: "0 < a"
  proof -
    have "0 < \<bar>x\<bar>" using assms by simp
    then show ?thesis using b by (simp add: eq zero_less_divide_iff)
  qed
  let ?e = "bitlen a - bitlen b"
  have "of_int a < (2::rat) powi (bitlen a)" by (rule bitlen_rat_bounds(2) [OF a])
  also have "\<dots> = 2 powi (?e + 1) * 2 powi (bitlen b - 1)"
    by (simp flip: power_int_add)
  also have "\<dots> \<le> 2 powi (?e + 1) * of_int b"
    using bitlen_rat_bounds(1) [OF b] by simp
  finally have hi: "\<bar>x\<bar> < 2 powi (?e + 1)"
    using b by (simp add: eq divide_less_eq)
  have "2 powi (?e - 1) * of_int b \<le> (2::rat) powi (?e - 1) * 2 powi (bitlen b)"
    using bitlen_rat_bounds(2) [OF b] by simp
  also have "\<dots> = 2 powi (bitlen a - 1)"
    by (simp flip: power_int_add)
  also have "\<dots> \<le> of_int a" by (rule bitlen_rat_bounds(1) [OF a])
  finally have lo: "2 powi (?e - 1) \<le> \<bar>x\<bar>"
    using b by (simp add: eq le_divide_eq)
  from lo hi show "2 powi float_exp x \<le> \<bar>x\<bar>" and "\<bar>x\<bar> < 2 powi (float_exp x + 1)"
    by (auto simp: float_exp_def q Let_def not_le)
qed

lemma round_half_even_error: "\<bar>of_int (round_half_even x) - x\<bar> \<le> 1 / 2"
proof -
  have "of_int \<lfloor>x\<rfloor> \<le> x" "x < of_int \<lfloor>x\<rfloor> + 1" by linarith+
  then show ?thesis by (auto simp: round_half_even_def Let_def)
qed

lemma round_half_even_nonneg: "0 \<le> x \<Longrightarrow> 0 \<le> round_half_even x"
  by (auto simp: round_half_even_def Let_def)

lemma quantum_pos [simp]: "0 < quantum x"
  by (simp add: quantum_def)

lemma quantum_nonzero [simp]: "quantum x \<noteq> 0"
  using quantum_pos [of x] by (simp del: quantum_pos)

lemma quantum_nonneg [simp]: "0 \<le> quantum x"
  by (rule less_imp_le) (rule quantum_pos)

lemma abs_quantum [simp]: "\<bar>quantum x\<bar> = quantum x"
  by (rule abs_of_nonneg) (rule quantum_nonneg)

lemma round64_Fin_error:
  assumes "round64 x = Fin r"
  shows "\<bar>r - x\<bar> \<le> quantum x / 2"
proof (cases "x = 0")
  case True
  with assms show ?thesis by (simp add: round64_def less_imp_le)
next
  case False
  let ?q = "quantum x"
  from assms False have r: "r = of_int (round_half_even (x / ?q)) * ?q"
    by (auto simp: round64_def Let_def split: if_splits)
  have "r - x = (of_int (round_half_even (x / ?q)) - x / ?q) * ?q"
    using quantum_pos [of x] by (simp add: r left_diff_distrib)
  then have "\<bar>r - x\<bar> = \<bar>of_int (round_half_even (x / ?q)) - x / ?q\<bar> * ?q"
    using quantum_pos [of x] by (simp add: abs_mult)
  also have "\<dots> \<le> (1 / 2) * ?q"
    using round_half_even_error [of "x / ?q"] quantum_pos [of x]
    by (intro mult_right_mono) auto
  finally show ?thesis by simp
qed

text \<open>Relative error of one rounding, away from the subnormal range.\<close>

lemma round64_relative_error:
  assumes "round64 x = Fin r" and "2 powi (- 1022) \<le> \<bar>x\<bar>"
  shows "\<bar>r - x\<bar> \<le> \<bar>x\<bar> * 2 powi (- 53)"
proof -
  from assms(2) have nz: "x \<noteq> 0"
    by (auto simp: power_int_def)
  have "2 powi (- 1022) < (2::rat) powi (float_exp x + 1)"
    using assms(2) float_exp_bounds(2) [OF nz] by (rule le_less_trans)
  then have "- 1022 < float_exp x + 1"
    by (meson leD leI powi_Suc_le)
  then have "- 1074 \<le> float_exp x - 52" by simp
  then have q: "quantum x = 2 powi (float_exp x - 52)"
    unfolding quantum_def by (simp only: max_absorb1)
  have "quantum x / 2 = 2 powi (float_exp x) * 2 powi (- 53)"
    by (simp add: q power_int_diff power_int_minus flip: power_int_add)
  also have "\<dots> \<le> \<bar>x\<bar> * 2 powi (- 53)"
    using float_exp_bounds(1) [OF nz] by (intro mult_right_mono) auto
  finally show ?thesis using round64_Fin_error [OF assms(1)] by simp
qed

lemma round64_nonneg: "0 \<le> x \<Longrightarrow> round64 x = PInf \<or> (\<exists>r. round64 x = Fin r \<and> 0 \<le> r)"
  using round_half_even_nonneg [of "x / quantum x"] quantum_pos [of x]
  by (auto simp: round64_def Let_def zero_le_mult_iff)

lemma fsub_self [simp]: "fsub (Fin a) (Fin a) = Fin 0"
  by (simp add: fsub_def round64_def)

lemma fle_0_round64: "0 \<le> x \<Longrightarrow> fle (Fin 0) (round64 x)"
  using round64_nonneg [of x] by auto

text \<open>Absolute and relative error together: no result below the overflow threshold is
  further from the exact value than half a unit in the last place.\<close>

lemma quantum_bound:
  assumes nz: "x \<noteq> 0"
  shows "quantum x \<le> \<bar>x\<bar> * 2 powi (- 52) + 2 powi (- 1074)"
proof (cases "float_exp x - 52 \<le> - 1074")
  case True
  then have "quantum x = 2 powi (- 1074)" unfolding quantum_def by (simp only: max_absorb2)
  then show ?thesis by (simp only: le_add_same_cancel2) simp
next
  case False
  then have "- 1074 \<le> float_exp x - 52" by simp
  then have "quantum x = 2 powi (float_exp x - 52)"
    unfolding quantum_def by (simp only: max_absorb1)
  also have "\<dots> = 2 powi float_exp x * 2 powi (- 52)"
    using power_int_add [of "2::rat" "float_exp x" "- 52"] by (simp only: diff_conv_add_uminus) simp
  also have "\<dots> \<le> \<bar>x\<bar> * 2 powi (- 52)"
    using float_exp_bounds(1) [OF nz] by (intro mult_right_mono) auto
  also have "\<dots> \<le> \<bar>x\<bar> * 2 powi (- 52) + 2 powi (- 1074)"
    by (simp only: le_add_same_cancel1) simp
  finally show ?thesis .
qed

lemma round64_close:
  assumes "\<bar>x\<bar> \<le> 2 ^ 1001"
  shows "\<exists>v. round64 x = Fin v \<and> \<bar>v - x\<bar> \<le> (\<bar>x\<bar> * 2 powi (- 52) + 2 powi (- 1074)) / 2"
proof (cases "x = 0")
  case True
  then show ?thesis by (simp add: round64_def)
next
  case False
  let ?q = "quantum x"
  let ?r = "of_int (round_half_even (x / ?q)) * ?q"
  have "?r - x = (of_int (round_half_even (x / ?q)) - x / ?q) * ?q"
    by (simp add: left_diff_distrib)
  then have "\<bar>?r - x\<bar> = \<bar>of_int (round_half_even (x / ?q)) - x / ?q\<bar> * ?q"
    by (simp add: abs_mult)
  also have "\<dots> \<le> (1 / 2) * ?q"
    using round_half_even_error [of "x / ?q"] by (intro mult_right_mono) auto
  finally have err: "\<bar>?r - x\<bar> \<le> (\<bar>x\<bar> * 2 powi (- 52) + 2 powi (- 1074)) / 2"
    using quantum_bound [OF False] by simp
  have "(2::rat) powi (- 52) \<le> 1" "(2::rat) powi (- 1074) \<le> 1" by simp_all
  then have "(\<bar>x\<bar> * 2 powi (- 52) + 2 powi (- 1074)) / 2 \<le> (\<bar>x\<bar> * 1 + 1) / 2"
    by (intro divide_right_mono add_mono mult_left_mono) auto
  with err have "\<bar>?r - x\<bar> \<le> (\<bar>x\<bar> + 1) / 2" by (simp only: mult_1_right)
  moreover have "\<bar>?r\<bar> \<le> \<bar>x\<bar> + \<bar>?r - x\<bar>"
    using abs_triangle_ineq [of x "?r - x"] by (simp only: add_diff_cancel_left' add_diff_eq)
  ultimately have "\<bar>?r\<bar> \<le> \<bar>x\<bar> + (\<bar>x\<bar> + 1) / 2" by (meson add_left_mono order_trans)
  also have "\<dots> < 2 ^ 1024"
  proof -
    have "(2::rat) ^ 1001 + (2 ^ 1001 + 1) / 2 < 2 ^ 1024" by simp
    moreover have "\<bar>x\<bar> + (\<bar>x\<bar> + 1) / 2 \<le> 2 ^ 1001 + (2 ^ 1001 + 1) / 2"
      by (intro add_mono divide_right_mono assms order_refl) (simp only: zero_le_numeral)
    ultimately show ?thesis by (rule order_le_less_trans [rotated])
  qed
  finally have "\<not> 2 ^ 1024 \<le> \<bar>?r\<bar>" by (simp only: not_le)
  with False have "round64 x = Fin ?r" unfolding round64_def Let_def by (simp only: if_False)
  with err show ?thesis by blast
qed

end
