(* ===== verification/PyJson.thy ===== *)
theory PyJson
  imports PyFloat
begin

text \<open>
  The values a JSON column or a decoded message can hold, as Python sees them, and the
  operations the services apply to them: truthiness, \<open>dict.get\<close>, \<open>str\<close> and
  \<open>float\<close> of a value, and \<open>d1.update(d2)\<close>. A dict is an association list in insertion
  order with distinct keys.
\<close>

datatype json =
    JNull
  | JBool bool
  | JInt int
  | JFloat pyfloat
  | JStr string
  | JArr "json list"
  | JObj "(string \<times> json) list"

type_synonym jdict = "(string \<times> json) list"

fun truthy :: "json \<Rightarrow> bool" where
  "truthy JNull = False"
| "truthy (JBool b) = b"
| "truthy (JInt i) = (i \<noteq> 0)"
| "truthy (JFloat f) = (f \<noteq> Fin 0)"
| "truthy (JStr s) = (s \<noteq> [])"
| "truthy (JArr xs) = (xs \<noteq> [])"
| "truthy (JObj d) = (d \<noteq> [])"

text \<open>\<open>d.get(k)\<close>: a missing key reads as \<open>None\<close>.\<close>

definition dget :: "jdict \<Rightarrow> string \<Rightarrow> json" where
  "dget d k = (case map_of d k of Some v \<Rightarrow> v | None \<Rightarrow> JNull)"

text \<open>\<open>x or y\<close> on values.\<close>

definition py_or :: "json \<Rightarrow> json \<Rightarrow> json" where
  "py_or x y = (if truthy x then x else y)"

text \<open>\<open>d[k] = v\<close> keeps the position of an existing key and appends a new one.\<close>

fun dset :: "string \<Rightarrow> json \<Rightarrow> jdict \<Rightarrow> jdict" where
  "dset k v [] = [(k, v)]"
| "dset k v ((k', v') # d) = (if k = k' then (k, v) # d else (k', v') # dset k v d)"

definition dupdate :: "jdict \<Rightarrow> jdict \<Rightarrow> jdict" where
  "dupdate d e = foldl (\<lambda>a (k, v). dset k v a) d e"

definition jstr_opt :: "string option \<Rightarrow> json" where
  "jstr_opt x = (case x of None \<Rightarrow> JNull | Some s \<Rightarrow> JStr s)"

definition jstr_list :: "string list \<Rightarrow> json" where
  "jstr_list xs = JArr (map JStr xs)"

section \<open>Text of a value\<close>

definition hex_digit :: "nat \<Rightarrow> char" where
  "hex_digit n = (if n < 10 then char_of (48 + n) else char_of (87 + n))"

definition escape_char :: "char \<Rightarrow> char \<Rightarrow> string" where
  "escape_char quote c = (let n = (of_char c :: nat) in
     if c = quote \<or> n = 92 then [char_of (92::nat), c]
     else if n = 10 then [char_of (92::nat), CHR ''n'']
     else if n = 13 then [char_of (92::nat), CHR ''r'']
     else if n = 9 then [char_of (92::nat), CHR ''t'']
     else if n < 32 \<or> n = 127 then [char_of (92::nat), CHR ''x'', hex_digit (n div 16), hex_digit (n mod 16)]
     else [c])"

definition repr_str :: "string \<Rightarrow> string" where
  "repr_str s = (let q = (if char_of (39::nat) \<in> set s \<and> char_of (34::nat) \<notin> set s
                          then char_of (34::nat) else char_of (39::nat)) in
     [q] @ concat (map (escape_char q) s) @ [q])"

fun py_repr :: "json \<Rightarrow> string" where
  "py_repr JNull = ''None''"
| "py_repr (JBool b) = (if b then ''True'' else ''False'')"
| "py_repr (JInt i) = show_int i"
| "py_repr (JFloat f) = repr_float f"
| "py_repr (JStr s) = repr_str s"
| "py_repr (JArr xs) = ''['' @ py_join '', '' (map py_repr xs) @ '']''"
| "py_repr (JObj d) = ''{'' @ py_join '', '' (map (\<lambda>kv. repr_str (fst kv) @ '': '' @ py_repr (snd kv)) d) @ ''}''"

definition py_str :: "json \<Rightarrow> string" where
  "py_str v = (case v of JStr s \<Rightarrow> s | _ \<Rightarrow> py_repr v)"

section \<open>\<open>float(value)\<close>\<close>

fun float_of_json :: "json \<Rightarrow> pyfloat result" where
  "float_of_json (JFloat f) = Inr f"
| "float_of_json (JInt i) = float_of_int i"
| "float_of_json (JBool b) = Inr (Fin (if b then 1 else 0))"
| "float_of_json (JStr s) = (case parse_float s of Some f \<Rightarrow> Inr f
      | None \<Rightarrow> Inl (ValueError (''could not convert string to float: '' @ repr_str s)))"
| "float_of_json v = Inl (TypeError ''float() argument must be a string or a real number'')"

section \<open>Dict laws\<close>

lemma map_of_dset: "map_of (dset k v d) = (map_of d)(k \<mapsto> v)"
  by (induction d rule: dset.induct) auto

lemma dget_dset [simp]: "dget (dset k v d) k' = (if k' = k then v else dget d k')"
  by (simp add: dget_def map_of_dset)

lemma dget_Nil [simp]: "dget [] k = JNull"
  by (simp add: dget_def)

lemma dget_Cons [simp]: "dget ((k, v) # d) k' = (if k' = k then v else dget d k')"
  by (simp add: dget_def)

lemma distinct_dset: "distinct (map fst d) \<Longrightarrow> distinct (map fst (dset k v d))"
proof (induction d rule: dset.induct)
  case (2 k v k' v' d)
  have "fst ` set (dset k v d) = insert k (fst ` set d)"
    using map_of_dset [of k v d] by (metis dom_fun_upd dom_map_of_conv_image_fst option.distinct(1))
  with 2 show ?case by auto
qed simp

lemma map_of_dupdate:
  "distinct (map fst e) \<Longrightarrow> map_of (dupdate d e) = map_of d ++ map_of e"
proof (induction e arbitrary: d)
  case Nil
  then show ?case by (simp add: dupdate_def)
next
  case (Cons p e)
  obtain k v where p: "p = (k, v)" by fastforce
  with Cons.prems have "k \<notin> dom (map_of e)" and "distinct (map fst e)"
    by (auto simp: dom_map_of_conv_image_fst)
  with Cons.IH [of "dset k v d"] p show ?case
    by (auto simp: dupdate_def map_of_dset map_add_def fun_eq_iff split: option.splits)
qed

lemma dget_dupdate:
  "distinct (map fst e) \<Longrightarrow> dget (dupdate d e) k = (case map_of e k of Some v \<Rightarrow> v | None \<Rightarrow> dget d k)"
  by (simp add: dget_def map_of_dupdate map_add_def split: option.splits)

lemma truthy_py_or: "truthy (py_or x y) \<longleftrightarrow> truthy x \<or> truthy y"
  by (simp add: py_or_def)

end
