(* ===== verification/PyDate.thy ===== *)
theory PyDate
  imports Prelude
begin

text \<open>
  Python's \<open>datetime\<close> library as far as the services use it. A \<open>date\<close> is its proleptic
  Gregorian ordinal (\<open>date.toordinal()\<close>, day 1 is 0001-01-01), an aware UTC \<open>datetime\<close> is
  the number of microseconds since 1970-01-01T00:00:00+00:00 and a \<open>timedelta\<close> is a number
  of microseconds. \<open>fromisoformat_date\<close> is \<open>datetime.fromisoformat(text).date()\<close>, with
  \<open>None\<close> for the \<open>ValueError\<close>; \<open>isoformat_date\<close> and \<open>isoformat\<close> print.
\<close>

type_synonym date = int
type_synonym datetime = int
type_synonym timedelta = int

section \<open>Calendar\<close>

definition is_leap :: "int \<Rightarrow> bool" where
  "is_leap y \<longleftrightarrow> y mod 4 = 0 \<and> (y mod 100 \<noteq> 0 \<or> y mod 400 = 0)"

definition days_in_month :: "int \<Rightarrow> int \<Rightarrow> int" where
  "days_in_month y m =
     (if m = 2 then (if is_leap y then 29 else 28)
      else if m = 4 \<or> m = 6 \<or> m = 9 \<or> m = 11 then 30 else 31)"

definition days_before_year :: "int \<Rightarrow> int" where
  "days_before_year y = (let z = y - 1 in z * 365 + z div 4 - z div 100 + z div 400)"

definition days_before_month :: "int \<Rightarrow> int \<Rightarrow> int" where
  "days_before_month y m =
     ([0, 31, 59, 90, 120, 151, 181, 212, 243, 273, 304, 334] ! nat (m - 1))
     + (if 2 < m \<and> is_leap y then 1 else 0)"

definition ymd2ord :: "int \<Rightarrow> int \<Rightarrow> int \<Rightarrow> date" where
  "ymd2ord y m d = days_before_year y + days_before_month y m + d"

definition valid_ymd :: "int \<Rightarrow> int \<Rightarrow> int \<Rightarrow> bool" where
  "valid_ymd y m d \<longleftrightarrow> 1 \<le> y \<and> y \<le> 9999 \<and> 1 \<le> m \<and> m \<le> 12 \<and> 1 \<le> d \<and> d \<le> days_in_month y m"

definition ord2ymd :: "date \<Rightarrow> int \<times> int \<times> int" where
  "ord2ymd ordinal = (let n = ordinal - 1;
      n400 = n div 146097; n = n mod 146097;
      n100 = n div 36524; n = n mod 36524;
      n4 = n div 1461; n = n mod 1461;
      n1 = n div 365; n = n mod 365;
      year = n400 * 400 + 1 + n100 * 100 + n4 * 4 + n1 in
    if n1 = 4 \<or> n100 = 4 then (year - 1, 12, 31)
    else let month = (n + 50) div 32;
             month = (if n < days_before_month year month then month - 1 else month) in
         (year, month, n - days_before_month year month + 1))"

section \<open>Printing\<close>

definition isoformat_date :: "date \<Rightarrow> string" where
  "isoformat_date d = (case ord2ymd d of (y, m, dd) \<Rightarrow>
     pad_left 4 (show_int y) @ ''-'' @ pad_left 2 (show_int m) @ ''-'' @ pad_left 2 (show_int dd))"

definition isoformat :: "datetime \<Rightarrow> string" where
  "isoformat t = (let day = t div 86400000000; us = t mod 86400000000;
      sec = us div 1000000; frac = us mod 1000000 in
     isoformat_date (day + 719163) @ ''T''
     @ pad_left 2 (show_int (sec div 3600)) @ '':''
     @ pad_left 2 (show_int (sec div 60 mod 60)) @ '':''
     @ pad_left 2 (show_int (sec mod 60))
     @ (if frac = 0 then [] else ''.'' @ pad_left 6 (show_int frac)) @ ''+00:00'')"

section \<open>Reading\<close>

definition fixed_digits :: "nat \<Rightarrow> string \<Rightarrow> (int \<times> string) option" where
  "fixed_digits n s = (if n \<le> length s \<and> list_all is_digit (take n s)
     then Some (digits_val (take n s), drop n s) else None)"

text \<open>\<open>_find_isoformat_datetime_separator\<close>: where the date part ends.\<close>

definition separator_index :: "string \<Rightarrow> nat option" where
  "separator_index s = (let n = length s in
     if n = 7 then Some 7
     else if s ! 4 = CHR ''-'' then
       (if s ! 5 = CHR ''W'' then
          (if 8 < n \<and> s ! 8 = CHR ''-'' then
             (if n = 9 then None else if 10 < n \<and> is_digit (s ! 10) then Some 8 else Some 10)
           else Some 8)
        else Some 10)
     else if s ! 4 = CHR ''W'' then
       (let idx = 7 + length (takeWhile is_digit (drop 7 s)) in
        if idx < 9 then Some idx else if even idx then Some 7 else Some 8)
     else Some 8)"

definition isoweek1monday :: "int \<Rightarrow> date" where
  "isoweek1monday y = (let first = ymd2ord y 1 1; wd = (first + 6) mod 7 in
     first - wd + (if 3 < wd then 7 else 0))"

definition isoweek_date :: "int \<Rightarrow> int \<Rightarrow> int \<Rightarrow> date option" where
  "isoweek_date y w d = (let fw = ymd2ord y 1 1 mod 7;
      week_ok = (0 < w \<and> w < 53) \<or> (w = 53 \<and> (fw = 4 \<or> (fw = 3 \<and> is_leap y)));
      ordinal = isoweek1monday y + (w - 1) * 7 + (d - 1) in
     if 1 \<le> y \<and> y \<le> 9999 \<and> week_ok \<and> 0 < d \<and> d < 8 \<and> 1 \<le> ordinal \<and> ordinal \<le> 3652059
     then Some ordinal else None)"

definition parse_week_date :: "int \<Rightarrow> bool \<Rightarrow> string \<Rightarrow> date option" where
  "parse_week_date y sep s = (case fixed_digits 2 s of None \<Rightarrow> None
     | Some (w, []) \<Rightarrow> isoweek_date y w 1
     | Some (w, c # cs) \<Rightarrow>
         if (c = CHR ''-'') \<noteq> sep then None
         else (case fixed_digits 1 (if sep then cs else c # cs) of
                 Some (d, []) \<Rightarrow> isoweek_date y w d | _ \<Rightarrow> None))"

definition parse_month_date :: "int \<Rightarrow> bool \<Rightarrow> string \<Rightarrow> date option" where
  "parse_month_date y sep s = (case fixed_digits 2 s of None \<Rightarrow> None
     | Some (m, r) \<Rightarrow>
         if (take 1 r = ''-'') \<noteq> sep then None
         else (case fixed_digits 2 (if sep then drop 1 r else r) of
                 Some (d, []) \<Rightarrow> if valid_ymd y m d then Some (ymd2ord y m d) else None
               | _ \<Rightarrow> None))"

definition parse_isoformat_date :: "string \<Rightarrow> date option" where
  "parse_isoformat_date s = (case fixed_digits 4 s of None \<Rightarrow> None
     | Some (y, r) \<Rightarrow>
         (let sep = (take 1 r = ''-''); r = (if sep then drop 1 r else r) in
          if take 1 r = ''W'' then parse_week_date y sep (drop 1 r) else parse_month_date y sep r))"

text \<open>\<open>_parse_hh_mm_ss_ff\<close>: up to three two-digit components, then a fraction. The result
  is the component list.\<close>

fun time_comps :: "nat \<Rightarrow> bool \<Rightarrow> bool \<Rightarrow> string \<Rightarrow> (int list \<times> string) option" where
  "time_comps 0 first sep s = Some ([], s)"
| "time_comps (Suc k) first sep s =
     (case fixed_digits 2 s of None \<Rightarrow> None
      | Some (v, []) \<Rightarrow> Some ([v], [])
      | Some (v, c # cs) \<Rightarrow>
          (let sep = (if first then c = CHR '':'' else sep) in
           if k = 0 then Some ([v], c # cs)
           else if sep \<and> c \<noteq> CHR '':'' then None
           else map_option (\<lambda>(vs, t). (v # vs, t)) (time_comps k False sep (if sep then cs else c # cs))))"

definition hh_mm_ss_ff :: "string \<Rightarrow> (int list \<times> int) option" where
  "hh_mm_ss_ff s = (case time_comps 3 True False s of None \<Rightarrow> None
     | Some (vs, []) \<Rightarrow> Some (vs, 0)
     | Some (vs, c # cs) \<Rightarrow>
         if (c = CHR ''.'' \<or> c = CHR '','') \<and> cs \<noteq> [] \<and> list_all is_digit cs
         then Some (vs, digits_val (take 6 cs) * 10 ^ (6 - min 6 (length cs))) else None)"

definition nth_or_0 :: "int list \<Rightarrow> nat \<Rightarrow> int" where
  "nth_or_0 xs i = (if i < length xs then xs ! i else 0)"

definition time_ok :: "int list \<times> int \<Rightarrow> bool" where
  "time_ok t \<longleftrightarrow> nth_or_0 (fst t) 0 < 24 \<and> nth_or_0 (fst t) 1 < 60 \<and> nth_or_0 (fst t) 2 < 60"

text \<open>A UTC offset is strictly shorter than a day.\<close>

definition offset_ok :: "int list \<times> int \<Rightarrow> bool" where
  "offset_ok t \<longleftrightarrow>
     ((nth_or_0 (fst t) 0 * 60 + nth_or_0 (fst t) 1) * 60 + nth_or_0 (fst t) 2) * 1000000 + snd t
       < 86400000000"

definition find_index :: "char \<Rightarrow> string \<Rightarrow> nat option" where
  "find_index c s = (let p = takeWhile (\<lambda>d. d \<noteq> c) s in
     if length p < length s then Some (length p) else None)"

definition tz_index :: "string \<Rightarrow> nat option" where
  "tz_index s = (case find_index CHR ''-'' s of Some i \<Rightarrow> Some i
     | None \<Rightarrow> (case find_index CHR ''+'' s of Some i \<Rightarrow> Some i
                | None \<Rightarrow> find_index CHR ''Z'' s))"

definition iso_time_ok :: "string \<Rightarrow> bool" where
  "iso_time_ok s = (2 \<le> length s \<and>
     (case tz_index s of
        None \<Rightarrow> (case hh_mm_ss_ff s of Some t \<Rightarrow> time_ok t | None \<Rightarrow> False)
      | Some i \<Rightarrow>
          (case hh_mm_ss_ff (take i s) of None \<Rightarrow> False
           | Some t \<Rightarrow> time_ok t \<and>
               ((Suc i = length s \<and> s ! i = CHR ''Z'') \<or>
                (length (drop (Suc i) s) \<notin> {0, 1, 3} \<and>
                 (case hh_mm_ss_ff (drop (Suc i) s) of Some z \<Rightarrow> offset_ok z | None \<Rightarrow> False))))))"

definition fromisoformat_date :: "string \<Rightarrow> date option" where
  "fromisoformat_date s = (if length s < 7 then None
     else (case separator_index s of None \<Rightarrow> None
       | Some i \<Rightarrow> (case parse_isoformat_date (take i s) of None \<Rightarrow> None
           | Some d \<Rightarrow> if drop i s = [] \<or> iso_time_ok (drop (Suc i) s) then Some d else None)))"

end
