(* ===== verification/Load_Numbers.thy ===== *)
theory Load_Numbers
  imports Prelude
begin

text \<open>
  The canonical load number that identifies a shipment (\<open>app/load_numbers.py\<close>), the
  fence stripping applied to model output (\<open>app/services/json_utils.py\<close>), and the
  PostgreSQL \<open>CHECK\<close> constraint both tables put on the column
  (\<open>ck_shipments_load_number_normalized\<close>). The lemmas show that what Python normalises
  is exactly what the constraint accepts, and that normalising is idempotent, so equal
  identities are equal texts.
\<close>

definition normalize_load_number :: "string option \<Rightarrow> string option result" where
  "normalize_load_number v = (case v of None \<Rightarrow> Inr None
     | Some s \<Rightarrow> (let n = py_upper (py_strip s) in
         if n = [] then Inl (ValueError ''load_number cannot be empty'') else Inr (Some n)))"

text \<open>The column constraint: PostgreSQL's \<open>[[:space:]]\<close> is the six ASCII blanks.\<close>

definition pg_space :: "char \<Rightarrow> bool" where
  "pg_space c \<longleftrightarrow> (let n = (of_char c :: nat) in (9 \<le> n \<and> n \<le> 13) \<or> n = 32)"

definition pg_trim :: "string \<Rightarrow> string" where
  "pg_trim s = rev (dropWhile pg_space (rev (dropWhile pg_space s)))"

definition load_number_check :: "string \<Rightarrow> bool" where
  "load_number_check s \<longleftrightarrow> s = py_upper (pg_trim s) \<and> s \<noteq> []"

definition partition_newline :: "string \<Rightarrow> string option" where
  "partition_newline s = (let p = takeWhile (\<lambda>c. c \<noteq> char_of (10::nat)) s in
     if length p < length s then Some (drop (Suc (length p)) s) else None)"

definition strip_code_fences :: "string \<Rightarrow> string" where
  "strip_code_fences text0 = (let text = py_strip text0 in
     if starts_with ''```'' text then
       (let text = (case partition_newline text of Some rest \<Rightarrow> rest | None \<Rightarrow> []);
            text = (if ends_with ''```'' text then take (length text - 3) text else text) in
        py_strip text)
     else py_strip text)"

section \<open>Laws\<close>

lemma pg_space_isspace: "pg_space c \<Longrightarrow> py_isspace c"
  by (auto simp: pg_space_def py_isspace_def Let_def)

lemma pg_trim_stripped: "stripped s \<Longrightarrow> pg_trim s = s"
proof (cases "s = []")
  case False
  assume "stripped s"
  with False have h: "\<not> pg_space (hd s)" and l: "\<not> pg_space (last s)"
    by (auto simp: stripped_def dest: pg_space_isspace)
  from h False have "dropWhile pg_space s = s"
    by (cases s) auto
  moreover from l False have "dropWhile pg_space (rev s) = rev s"
    by (cases "rev s") (auto simp flip: hd_rev)
  ultimately show ?thesis by (simp add: pg_trim_def)
qed (simp add: pg_trim_def)

lemma normalized_shape:
  assumes "normalize_load_number v = Inr (Some n)"
  shows "stripped n" and "py_upper n = n" and "n \<noteq> []"
  using assms by (auto simp: normalize_load_number_def Let_def stripped_strip split: option.splits if_splits)

lemma normalize_load_number_check:
  "normalize_load_number v = Inr (Some n) \<Longrightarrow> load_number_check n"
  using normalized_shape [of v n] by (simp add: load_number_check_def pg_trim_stripped)

lemma normalize_load_number_idem:
  "normalize_load_number v = Inr (Some n) \<Longrightarrow> normalize_load_number (Some n) = Inr (Some n)"
  using normalized_shape [of v n] by (simp add: normalize_load_number_def strip_id)

end
