(* ===== verification/Database.thy ===== *)
theory Database
  imports PyJson PyDate Load_Numbers
begin

text \<open>
  The PostgreSQL tables of \<open>app/models/*.py\<close>: one record per mapped class with its
  columns, and \<open>database\<close> with the rows of every table in insertion order. The values
  the environment chooses are part of the state: \<open>pg_now\<close> is the transaction timestamp
  behind \<open>func.now()\<close>, \<open>uuid4_at\<close> the outcomes of the successive \<open>uuid4()\<close> calls with
  \<open>uuid_pos\<close> the number made so far, and the \<open>*_seq\<close> fields are the serial counters.
  A session's flush writes a row into its table; a commit makes the state the next
  one; a raised exception leaves the caller with the state before the transaction.

  \<open>keyed_store\<close> is the contract every service relies on when it reads back what it
  wrote: rows are found by key, storing a row changes that key only. It is interpreted on
  the tables below.
\<close>

type_synonym uuid = string

section \<open>Rows\<close>

record document =
  doc_id :: nat
  doc_filename :: string
  doc_doc_type :: string
  doc_status :: string
  doc_raw_text :: "string option"
  doc_extracted_data :: "jdict option"
  doc_source_type :: "string option"
  doc_source_idempotency_key :: "string option"
  doc_source_message_id :: "string option"
  doc_source_part_id :: "string option"
  doc_source_enqueued_at :: "datetime option"
  doc_content_sha256 :: "string option"
  doc_shipment_id :: "uuid option"
  doc_created_at :: datetime

record rate_confirmation =
  rc_id :: uuid
  rc_load_number :: string
  rc_carrier_name :: string
  rc_origin :: string
  rc_destination :: string
  rc_agreed_rate :: pyfloat
  rc_currency :: string
  rc_shipment_date :: date
  rc_created_at :: datetime

record shipment =
  sh_id :: uuid
  sh_load_number :: string
  sh_carrier_name :: "string option"
  sh_has_invoice :: bool
  sh_has_rate_con :: bool
  sh_has_bol :: bool
  sh_has_pod :: bool
  sh_invoice_id :: "nat option"
  sh_rate_con_id :: "nat option"
  sh_bol_id :: "nat option"
  sh_pod_id :: "nat option"
  sh_reconciliation_status :: string
  sh_created_at :: datetime
  sh_updated_at :: datetime

text \<open>\<open>ReconciliationCheck\<close> (\<open>app/schemas/reconciliation.py\<close>); the outcome is one of
  \<open>passed\<close>, \<open>failed\<close>, \<open>not_evaluated\<close>.\<close>

datatype check_outcome = Passed | Failed | NotEvaluated

record recon_check =
  check_name :: string
  check_outcome :: check_outcome
  check_details :: string
  check_reason_code :: "string option"

record reconciliation_result =
  rr_id :: uuid
  rr_shipment_id :: uuid
  rr_run_id :: "string option"
  rr_evaluation_source :: string
  rr_evaluation_key :: "string option"
  rr_checks :: "recon_check list"
  rr_missing_docs :: "string list"
  rr_exception_reasons :: "string list"
  rr_created_at :: datetime

text \<open>The dict built by \<open>_exception_state\<close> and stored before and after a transition.\<close>

record exception_state =
  es_status :: string
  es_missing_docs :: "string list"
  es_reason_codes :: "string list"
  es_deadline_at :: string

record shipment_exception =
  ex_id :: uuid
  ex_shipment_id :: uuid
  ex_kind :: string
  ex_status :: string
  ex_missing_docs :: "string list"
  ex_reason_codes :: "string list"
  ex_deadline_at :: datetime
  ex_version :: nat
  ex_opened_at :: datetime
  ex_resolved_at :: "datetime option"
  ex_updated_at :: datetime

record exception_event =
  ev_id :: uuid
  ev_exception_id :: uuid
  ev_reconciliation_result_id :: "uuid option"
  ev_version :: nat
  ev_transition :: string
  ev_before_state :: "exception_state option"
  ev_after_state :: exception_state
  ev_occurred_at :: datetime
  ev_notification_status :: string
  ev_notification_attempt_count :: nat
  ev_notification_last_error :: "string option"
  ev_notification_sent_at :: "datetime option"

record workflow_run =
  wr_id :: nat
  wr_run_id :: string
  wr_document_id :: nat
  wr_status :: string
  wr_processing_status :: string
  wr_posting_status :: string
  wr_interrupt_payload :: "jdict option"
  wr_created_at :: datetime
  wr_updated_at :: datetime

record review_decision =
  rd_id :: uuid
  rd_run_id :: string
  rd_disposition :: string
  rd_decided_at :: datetime
  rd_reviewer_id :: "string option"

record workflow_audit_log =
  al_id :: nat
  al_run_id :: string
  al_event_type :: string
  al_payload :: "jdict option"
  al_actor :: string
  al_created_at :: datetime

record notification =
  nt_id :: nat
  nt_sent_at :: datetime
  nt_total_count :: nat
  nt_complete_count :: nat
  nt_awaiting_review_count :: nat
  nt_failed_count :: nat
  nt_approved_count :: nat
  nt_rejected_count :: nat
  nt_ready_for_posting_count :: nat

record database =
  documents :: "document list"
  rate_confirmations :: "rate_confirmation list"
  shipments :: "shipment list"
  reconciliation_results :: "reconciliation_result list"
  shipment_exceptions :: "shipment_exception list"
  exception_events :: "exception_event list"
  workflow_runs :: "workflow_run list"
  review_decisions :: "review_decision list"
  audit_logs :: "workflow_audit_log list"
  notifications :: "notification list"
  doc_seq :: nat
  run_seq :: nat
  audit_seq :: nat
  notif_seq :: nat
  uuid4_at :: "nat \<Rightarrow> uuid"
  uuid_pos :: nat
  pg_now :: datetime

text \<open>The database right after the migrations, for the concrete runs of the development.
  Its identifier supply is a simple injective one.\<close>

definition fresh_database :: "datetime \<Rightarrow> database" where
  "fresh_database now = \<lparr>documents = [], rate_confirmations = [], shipments = [],
     reconciliation_results = [], shipment_exceptions = [], exception_events = [], workflow_runs = [],
     review_decisions = [], audit_logs = [], notifications = [], doc_seq = 0, run_seq = 0,
     audit_seq = 0, notif_seq = 0, uuid4_at = (\<lambda>n. replicate n CHR ''a''), uuid_pos = 0, pg_now = now\<rparr>"

lemma inj_replicate: "inj (\<lambda>n. replicate n c)"
  by (rule injI) (metis length_replicate)

section \<open>Queries\<close>

definition get_row :: "('r \<Rightarrow> 'k) \<Rightarrow> 'k \<Rightarrow> 'r list \<Rightarrow> 'r option" where
  "get_row key k t = List.find (\<lambda>r. key r = k) t"

definition set_row :: "('r \<Rightarrow> 'k) \<Rightarrow> 'r \<Rightarrow> 'r list \<Rightarrow> 'r list" where
  "set_row key r t = map (\<lambda>x. if key x = key r then r else x) t"

text \<open>\<open>result.scalar_one_or_none()\<close> and \<open>result.scalar_one()\<close> on the selected rows.\<close>

definition scalar_one_or_none :: "'r list \<Rightarrow> 'r option result" where
  "scalar_one_or_none rs = (case rs of [] \<Rightarrow> Inr None | [r] \<Rightarrow> Inr (Some r) | _ \<Rightarrow> Inl MultipleResultsFound)"

definition scalar_one :: "'r list \<Rightarrow> 'r result" where
  "scalar_one rs = (case rs of [] \<Rightarrow> Inl NoResultFound | [r] \<Rightarrow> Inr r | _ \<Rightarrow> Inl MultipleResultsFound)"

text \<open>\<open>uuid4()\<close>.\<close>

definition fresh_uuid :: "database \<Rightarrow> uuid \<times> database" where
  "fresh_uuid db = (uuid4_at db (uuid_pos db), db\<lparr>uuid_pos := Suc (uuid_pos db)\<rparr>)"

lemma get_row_Nil [simp]: "get_row key k [] = None"
  by (simp add: get_row_def)

lemma get_row_Cons [simp]: "get_row key k (r # t) = (if key r = k then Some r else get_row key k t)"
  by (simp add: get_row_def)

lemma get_row_append: "get_row key k (t @ u) = (case get_row key k t of Some r \<Rightarrow> Some r | None \<Rightarrow> get_row key k u)"
  by (induction t) auto

lemma get_row_key: "get_row key k t = Some r \<Longrightarrow> key r = k \<and> r \<in> set t"
  by (induction t) (auto split: if_splits)

lemma get_row_None_iff: "get_row key k t = None \<longleftrightarrow> k \<notin> key ` set t"
  by (induction t) auto

lemma get_row_distinct: "distinct (map key t) \<Longrightarrow> r \<in> set t \<Longrightarrow> get_row key (key r) t = Some r"
  by (induction t) (auto simp: rev_image_eqI)

lemma map_key_set_row [simp]: "map key (set_row key r t) = map key t"
  by (induction t) (auto simp: set_row_def)

lemma length_set_row [simp]: "length (set_row key r t) = length t"
  by (simp add: set_row_def)

lemma get_row_set_row:
  "get_row key k (set_row key r t) =
     (if k = key r then map_option (\<lambda>_. r) (get_row key k t) else get_row key k t)"
  by (induction t) (auto simp: set_row_def)

lemma set_row_absent: "key r \<notin> key ` set t \<Longrightarrow> set_row key r t = t"
  by (induction t) (auto simp: set_row_def)

lemma set_set_row: "set (set_row key r t) \<subseteq> insert r (set t)"
  by (auto simp: set_row_def)

lemma set_row_mem:
  "x \<in> set (set_row key r t) \<longleftrightarrow> (x \<in> set t \<and> key x \<noteq> key r) \<or> (x = r \<and> key r \<in> key ` set t)"
  by (induction t) (auto simp: set_row_def)

lemma set_row_same: "distinct (map key t) \<Longrightarrow> r \<in> set t \<Longrightarrow> set_row key r t = t"
  by (auto simp: set_row_def distinct_map intro!: map_idI dest: inj_onD)

lemma distinct_filter_unique:
  "distinct (map key t) \<Longrightarrow> filter (\<lambda>r. key r = k) t = (case get_row key k t of None \<Rightarrow> [] | Some r \<Rightarrow> [r])"
proof (induction t)
  case (Cons r t)
  show ?case
  proof (cases "key r = k")
    case True
    with Cons.prems have "filter (\<lambda>r. key r = k) t = []"
      by (auto simp: filter_empty_conv image_iff)
    with True show ?thesis by simp
  next
    case False
    with Cons show ?thesis by simp
  qed
qed simp

lemma scalar_one_or_none_unique:
  "distinct (map key t) \<Longrightarrow> scalar_one_or_none (filter (\<lambda>r. key r = k) t) = Inr (get_row key k t)"
  by (simp add: distinct_filter_unique scalar_one_or_none_def split: option.splits)

text \<open>A partial unique index (\<open>WHERE column IS NOT NULL\<close>): no two rows share a value.\<close>

definition partial_unique :: "('r \<Rightarrow> 'v option) \<Rightarrow> 'r list \<Rightarrow> bool" where
  "partial_unique f t \<longleftrightarrow> sorted_wrt (\<lambda>x y. f x = None \<or> f x \<noteq> f y) t"

lemma partial_unique_snoc:
  "partial_unique f (t @ [r]) \<longleftrightarrow> partial_unique f t \<and> (f r = None \<or> f r \<notin> f ` set t)"
  unfolding partial_unique_def sorted_wrt_append by (fastforce simp: image_iff)

lemma partial_unique_find:
  "partial_unique f t \<Longrightarrow>
   scalar_one_or_none (filter (\<lambda>x. f x = Some k) t) = Inr (List.find (\<lambda>x. f x = Some k) t)"
proof (induction t)
  case (Cons r t)
  show ?case
  proof (cases "f r = Some k")
    case True
    with Cons.prems have "filter (\<lambda>x. f x = Some k) t = []"
      by (auto simp: partial_unique_def filter_empty_conv)
    with True show ?thesis by (simp add: scalar_one_or_none_def)
  next
    case False
    with Cons show ?thesis by (simp add: partial_unique_def)
  qed
qed (simp add: scalar_one_or_none_def)

lemma partial_unique_find_mem:
  "partial_unique f t \<Longrightarrow> r \<in> set t \<Longrightarrow> f r = Some k \<Longrightarrow> List.find (\<lambda>x. f x = Some k) t = Some r"
  by (induction t) (auto simp: partial_unique_def)

lemma partial_unique_set_row:
  assumes uniq: "partial_unique f t" and dist: "distinct (map key t)" and x: "x \<in> set t" "key r = key x"
    and f: "f r = None \<or> f r = f x"
  shows "partial_unique f (set_row key r t)"
proof -
  let ?g = "\<lambda>z. if key z = key r then r else z"
  have g: "f (?g z) = None \<or> f (?g z) = f z" if "z \<in> set t" for z
    using that x f dist by (auto simp: distinct_map dest: inj_onD)
  have "sorted_wrt (\<lambda>z w. f (?g z) = None \<or> f (?g z) \<noteq> f (?g w)) t"
    using uniq unfolding partial_unique_def
    by (rule sorted_wrt_mono_rel [rotated]) (use g in metis)
  then show ?thesis by (simp add: partial_unique_def set_row_def sorted_wrt_map)
qed

section \<open>The store contract\<close>

locale keyed_store =
  fixes look :: "'k \<Rightarrow> 's \<Rightarrow> 'r option"
    and store :: "'r \<Rightarrow> 's \<Rightarrow> 's"
    and add :: "'r \<Rightarrow> 's \<Rightarrow> 's"
    and rkey :: "'r \<Rightarrow> 'k"
  assumes look_rkey: "look k s = Some r \<Longrightarrow> rkey r = k"
    and look_store: "look k (store r s) = (if k = rkey r \<and> look k s \<noteq> None then Some r else look k s)"
    and look_add: "look k (add r s) = (case look k s of Some x \<Rightarrow> Some x
                     | None \<Rightarrow> if k = rkey r then Some r else None)"
begin

lemma look_store_same: "look k s = Some x \<Longrightarrow> rkey r = k \<Longrightarrow> look k (store r s) = Some r"
  by (simp add: look_store)

lemma look_store_other: "rkey r \<noteq> k \<Longrightarrow> look k (store r s) = look k s"
  by (auto simp: look_store)

lemma look_store_store: "rkey r = rkey r' \<Longrightarrow> look k (store r (store r' s)) = look k (store r s)"
  by (auto simp: look_store)

lemma look_store_commute:
  "rkey r \<noteq> rkey r' \<Longrightarrow> look k (store r (store r' s)) = look k (store r' (store r s))"
  by (auto simp: look_store)

lemma look_store_None_iff: "look k (store r s) = None \<longleftrightarrow> look k s = None"
  by (auto simp: look_store)

lemma look_add_fresh: "look (rkey r) s = None \<Longrightarrow> look (rkey r) (add r s) = Some r"
  by (simp add: look_add)

lemma look_add_keeps: "look k s = Some x \<Longrightarrow> look k (add r s) = Some x"
  by (simp add: look_add)

end

lemma get_row_set_row':
  "get_row key k (set_row key r t) =
     (if k = key r \<and> get_row key k t \<noteq> None then Some r else get_row key k t)"
  by (cases "get_row key k t") (auto simp: get_row_set_row)

lemma keyed_store_lens:
  assumes put: "\<And>t s. rows (put t s) = t"
  shows "keyed_store (\<lambda>k s. get_row key k (rows s)) (\<lambda>r s. put (set_row key r (rows s)) s)
           (\<lambda>r s. put (rows s @ [r]) s) key"
proof (unfold_locales, goal_cases)
  case (1 k s r)
  then show ?case using get_row_key [of key k "rows s" r] by blast
next
  case (2 k r s)
  show ?case unfolding put by (rule get_row_set_row')
next
  case (3 k r s)
  show ?case unfolding put get_row_append get_row_Cons get_row_Nil by (simp add: eq_commute)
qed

section \<open>Table access\<close>

text \<open>\<open>db.get(Document, id)\<close>, the flush of a changed row and \<open>db.add\<close>, per table. A
  flush that changes a shipment, a run or an exception stamps \<open>updated_at\<close>
  (\<open>onupdate=func.now()\<close>).\<close>

definition get_document :: "nat \<Rightarrow> database \<Rightarrow> document option" where
  "get_document i db = get_row doc_id i (documents db)"

definition put_document :: "document \<Rightarrow> database \<Rightarrow> database" where
  "put_document d db = db\<lparr>documents := set_row doc_id d (documents db)\<rparr>"

definition add_document :: "document \<Rightarrow> database \<Rightarrow> database" where
  "add_document d db = db\<lparr>documents := documents db @ [d]\<rparr>"

definition get_shipment :: "uuid \<Rightarrow> database \<Rightarrow> shipment option" where
  "get_shipment i db = get_row sh_id i (shipments db)"

definition put_shipment :: "shipment \<Rightarrow> database \<Rightarrow> database" where
  "put_shipment s db = db\<lparr>shipments := set_row sh_id s (shipments db)\<rparr>"

definition add_shipment :: "shipment \<Rightarrow> database \<Rightarrow> database" where
  "add_shipment s db = db\<lparr>shipments := shipments db @ [s]\<rparr>"

definition touch_shipment :: "shipment \<Rightarrow> database \<Rightarrow> shipment" where
  "touch_shipment s db =
     (if get_shipment (sh_id s) db = Some s then s else s\<lparr>sh_updated_at := pg_now db\<rparr>)"

definition get_run :: "string \<Rightarrow> database \<Rightarrow> workflow_run option" where
  "get_run i db = get_row wr_run_id i (workflow_runs db)"

definition put_run :: "workflow_run \<Rightarrow> database \<Rightarrow> database" where
  "put_run r db = db\<lparr>workflow_runs := set_row wr_run_id r (workflow_runs db)\<rparr>"

definition add_run :: "workflow_run \<Rightarrow> database \<Rightarrow> database" where
  "add_run r db = db\<lparr>workflow_runs := workflow_runs db @ [r]\<rparr>"

definition touch_run :: "workflow_run \<Rightarrow> database \<Rightarrow> workflow_run" where
  "touch_run r db = (if get_run (wr_run_id r) db = Some r then r else r\<lparr>wr_updated_at := pg_now db\<rparr>)"

interpretation doc_store: keyed_store get_document put_document add_document doc_id
  using keyed_store_lens [of documents "\<lambda>t db. db\<lparr>documents := t\<rparr>" doc_id]
  unfolding get_document_def [abs_def] put_document_def [abs_def] add_document_def [abs_def] by simp

interpretation ship_store: keyed_store get_shipment put_shipment add_shipment sh_id
  using keyed_store_lens [of shipments "\<lambda>t db. db\<lparr>shipments := t\<rparr>" sh_id]
  unfolding get_shipment_def [abs_def] put_shipment_def [abs_def] add_shipment_def [abs_def] by simp

interpretation run_store: keyed_store get_run put_run add_run wr_run_id
  using keyed_store_lens [of workflow_runs "\<lambda>t db. db\<lparr>workflow_runs := t\<rparr>" wr_run_id]
  unfolding get_run_def [abs_def] put_run_def [abs_def] add_run_def [abs_def] by simp

end
