(* ===== verification/Shipments.thy ===== *)
theory Shipments
  imports Database
begin

text \<open>
  Shipment assembly (\<open>app/services/shipment.py\<close>): a document is attached to the shipment
  of its normalised load number, creating the row on first sight, and a managed rate
  confirmation with the same load number is represented by a companion document.
  \<open>shipments_inv\<close> is what the table keeps: one row per load number, normalised, a
  document id only where the presence flag is set, and a status of the enumeration.
\<close>

text \<open>\<open>ReconciliationStatus\<close> (\<open>app/schemas/business_state.py\<close>).\<close>

definition RECONCILIATION_STATUSES :: "string list" where
  "RECONCILIATION_STATUSES = [''pending'', ''partial'', ''reconciled'', ''exception'']"

section \<open>Operations\<close>

record doc_fields =
  df_get_id :: "shipment \<Rightarrow> nat option"
  df_set_id :: "nat \<Rightarrow> shipment \<Rightarrow> shipment"
  df_set_present :: "shipment \<Rightarrow> shipment"

definition DOC_FIELDS :: "(string \<times> doc_fields) list" where
  "DOC_FIELDS =
    [(''invoice'', \<lparr>df_get_id = sh_invoice_id, df_set_id = (\<lambda>i s. s\<lparr>sh_invoice_id := Some i\<rparr>),
                    df_set_present = (\<lambda>s. s\<lparr>sh_has_invoice := True\<rparr>)\<rparr>),
     (''rate_confirmation'', \<lparr>df_get_id = sh_rate_con_id, df_set_id = (\<lambda>i s. s\<lparr>sh_rate_con_id := Some i\<rparr>),
                    df_set_present = (\<lambda>s. s\<lparr>sh_has_rate_con := True\<rparr>)\<rparr>),
     (''bill_of_lading'', \<lparr>df_get_id = sh_bol_id, df_set_id = (\<lambda>i s. s\<lparr>sh_bol_id := Some i\<rparr>),
                    df_set_present = (\<lambda>s. s\<lparr>sh_has_bol := True\<rparr>)\<rparr>),
     (''proof_of_delivery'', \<lparr>df_get_id = sh_pod_id, df_set_id = (\<lambda>i s. s\<lparr>sh_pod_id := Some i\<rparr>),
                    df_set_present = (\<lambda>s. s\<lparr>sh_has_pod := True\<rparr>)\<rparr>)]"

definition present_count :: "shipment \<Rightarrow> nat" where
  "present_count s = of_bool (sh_has_invoice s) + of_bool (sh_has_rate_con s)
                   + of_bool (sh_has_bol s) + of_bool (sh_has_pod s)"

definition rate_confirmation_extraction :: "rate_confirmation \<Rightarrow> jdict" where
  "rate_confirmation_extraction rc =
    [(''rate_confirmation_id'', JStr (rc_id rc)),
     (''load_number'', JStr (rc_load_number rc)),
     (''carrier_name'', JStr (rc_carrier_name rc)),
     (''origin'', JStr (rc_origin rc)),
     (''destination'', JStr (rc_destination rc)),
     (''agreed_rate'', JFloat (rc_agreed_rate rc)),
     (''currency'', JStr (rc_currency rc)),
     (''shipment_date'', JStr (isoformat_date (rc_shipment_date rc))),
     (''doc_type'', JStr ''rate_confirmation'')]"

definition new_document ::
  "string \<Rightarrow> string \<Rightarrow> string \<Rightarrow> jdict option \<Rightarrow> database \<Rightarrow> document \<times> database" where
  "new_document filename doc_type status extracted db =
     (let d = \<lparr>doc_id = Suc (doc_seq db), doc_filename = filename, doc_doc_type = doc_type,
               doc_status = status, doc_raw_text = None, doc_extracted_data = extracted,
               doc_source_type = None, doc_source_idempotency_key = None,
               doc_source_message_id = None, doc_source_part_id = None,
               doc_source_enqueued_at = None, doc_content_sha256 = None,
               doc_shipment_id = None, doc_created_at = pg_now db\<rparr> in
      (d, (add_document d db)\<lparr>doc_seq := Suc (doc_seq db)\<rparr>))"

definition is_companion_of :: "rate_confirmation \<Rightarrow> document \<Rightarrow> bool" where
  "is_companion_of rc d \<longleftrightarrow> doc_doc_type d = ''rate_confirmation''
     \<and> (case doc_extracted_data d of None \<Rightarrow> False
        | Some e \<Rightarrow> dget e ''rate_confirmation_id'' = JStr (rc_id rc))"

definition rate_confirmation_document ::
  "rate_confirmation \<Rightarrow> shipment \<Rightarrow> database \<Rightarrow> (document \<times> database) result" where
  "rate_confirmation_document rc s db =
     (case scalar_one_or_none (filter (is_companion_of rc) (documents db)) of
        Inl e \<Rightarrow> Inl e
      | Inr found \<Rightarrow>
          (let extraction = rate_confirmation_extraction rc;
               (d, db) = (case found of
                   Some d \<Rightarrow> (d, db)
                 | None \<Rightarrow> new_document (''manual-rate-confirmation-'' @ rc_load_number rc @ ''.json'')
                             ''rate_confirmation'' ''extracted'' (Some extraction) db);
               d = d\<lparr>doc_shipment_id := Some (sh_id s), doc_extracted_data := Some extraction\<rparr> in
           Inr (d, put_document d db)))"

definition no_carrier :: "shipment \<Rightarrow> bool" where
  "no_carrier s \<longleftrightarrow> (case sh_carrier_name s of None \<Rightarrow> True | Some c \<Rightarrow> c = [])"

definition attach_existing_rate_confirmation ::
  "shipment \<Rightarrow> database \<Rightarrow> (shipment \<times> database) result" where
  "attach_existing_rate_confirmation s db =
     (if sh_rate_con_id s \<noteq> None then Inr (s\<lparr>sh_has_rate_con := True\<rparr>, db)
      else (case scalar_one_or_none (filter (\<lambda>rc. rc_load_number rc = sh_load_number s) (rate_confirmations db)) of
          Inl e \<Rightarrow> Inl e
        | Inr None \<Rightarrow> Inr (s, db)
        | Inr (Some rc) \<Rightarrow>
            (case rate_confirmation_document rc s db of
               Inl e \<Rightarrow> Inl e
             | Inr (d, db) \<Rightarrow>
                 (let s = s\<lparr>sh_rate_con_id := Some (doc_id d), sh_has_rate_con := True\<rparr>;
                      s = (if no_carrier s then s\<lparr>sh_carrier_name := Some (rc_carrier_name rc)\<rparr> else s) in
                  Inr (s, db)))))"

text \<open>\<open>INSERT ... ON CONFLICT (load_number) DO NOTHING\<close>; the identifier is drawn in any case.\<close>

definition insert_shipment :: "string \<Rightarrow> database \<Rightarrow> database" where
  "insert_shipment n db =
     (let (i, db) = fresh_uuid db in
      if n \<in> sh_load_number ` set (shipments db) then db
      else add_shipment \<lparr>sh_id = i, sh_load_number = n, sh_carrier_name = None,
             sh_has_invoice = False, sh_has_rate_con = False, sh_has_bol = False, sh_has_pod = False,
             sh_invoice_id = None, sh_rate_con_id = None, sh_bol_id = None, sh_pod_id = None,
             sh_reconciliation_status = ''pending'', sh_created_at = pg_now db, sh_updated_at = pg_now db\<rparr> db)"

definition link_document :: "document \<Rightarrow> shipment \<Rightarrow> shipment" where
  "link_document d s = (case map_of DOC_FIELDS (doc_doc_type d) of
      None \<Rightarrow> s
    | Some f \<Rightarrow> df_set_present f (if df_get_id f s = None then df_set_id f (doc_id d) s else s))"

definition adopt_carrier :: "jdict \<Rightarrow> shipment \<Rightarrow> shipment result" where
  "adopt_carrier extraction s =
     (if no_carrier s \<and> truthy (dget extraction ''carrier_name'')
      then (case dget extraction ''carrier_name'' of
              JStr c \<Rightarrow> Inr (s\<lparr>sh_carrier_name := Some c\<rparr>) | _ \<Rightarrow> Inl DataError)
      else Inr s)"

definition assembled_status :: "shipment \<Rightarrow> shipment" where
  "assembled_status s =
     (if present_count s = 0 then s\<lparr>sh_reconciliation_status := ''pending''\<rparr>
      else if present_count s < length DOC_FIELDS then s\<lparr>sh_reconciliation_status := ''partial''\<rparr>
      else s)"

definition upsert_shipment ::
  "string option \<Rightarrow> document \<Rightarrow> jdict \<Rightarrow> database \<Rightarrow> (shipment option \<times> database) result" where
  "upsert_shipment load_number d extraction db =
     (case normalize_load_number load_number of
        Inl e \<Rightarrow> Inl e
      | Inr None \<Rightarrow> Inr (None, db)
      | Inr (Some n) \<Rightarrow>
          (let db = insert_shipment n db in
           case scalar_one (filter (\<lambda>s. sh_load_number s = n) (shipments db)) of
             Inl e \<Rightarrow> Inl e
           | Inr s \<Rightarrow>
               (let db = put_document (d\<lparr>doc_shipment_id := Some (sh_id s)\<rparr>) db;
                    s = link_document d s in
                case adopt_carrier extraction s of
                  Inl e \<Rightarrow> Inl e
                | Inr s \<Rightarrow>
                    (case attach_existing_rate_confirmation s db of
                       Inl e \<Rightarrow> Inl e
                     | Inr (s, db) \<Rightarrow>
                         (let s = touch_shipment (assembled_status s) db in
                          Inr (Some s, put_shipment s db))))))"

section \<open>What the table keeps\<close>

definition shipment_ok :: "shipment \<Rightarrow> bool" where
  "shipment_ok s \<longleftrightarrow> load_number_check (sh_load_number s)
     \<and> (sh_invoice_id s \<noteq> None \<longrightarrow> sh_has_invoice s) \<and> (sh_rate_con_id s \<noteq> None \<longrightarrow> sh_has_rate_con s)
     \<and> (sh_bol_id s \<noteq> None \<longrightarrow> sh_has_bol s) \<and> (sh_pod_id s \<noteq> None \<longrightarrow> sh_has_pod s)
     \<and> sh_reconciliation_status s \<in> set RECONCILIATION_STATUSES"

definition shipments_inv :: "database \<Rightarrow> bool" where
  "shipments_inv db \<longleftrightarrow> distinct (map sh_id (shipments db)) \<and> distinct (map sh_load_number (shipments db))
     \<and> (\<forall>s \<in> set (shipments db). shipment_ok s)
     \<and> inj (uuid4_at db) \<and> sh_id ` set (shipments db) \<subseteq> uuid4_at db ` {..< uuid_pos db}"

text \<open>Assembly only adds: identity and arrival time stay, a flag once set stays set, a
  document id once taken is never replaced, a known carrier is kept.\<close>

definition extends_shipment :: "shipment \<Rightarrow> shipment \<Rightarrow> bool" where
  "extends_shipment s t \<longleftrightarrow> sh_id t = sh_id s \<and> sh_load_number t = sh_load_number s
     \<and> sh_created_at t = sh_created_at s
     \<and> (sh_has_invoice s \<longrightarrow> sh_has_invoice t) \<and> (sh_has_rate_con s \<longrightarrow> sh_has_rate_con t)
     \<and> (sh_has_bol s \<longrightarrow> sh_has_bol t) \<and> (sh_has_pod s \<longrightarrow> sh_has_pod t)
     \<and> (sh_invoice_id s \<noteq> None \<longrightarrow> sh_invoice_id t = sh_invoice_id s)
     \<and> (sh_rate_con_id s \<noteq> None \<longrightarrow> sh_rate_con_id t = sh_rate_con_id s)
     \<and> (sh_bol_id s \<noteq> None \<longrightarrow> sh_bol_id t = sh_bol_id s)
     \<and> (sh_pod_id s \<noteq> None \<longrightarrow> sh_pod_id t = sh_pod_id s)
     \<and> (\<not> no_carrier s \<longrightarrow> sh_carrier_name t = sh_carrier_name s)"

lemma extends_refl [simp]: "extends_shipment s s"
  by (simp add: extends_shipment_def)

lemma extends_trans: "extends_shipment s t \<Longrightarrow> extends_shipment t u \<Longrightarrow> extends_shipment s u"
  by (auto simp: extends_shipment_def no_carrier_def)

lemma DOC_FIELDS_cases:
  assumes "map_of DOC_FIELDS t = Some f"
  obtains "t = ''invoice''" "f = snd (DOC_FIELDS ! 0)" | "t = ''rate_confirmation''" "f = snd (DOC_FIELDS ! 1)"
    | "t = ''bill_of_lading''" "f = snd (DOC_FIELDS ! 2)" | "t = ''proof_of_delivery''" "f = snd (DOC_FIELDS ! 3)"
  using assms by (auto simp: DOC_FIELDS_def split: if_splits)

lemma link_document_cases:
  obtains "link_document d s = s"
  | "link_document d s = s\<lparr>sh_has_invoice := True, sh_invoice_id := (case sh_invoice_id s of None \<Rightarrow> Some (doc_id d) | x \<Rightarrow> x)\<rparr>"
  | "link_document d s = s\<lparr>sh_has_rate_con := True, sh_rate_con_id := (case sh_rate_con_id s of None \<Rightarrow> Some (doc_id d) | x \<Rightarrow> x)\<rparr>"
  | "link_document d s = s\<lparr>sh_has_bol := True, sh_bol_id := (case sh_bol_id s of None \<Rightarrow> Some (doc_id d) | x \<Rightarrow> x)\<rparr>"
  | "link_document d s = s\<lparr>sh_has_pod := True, sh_pod_id := (case sh_pod_id s of None \<Rightarrow> Some (doc_id d) | x \<Rightarrow> x)\<rparr>"
proof (cases "map_of DOC_FIELDS (doc_doc_type d)")
  case None
  then show ?thesis using that(1) by (simp add: link_document_def)
next
  case (Some f)
  from Some show ?thesis
  proof (cases rule: DOC_FIELDS_cases)
    case 1 with Some show ?thesis
      by (intro that(2)) (auto simp: link_document_def DOC_FIELDS_def split: option.split)
  next
    case 2 with Some show ?thesis
      by (intro that(3)) (auto simp: link_document_def DOC_FIELDS_def split: option.split)
  next
    case 3 with Some show ?thesis
      by (intro that(4)) (auto simp: link_document_def DOC_FIELDS_def split: option.split)
  next
    case 4 with Some show ?thesis
      by (intro that(5)) (auto simp: link_document_def DOC_FIELDS_def split: option.split)
  qed
qed

lemma link_document_extends: "extends_shipment s (link_document d s)"
  by (rule link_document_cases [of d s]) (auto simp: extends_shipment_def no_carrier_def split: option.splits)

lemma link_document_ok: "shipment_ok s \<Longrightarrow> shipment_ok (link_document d s)"
  by (rule link_document_cases [of d s]) (simp_all add: shipment_ok_def)

lemma adopt_carrier_extends: "adopt_carrier e s = Inr t \<Longrightarrow> extends_shipment s t"
  by (auto simp: adopt_carrier_def extends_shipment_def split: if_splits json.splits)

lemma adopt_carrier_ok: "adopt_carrier e s = Inr t \<Longrightarrow> shipment_ok s \<Longrightarrow> shipment_ok t"
  by (auto simp: adopt_carrier_def shipment_ok_def split: if_splits json.splits)

lemma assembled_status_extends: "extends_shipment s (assembled_status s)"
  by (simp add: assembled_status_def extends_shipment_def no_carrier_def)

lemma assembled_status_ok: "shipment_ok s \<Longrightarrow> shipment_ok (assembled_status s)"
  by (simp add: assembled_status_def shipment_ok_def RECONCILIATION_STATUSES_def)

lemma touch_shipment_extends: "extends_shipment s (touch_shipment s db)"
  by (simp add: touch_shipment_def extends_shipment_def no_carrier_def)

lemma touch_shipment_ok [simp]: "shipment_ok (touch_shipment s db) = shipment_ok s"
  by (simp add: touch_shipment_def shipment_ok_def)

lemma attach_extends: "attach_existing_rate_confirmation s db = Inr (t, db') \<Longrightarrow> extends_shipment s t"
  by (auto simp: attach_existing_rate_confirmation_def extends_shipment_def no_carrier_def Let_def
      split: if_splits sum.splits option.splits prod.splits)

lemma attach_ok:
  "attach_existing_rate_confirmation s db = Inr (t, db') \<Longrightarrow> shipment_ok s \<Longrightarrow> shipment_ok t"
  by (auto simp: attach_existing_rate_confirmation_def shipment_ok_def Let_def
      split: if_splits sum.splits option.splits prod.splits)

section \<open>Upsert\<close>

text \<open>Frame: attaching a rate confirmation writes documents only.\<close>

definition same_but_documents :: "database \<Rightarrow> database \<Rightarrow> bool" where
  "same_but_documents db db' \<longleftrightarrow> db'\<lparr>documents := [], doc_seq := 0\<rparr> = db\<lparr>documents := [], doc_seq := 0\<rparr>"

lemma same_but_documents_fields:
  assumes "same_but_documents db db'"
  shows "rate_confirmations db' = rate_confirmations db"
    "shipments db' = shipments db"
    "reconciliation_results db' = reconciliation_results db"
    "shipment_exceptions db' = shipment_exceptions db"
    "exception_events db' = exception_events db"
    "workflow_runs db' = workflow_runs db"
    "review_decisions db' = review_decisions db"
    "audit_logs db' = audit_logs db"
    "notifications db' = notifications db"
    "run_seq db' = run_seq db"
    "audit_seq db' = audit_seq db"
    "notif_seq db' = notif_seq db"
    "uuid4_at db' = uuid4_at db"
    "uuid_pos db' = uuid_pos db"
    "pg_now db' = pg_now db"
proof -
  from assms have eq: "db'\<lparr>documents := [], doc_seq := 0\<rparr> = db\<lparr>documents := [], doc_seq := 0\<rparr>"
    by (simp add: same_but_documents_def)
  show "rate_confirmations db' = rate_confirmations db" using arg_cong [OF eq, of rate_confirmations] by simp
  show "shipments db' = shipments db" using arg_cong [OF eq, of shipments] by simp
  show "reconciliation_results db' = reconciliation_results db" using arg_cong [OF eq, of reconciliation_results] by simp
  show "shipment_exceptions db' = shipment_exceptions db" using arg_cong [OF eq, of shipment_exceptions] by simp
  show "exception_events db' = exception_events db" using arg_cong [OF eq, of exception_events] by simp
  show "workflow_runs db' = workflow_runs db" using arg_cong [OF eq, of workflow_runs] by simp
  show "review_decisions db' = review_decisions db" using arg_cong [OF eq, of review_decisions] by simp
  show "audit_logs db' = audit_logs db" using arg_cong [OF eq, of audit_logs] by simp
  show "notifications db' = notifications db" using arg_cong [OF eq, of notifications] by simp
  show "run_seq db' = run_seq db" using arg_cong [OF eq, of run_seq] by simp
  show "audit_seq db' = audit_seq db" using arg_cong [OF eq, of audit_seq] by simp
  show "notif_seq db' = notif_seq db" using arg_cong [OF eq, of notif_seq] by simp
  show "uuid4_at db' = uuid4_at db" using arg_cong [OF eq, of uuid4_at] by simp
  show "uuid_pos db' = uuid_pos db" using arg_cong [OF eq, of uuid_pos] by simp
  show "pg_now db' = pg_now db" using arg_cong [OF eq, of pg_now] by simp
qed

lemma same_but_documents_refl [simp]: "same_but_documents db db"
  by (simp add: same_but_documents_def)

lemma put_document_frame [simp]: "same_but_documents db (put_document d db') = same_but_documents db db'"
  by (simp add: same_but_documents_def put_document_def)

lemma new_document_frame: "new_document f t st x db = (d, db') \<Longrightarrow> same_but_documents db db'"
  by (auto simp: new_document_def add_document_def same_but_documents_def Let_def)

lemma attach_frame:
  "attach_existing_rate_confirmation s db = Inr (t, db') \<Longrightarrow> same_but_documents db db'"
  by (auto simp: attach_existing_rate_confirmation_def rate_confirmation_document_def Let_def
      dest: new_document_frame split: if_splits sum.splits option.splits prod.splits)

lemma fresh_uuid_not_shipment:
  assumes "shipments_inv db"
  shows "uuid4_at db (uuid_pos db) \<notin> sh_id ` set (shipments db)"
proof
  assume "uuid4_at db (uuid_pos db) \<in> sh_id ` set (shipments db)"
  with assms obtain i where "i < uuid_pos db" "uuid4_at db (uuid_pos db) = uuid4_at db i"
    by (auto simp: shipments_inv_def)
  with assms show False by (auto simp: shipments_inv_def dest: injD)
qed

lemma insert_shipment_inv:
  assumes "shipments_inv db" and "load_number_check n"
  shows "shipments_inv (insert_shipment n db)"
  using assms fresh_uuid_not_shipment [OF assms(1)]
  by (auto simp: insert_shipment_def fresh_uuid_def add_shipment_def shipments_inv_def Let_def
      shipment_ok_def RECONCILIATION_STATUSES_def less_Suc_eq)

lemma insert_shipment_mem:
  "n \<in> sh_load_number ` set (shipments (insert_shipment n db))"
  by (auto simp: insert_shipment_def fresh_uuid_def add_shipment_def Let_def)

lemma insert_shipment_keeps:
  "s \<in> set (shipments db) \<Longrightarrow> s \<in> set (shipments (insert_shipment n db))"
  by (auto simp: insert_shipment_def fresh_uuid_def add_shipment_def Let_def)

lemma insert_shipment_only:
  "s \<in> set (shipments (insert_shipment n db)) \<Longrightarrow> sh_load_number s \<noteq> n \<Longrightarrow> s \<in> set (shipments db)"
  by (auto simp: insert_shipment_def fresh_uuid_def add_shipment_def Let_def split: if_splits)

lemma shipments_inv_put:
  assumes inv: "shipments_inv db" and s: "s \<in> set (shipments db)" and t: "shipment_ok t"
    and ext: "sh_id t = sh_id s" "sh_load_number t = sh_load_number s"
  shows "shipments_inv (put_shipment t db)"
proof -
  have dist: "distinct (map sh_id (shipments db))" using inv by (simp add: shipments_inv_def)
  have loads: "map sh_load_number (set_row sh_id t (shipments db)) = map sh_load_number (shipments db)"
    using s dist ext by (auto simp: set_row_def distinct_map dest: inj_onD)
  have ids: "map sh_id (set_row sh_id t (shipments db)) = map sh_id (shipments db)" by simp
  then have "sh_id ` set (set_row sh_id t (shipments db)) = sh_id ` set (shipments db)"
    by (metis list.set_map)
  moreover have "shipment_ok u" if "u \<in> set (set_row sh_id t (shipments db))" for u
    using that inv t by (auto simp: set_row_mem shipments_inv_def)
  ultimately show ?thesis using inv loads by (simp add: shipments_inv_def put_shipment_def)
qed

lemma put_document_shipments [simp]: "shipments (put_document d db) = shipments db"
  and put_document_uuid [simp]: "uuid4_at (put_document d db) = uuid4_at db" "uuid_pos (put_document d db) = uuid_pos db"
  by (simp_all add: put_document_def)

lemma shipments_inv_frame:
  "same_but_documents db db' \<Longrightarrow> shipments_inv db' = shipments_inv db"
  by (simp add: shipments_inv_def same_but_documents_fields)

text \<open>The steps of an upsert that succeeds, as one elimination rule.\<close>

lemma upsert_shipment_SomeE:
  assumes up: "upsert_shipment lno d e db = Inr (Some s, db')" and inv: "shipments_inv db"
  obtains n s0 s1 s2 db2 where
    "normalize_load_number lno = Inr (Some n)" "s0 \<in> set (shipments (insert_shipment n db))"
    "sh_load_number s0 = n" "adopt_carrier e (link_document d s0) = Inr s1"
    "attach_existing_rate_confirmation s1
       (put_document (d\<lparr>doc_shipment_id := Some (sh_id s0)\<rparr>) (insert_shipment n db)) = Inr (s2, db2)"
    "s = touch_shipment (assembled_status s2) db2" "db' = put_shipment s db2"
proof -
  from up obtain n where n: "normalize_load_number lno = Inr (Some n)"
    by (auto simp: upsert_shipment_def split: sum.splits option.splits)
  let ?db1 = "insert_shipment n db"
  from up n obtain s0 where s0: "scalar_one (filter (\<lambda>s. sh_load_number s = n) (shipments ?db1)) = Inr s0"
    by (auto simp: upsert_shipment_def Let_def split: sum.splits)
  then have "filter (\<lambda>s. sh_load_number s = n) (shipments ?db1) = [s0]"
    by (auto simp: scalar_one_def split: list.splits)
  then have "s0 \<in> set (filter (\<lambda>s. sh_load_number s = n) (shipments ?db1))" by simp
  then have mem: "s0 \<in> set (shipments ?db1)" "sh_load_number s0 = n" by auto
  from up n s0 show thesis
    by (auto simp: upsert_shipment_def Let_def intro: that [OF n mem] split: sum.splits prod.splits)
qed

lemma link_document_slot:
  "doc_doc_type d = ''invoice'' \<Longrightarrow> sh_has_invoice (link_document d s) \<and> sh_invoice_id (link_document d s) \<noteq> None"
  "doc_doc_type d = ''rate_confirmation'' \<Longrightarrow> sh_has_rate_con (link_document d s) \<and> sh_rate_con_id (link_document d s) \<noteq> None"
  "doc_doc_type d = ''bill_of_lading'' \<Longrightarrow> sh_has_bol (link_document d s) \<and> sh_bol_id (link_document d s) \<noteq> None"
  "doc_doc_type d = ''proof_of_delivery'' \<Longrightarrow> sh_has_pod (link_document d s) \<and> sh_pod_id (link_document d s) \<noteq> None"
  by (simp_all add: link_document_def DOC_FIELDS_def)

definition slot_filled :: "string \<Rightarrow> shipment \<Rightarrow> bool" where
  "slot_filled t s \<longleftrightarrow>
     (t = ''invoice'' \<longrightarrow> sh_has_invoice s \<and> sh_invoice_id s \<noteq> None)
   \<and> (t = ''rate_confirmation'' \<longrightarrow> sh_has_rate_con s \<and> sh_rate_con_id s \<noteq> None)
   \<and> (t = ''bill_of_lading'' \<longrightarrow> sh_has_bol s \<and> sh_bol_id s \<noteq> None)
   \<and> (t = ''proof_of_delivery'' \<longrightarrow> sh_has_pod s \<and> sh_pod_id s \<noteq> None)"

lemma slot_filled_link: "slot_filled (doc_doc_type d) (link_document d s)"
  by (simp add: slot_filled_def link_document_slot)

lemma slot_filled_extends: "slot_filled t s \<Longrightarrow> extends_shipment s u \<Longrightarrow> slot_filled t u"
  by (auto simp: slot_filled_def extends_shipment_def)

lemma load_number_unique:
  "shipments_inv db \<Longrightarrow> s \<in> set (shipments db) \<Longrightarrow> t \<in> set (shipments db) \<Longrightarrow>
   sh_load_number s = sh_load_number t \<Longrightarrow> s = t"
  by (auto simp: shipments_inv_def distinct_map dest: inj_onD)

lemma shipment_id_unique:
  "shipments_inv db \<Longrightarrow> s \<in> set (shipments db) \<Longrightarrow> t \<in> set (shipments db) \<Longrightarrow> sh_id s = sh_id t \<Longrightarrow> s = t"
  by (auto simp: shipments_inv_def distinct_map dest: inj_onD)

lemma upsert_shipment_core:
  assumes up: "upsert_shipment lno d e db = Inr (Some s, db')" and inv: "shipments_inv db"
  obtains s0 db1 where
    "s0 \<in> set (shipments db1)" "shipments_inv db1" "db1 = insert_shipment (sh_load_number s) db"
    "normalize_load_number lno = Inr (Some (sh_load_number s))"
    "extends_shipment s0 s" "slot_filled (doc_doc_type d) s" "shipment_ok s"
    "shipments db' = set_row sh_id s (shipments db1)" "uuid4_at db' = uuid4_at db1" "uuid_pos db' = uuid_pos db1"
    "shipments_inv db'"
proof -
  from up inv obtain n s0 s1 s2 db2 where
    n: "normalize_load_number lno = Inr (Some n)" and s0: "s0 \<in> set (shipments (insert_shipment n db))"
    "sh_load_number s0 = n" and s1: "adopt_carrier e (link_document d s0) = Inr s1"
    and s2: "attach_existing_rate_confirmation s1
       (put_document (d\<lparr>doc_shipment_id := Some (sh_id s0)\<rparr>) (insert_shipment n db)) = Inr (s2, db2)"
    and s: "s = touch_shipment (assembled_status s2) db2" and db': "db' = put_shipment s db2"
    by (rule upsert_shipment_SomeE)
  let ?db1 = "insert_shipment n db"
  have inv1: "shipments_inv ?db1"
    using inv normalize_load_number_check [OF n] by (rule insert_shipment_inv)
  have same: "same_but_documents ?db1 db2"
    using attach_frame [OF s2] by (simp add: same_but_documents_def put_document_def)
  have ext_link: "extends_shipment (link_document d s0) s"
    using adopt_carrier_extends [OF s1] attach_extends [OF s2] assembled_status_extends
      touch_shipment_extends s extends_trans by metis
  then have ext: "extends_shipment s0 s" using link_document_extends extends_trans by metis
  then have load: "sh_load_number s = n" and sid: "sh_id s = sh_id s0"
    using s0 by (auto simp: extends_shipment_def)
  have "shipment_ok s0" using inv1 s0 by (simp add: shipments_inv_def)
  then have ok: "shipment_ok s"
    using adopt_carrier_ok [OF s1] attach_ok [OF s2] by (simp add: s link_document_ok assembled_status_ok)
  have "shipments_inv db'"
    unfolding db' using shipments_inv_put [of db2 s0 s] inv1 same s0 ok sid load
    by (simp add: shipments_inv_frame same_but_documents_fields)
  with s0 inv1 n load ext ok same show thesis
    using slot_filled_extends [OF slot_filled_link ext_link]
    by (intro that [of s0 ?db1]) (simp_all add: db' put_shipment_def same_but_documents_fields)
qed

text \<open>C1: a successful upsert keeps the table invariant, returns the stored row of the
  normalised load number with the slot of the document's type filled, only adds to the
  row that was there (no flag, document id or known carrier is lost) and leaves every
  other shipment as it was.\<close>

theorem upsert_shipment_correct:
  assumes "shipments_inv db" and "upsert_shipment lno d e db = Inr (Some s, db')"
  shows "shipments_inv db' \<and> normalize_load_number lno = Inr (Some (sh_load_number s))
    \<and> get_shipment (sh_id s) db' = Some s \<and> slot_filled (doc_doc_type d) s
    \<and> (\<forall>t \<in> set (shipments db). sh_load_number t = sh_load_number s \<longrightarrow> extends_shipment t s)
    \<and> (\<forall>t. sh_load_number t \<noteq> sh_load_number s \<longrightarrow> (t \<in> set (shipments db') \<longleftrightarrow> t \<in> set (shipments db)))"
proof -
  from assms(2,1) obtain s0 db1 where
    s0: "s0 \<in> set (shipments db1)" "extends_shipment s0 s" and inv1: "shipments_inv db1"
    and db1: "db1 = insert_shipment (sh_load_number s) db"
    and n: "normalize_load_number lno = Inr (Some (sh_load_number s))"
    and slot: "slot_filled (doc_doc_type d) s"
    and rows: "shipments db' = set_row sh_id s (shipments db1)" and inv': "shipments_inv db'"
    by (rule upsert_shipment_core)
  have ids: "sh_id s0 = sh_id s" "sh_load_number s0 = sh_load_number s"
    using s0(2) by (auto simp: extends_shipment_def)
  have "s \<in> set (shipments db')" using s0(1) ids by (auto simp: rows set_row_mem intro: rev_image_eqI [of s0])
  then have get: "get_shipment (sh_id s) db' = Some s"
    using inv' by (auto simp: get_shipment_def shipments_inv_def intro: get_row_distinct)
  have old: "extends_shipment t s" if "t \<in> set (shipments db)" "sh_load_number t = sh_load_number s" for t
  proof -
    have "t \<in> set (shipments db1)" using that(1) by (simp add: db1 insert_shipment_keeps)
    then have "t = s0" using inv1 s0(1) that(2) ids by (metis load_number_unique)
    with s0(2) show ?thesis by simp
  qed
  have other: "t \<in> set (shipments db') \<longleftrightarrow> t \<in> set (shipments db)" if "sh_load_number t \<noteq> sh_load_number s" for t
  proof -
    have "sh_id t \<noteq> sh_id s" if "t \<in> set (shipments db1)"
      using that s0(1) ids inv1 \<open>sh_load_number t \<noteq> sh_load_number s\<close> by (metis shipment_id_unique)
    then show ?thesis
      using that insert_shipment_only [of t "sh_load_number s" db] insert_shipment_keeps [of t db]
      by (auto simp: rows set_row_mem db1)
  qed
  from inv' n get slot old other show ?thesis by blast
qed

text \<open>A concrete run: an invoice for load \<open>ld-7\<close> arrives at an empty database.\<close>

definition sample_document :: document where
  "sample_document = fst (new_document ''inv.pdf'' ''invoice'' ''extracted'' None (fresh_database 0))"

definition sample_documents_db :: database where
  "sample_documents_db = snd (new_document ''inv.pdf'' ''invoice'' ''extracted'' None (fresh_database 0))"

lemma sample_documents_inv: "shipments_inv sample_documents_db"
  by (simp add: shipments_inv_def sample_documents_db_def new_document_def add_document_def fresh_database_def
      inj_replicate Let_def)

theorem upsert_shipment_correct_witness:
  "\<exists>s db'. upsert_shipment (Some '' ld-7'') sample_document [] sample_documents_db = Inr (Some s, db')
     \<and> shipments_inv db' \<and> sh_load_number s = ''LD-7'' \<and> get_shipment (sh_id s) db' = Some s
     \<and> slot_filled ''invoice'' s"
proof -
  have "case upsert_shipment (Some '' ld-7'') sample_document [] sample_documents_db of
      Inr (Some s, db') \<Rightarrow> sh_load_number s = ''LD-7'' | _ \<Rightarrow> False"
    by code_simp
  then obtain s db' where run: "upsert_shipment (Some '' ld-7'') sample_document [] sample_documents_db = Inr (Some s, db')"
      and load: "sh_load_number s = ''LD-7''"
    by (auto split: sum.splits prod.splits option.splits)
  have "doc_doc_type sample_document = ''invoice''" by code_simp
  with upsert_shipment_correct [OF sample_documents_inv run] run load show ?thesis by auto
qed

end
