(* ===== verification/Missing_Document_SLA.thy ===== *)
theory Missing_Document_SLA
  imports Database
begin

text \<open>
  The missing-document policy and its exception record
  (\<open>app/services/missing_document_sla.py\<close>, first half): which required documents a
  shipment lacks, whether the grace period is over, and the \<open>ShipmentException\<close> row with
  its append-only event log that follows the policy. The invariant \<open>exceptions_inv\<close> is
  event sourcing: the events of an exception are numbered 1, 2, ... without gaps, each
  starts from the state the one before left, and the last one leaves the current row.
\<close>

definition MISSING_DOCUMENT_EXCEPTION_KIND :: string where
  "MISSING_DOCUMENT_EXCEPTION_KIND = ''missing_required_documents''"

definition REQUIRED_DOCUMENTS :: "(string \<times> (shipment \<Rightarrow> bool) \<times> string) list" where
  "REQUIRED_DOCUMENTS =
    [(''invoice'', sh_has_invoice, ''missing_required_invoice_sla_exceeded''),
     (''rate_con'', sh_has_rate_con, ''missing_required_rate_con_sla_exceeded''),
     (''bol'', sh_has_bol, ''missing_required_bol_sla_exceeded''),
     (''pod'', sh_has_pod, ''missing_required_pod_sla_exceeded'')]"

definition SLA_REASON_CODES :: "string list" where
  "SLA_REASON_CODES = map (\<lambda>(_, _, reason). reason) REQUIRED_DOCUMENTS"

record policy_result =
  pol_state :: string
  pol_deadline_at :: datetime
  pol_missing_docs :: "string list"
  pol_reason_codes :: "string list"
  pol_checks :: "recon_check list"

definition policy_check ::
  "shipment \<Rightarrow> bool \<Rightarrow> datetime \<Rightarrow> string \<times> (shipment \<Rightarrow> bool) \<times> string \<Rightarrow> recon_check" where
  "policy_check s overdue deadline entry = (case entry of (doc_type, present, overdue_reason) \<Rightarrow>
     if present s then
       \<lparr>check_name = ''required_'' @ doc_type @ ''_present'', check_outcome = Passed,
        check_details = ''Required '' @ doc_type @ '' is present'', check_reason_code = None\<rparr>
     else if overdue then
       \<lparr>check_name = ''required_'' @ doc_type @ ''_present'', check_outcome = Failed,
        check_details = ''Required '' @ doc_type @ '' was not received by '' @ isoformat deadline,
        check_reason_code = Some overdue_reason\<rparr>
     else
       \<lparr>check_name = ''required_'' @ doc_type @ ''_present'', check_outcome = NotEvaluated,
        check_details = ''Required '' @ doc_type @ '' is pending until '' @ isoformat deadline,
        check_reason_code = None\<rparr>)"

definition evaluate_missing_document_policy :: "shipment \<Rightarrow> datetime \<Rightarrow> timedelta \<Rightarrow> policy_result" where
  "evaluate_missing_document_policy s now sla =
     (let deadline = sh_created_at s + sla;
          missing = map fst (filter (\<lambda>(_, present, _). \<not> present s) REQUIRED_DOCUMENTS);
          overdue = (missing \<noteq> [] \<and> deadline \<le> now) in
      \<lparr>pol_state = (if overdue then ''overdue'' else if missing \<noteq> [] then ''within_grace'' else ''complete''),
       pol_deadline_at = deadline,
       pol_missing_docs = missing,
       pol_reason_codes =
         (if overdue then map (\<lambda>(_, _, r). r) (filter (\<lambda>(_, present, _). \<not> present s) REQUIRED_DOCUMENTS)
          else []),
       pol_checks = map (policy_check s overdue deadline) REQUIRED_DOCUMENTS\<rparr>)"

section \<open>The exception record\<close>

definition exception_state_of :: "string \<Rightarrow> string list \<Rightarrow> string list \<Rightarrow> datetime \<Rightarrow> exception_state" where
  "exception_state_of status missing reasons deadline =
     \<lparr>es_status = status, es_missing_docs = missing, es_reason_codes = reasons,
      es_deadline_at = isoformat deadline\<rparr>"

definition current_state :: "shipment_exception \<Rightarrow> exception_state" where
  "current_state e = exception_state_of (ex_status e) (ex_missing_docs e) (ex_reason_codes e) (ex_deadline_at e)"

definition find_exception :: "uuid \<Rightarrow> database \<Rightarrow> shipment_exception option" where
  "find_exception sid db = List.find
     (\<lambda>e. ex_shipment_id e = sid \<and> ex_kind e = MISSING_DOCUMENT_EXCEPTION_KIND) (shipment_exceptions db)"

definition new_event ::
  "uuid \<Rightarrow> shipment_exception \<Rightarrow> uuid \<Rightarrow> string \<Rightarrow> exception_state option \<Rightarrow> datetime \<Rightarrow> exception_event" where
  "new_event eid e rid transition before now =
     \<lparr>ev_id = eid, ev_exception_id = ex_id e, ev_reconciliation_result_id = Some rid,
      ev_version = ex_version e, ev_transition = transition, ev_before_state = before,
      ev_after_state = current_state e, ev_occurred_at = now,
      ev_notification_status = ''pending'', ev_notification_attempt_count = 0,
      ev_notification_last_error = None, ev_notification_sent_at = None\<rparr>"

definition open_exception ::
  "shipment \<Rightarrow> policy_result \<Rightarrow> uuid \<Rightarrow> datetime \<Rightarrow> database \<Rightarrow> exception_event \<times> database" where
  "open_exception s policy rid now db =
     (let (xid, db) = fresh_uuid db;
          x = \<lparr>ex_id = xid, ex_shipment_id = sh_id s, ex_kind = MISSING_DOCUMENT_EXCEPTION_KIND,
               ex_status = ''active'', ex_missing_docs = pol_missing_docs policy,
               ex_reason_codes = pol_reason_codes policy, ex_deadline_at = pol_deadline_at policy,
               ex_version = 1, ex_opened_at = now, ex_resolved_at = None, ex_updated_at = pg_now db\<rparr>;
          (vid, db) = fresh_uuid db;
          ev = new_event vid x rid ''opened'' None now in
      (ev, db\<lparr>shipment_exceptions := shipment_exceptions db @ [x],
              exception_events := exception_events db @ [ev]\<rparr>))"

definition exception_unchanged :: "shipment_exception \<Rightarrow> policy_result \<Rightarrow> bool" where
  "exception_unchanged x policy =
     (let active = (pol_state policy = ''overdue'') in
      ex_status x = (if active then ''active'' else ''resolved'')
      \<and> ex_missing_docs x = (if active then pol_missing_docs policy else [])
      \<and> ex_reason_codes x = (if active then pol_reason_codes policy else [])
      \<and> ex_deadline_at x = pol_deadline_at policy)"

definition revised_exception :: "shipment_exception \<Rightarrow> policy_result \<Rightarrow> datetime \<Rightarrow> datetime \<Rightarrow> string \<times> shipment_exception" where
  "revised_exception x policy now updated =
     (let active = (pol_state policy = ''overdue'');
          transition = (if \<not> active then ''resolved''
                        else if ex_status x = ''resolved'' then ''opened'' else ''changed'') in
      (transition, x\<lparr>ex_version := Suc (ex_version x),
                     ex_status := (if active then ''active'' else ''resolved''),
                     ex_missing_docs := (if active then pol_missing_docs policy else []),
                     ex_reason_codes := (if active then pol_reason_codes policy else []),
                     ex_deadline_at := pol_deadline_at policy,
                     ex_resolved_at := (if active then None else Some now),
                     ex_opened_at := (if transition = ''opened'' then now else ex_opened_at x),
                     ex_updated_at := updated\<rparr>))"

definition revise_exception ::
  "shipment_exception \<Rightarrow> policy_result \<Rightarrow> uuid \<Rightarrow> datetime \<Rightarrow> database \<Rightarrow> exception_event \<times> database" where
  "revise_exception x policy rid now db =
     (let (transition, x') = revised_exception x policy now (pg_now db);
          (vid, db) = fresh_uuid db;
          ev = new_event vid x' rid transition (Some (current_state x)) now in
      (ev, db\<lparr>shipment_exceptions := set_row ex_id x' (shipment_exceptions db),
              exception_events := exception_events db @ [ev]\<rparr>))"

definition sync_missing_document_exception ::
  "shipment \<Rightarrow> policy_result \<Rightarrow> uuid \<Rightarrow> datetime \<Rightarrow> database \<Rightarrow> exception_event option \<times> database" where
  "sync_missing_document_exception s policy rid now db =
     (case find_exception (sh_id s) db of
        None \<Rightarrow>
          if pol_state policy \<noteq> ''overdue'' then (None, db)
          else (let (ev, db) = open_exception s policy rid now db in (Some ev, db))
      | Some x \<Rightarrow>
          if exception_unchanged x policy then (None, db)
          else (let (ev, db) = revise_exception x policy rid now db in (Some ev, db)))"

section \<open>The policy\<close>

definition all_documents_present :: "shipment \<Rightarrow> bool" where
  "all_documents_present s \<longleftrightarrow> sh_has_invoice s \<and> sh_has_rate_con s \<and> sh_has_bol s \<and> sh_has_pod s"

lemma policy_missing_Nil:
  "pol_missing_docs (evaluate_missing_document_policy s now sla) = [] \<longleftrightarrow> all_documents_present s"
  by (auto simp: evaluate_missing_document_policy_def Let_def REQUIRED_DOCUMENTS_def all_documents_present_def)

lemma policy_overdue_iff:
  "pol_state (evaluate_missing_document_policy s now sla) = ''overdue'' \<longleftrightarrow>
     \<not> all_documents_present s \<and> sh_created_at s + sla \<le> now"
  by (auto simp: evaluate_missing_document_policy_def Let_def REQUIRED_DOCUMENTS_def all_documents_present_def)

lemma policy_complete_iff:
  "pol_state (evaluate_missing_document_policy s now sla) = ''complete'' \<longleftrightarrow> all_documents_present s"
  by (auto simp: evaluate_missing_document_policy_def Let_def REQUIRED_DOCUMENTS_def all_documents_present_def)

lemma policy_within_grace_iff:
  "pol_state (evaluate_missing_document_policy s now sla) = ''within_grace'' \<longleftrightarrow>
     \<not> all_documents_present s \<and> now < sh_created_at s + sla"
  by (auto simp: evaluate_missing_document_policy_def Let_def REQUIRED_DOCUMENTS_def all_documents_present_def)

lemma policy_deadline [simp]:
  "pol_deadline_at (evaluate_missing_document_policy s now sla) = sh_created_at s + sla"
  by (simp add: evaluate_missing_document_policy_def Let_def)

lemma policy_reasons_not_overdue:
  "pol_state (evaluate_missing_document_policy s now sla) \<noteq> ''overdue'' \<Longrightarrow>
     pol_reason_codes (evaluate_missing_document_policy s now sla) = []"
  by (auto simp: evaluate_missing_document_policy_def Let_def split: if_splits)

lemma policy_reasons_Nil_iff:
  "pol_reason_codes (evaluate_missing_document_policy s now sla) = [] \<longleftrightarrow>
     pol_state (evaluate_missing_document_policy s now sla) \<noteq> ''overdue''"
  by (auto simp: evaluate_missing_document_policy_def Let_def REQUIRED_DOCUMENTS_def)

lemma policy_reasons_sla:
  "set (pol_reason_codes (evaluate_missing_document_policy s now sla)) \<subseteq> set SLA_REASON_CODES"
  by (auto simp: evaluate_missing_document_policy_def Let_def SLA_REASON_CODES_def REQUIRED_DOCUMENTS_def)

section \<open>The event log\<close>

definition transition_ok :: "exception_event \<Rightarrow> bool" where
  "transition_ok e \<longleftrightarrow>
     (ev_transition e = ''opened'' \<and> es_status (ev_after_state e) = ''active''
        \<and> (case ev_before_state e of None \<Rightarrow> True | Some b \<Rightarrow> es_status b = ''resolved''))
   \<or> (ev_transition e = ''changed'' \<and> es_status (ev_after_state e) = ''active''
        \<and> (case ev_before_state e of None \<Rightarrow> False | Some b \<Rightarrow> es_status b = ''active''))
   \<or> (ev_transition e = ''resolved'' \<and> es_status (ev_after_state e) = ''resolved''
        \<and> es_missing_docs (ev_after_state e) = [] \<and> es_reason_codes (ev_after_state e) = []
        \<and> ev_before_state e \<noteq> None)"

fun chain_ok :: "exception_state option \<Rightarrow> nat \<Rightarrow> exception_event list \<Rightarrow> bool" where
  "chain_ok prev n [] \<longleftrightarrow> True"
| "chain_ok prev n (e # es) \<longleftrightarrow> ev_version e = Suc n \<and> ev_before_state e = prev \<and> transition_ok e
     \<and> chain_ok (Some (ev_after_state e)) (Suc n) es"

definition events_of :: "uuid \<Rightarrow> database \<Rightarrow> exception_event list" where
  "events_of xid db = filter (\<lambda>e. ev_exception_id e = xid) (exception_events db)"

definition exception_ok :: "shipment_exception \<Rightarrow> exception_event list \<Rightarrow> bool" where
  "exception_ok x evs \<longleftrightarrow> evs \<noteq> [] \<and> chain_ok None 0 evs \<and> length evs = ex_version x
     \<and> ev_after_state (last evs) = current_state x
     \<and> ex_kind x = MISSING_DOCUMENT_EXCEPTION_KIND
     \<and> (ex_status x = ''active'' \<and> ex_resolved_at x = None
        \<or> ex_status x = ''resolved'' \<and> ex_resolved_at x \<noteq> None)"

definition exceptions_inv :: "database \<Rightarrow> bool" where
  "exceptions_inv db \<longleftrightarrow>
     distinct (map ex_id (shipment_exceptions db))
   \<and> distinct (map ex_shipment_id (shipment_exceptions db))
   \<and> (\<forall>x \<in> set (shipment_exceptions db). exception_ok x (events_of (ex_id x) db))
   \<and> (\<forall>e \<in> set (exception_events db). ev_exception_id e \<in> ex_id ` set (shipment_exceptions db))
   \<and> inj (uuid4_at db)
   \<and> ex_id ` set (shipment_exceptions db) \<subseteq> uuid4_at db ` {..< uuid_pos db}"

lemma chain_ok_append:
  "chain_ok prev n (es @ fs) \<longleftrightarrow> chain_ok prev n es \<and>
     chain_ok (if es = [] then prev else Some (ev_after_state (last es))) (n + length es) fs"
  by (induction es arbitrary: prev n) auto

lemma exception_ok_snoc:
  assumes "exception_ok x evs" and "transition_ok e"
    and "ev_version e = Suc (ex_version x)" and "ev_before_state e = Some (current_state x)"
    and "ev_after_state e = current_state y" and "ex_version y = Suc (ex_version x)"
    and "ex_kind y = ex_kind x"
    and "ex_status y = ''active'' \<and> ex_resolved_at y = None
         \<or> ex_status y = ''resolved'' \<and> ex_resolved_at y \<noteq> None"
  shows "exception_ok y (evs @ [e])"
  using assms by (auto simp: exception_ok_def chain_ok_append)

lemma find_exception_Some:
  "find_exception sid db = Some x \<Longrightarrow> x \<in> set (shipment_exceptions db) \<and> ex_shipment_id x = sid
     \<and> ex_kind x = MISSING_DOCUMENT_EXCEPTION_KIND"
  by (auto simp: find_exception_def find_Some_iff)

lemma find_exception_None:
  assumes "exceptions_inv db"
  shows "find_exception sid db = None \<longleftrightarrow> sid \<notin> ex_shipment_id ` set (shipment_exceptions db)"
  using assms by (auto simp: find_exception_def find_None_iff exceptions_inv_def exception_ok_def)

lemma find_exception_eq:
  assumes "exceptions_inv db" and "x \<in> set (shipment_exceptions db)"
  shows "find_exception (ex_shipment_id x) db = Some x"
proof (cases "find_exception (ex_shipment_id x) db")
  case None
  with assms show ?thesis by (auto simp: find_exception_None)
next
  case (Some y)
  then have "y \<in> set (shipment_exceptions db)" "ex_shipment_id y = ex_shipment_id x"
    by (auto dest: find_exception_Some)
  with assms have "y = x"
    by (auto simp: exceptions_inv_def distinct_map dest: inj_onD)
  with Some show ?thesis by simp
qed

lemma revised_exception_simps [simp]:
  "ex_id (snd (revised_exception x p now u)) = ex_id x"
  "ex_shipment_id (snd (revised_exception x p now u)) = ex_shipment_id x"
  "ex_kind (snd (revised_exception x p now u)) = ex_kind x"
  "ex_version (snd (revised_exception x p now u)) = Suc (ex_version x)"
  by (simp_all add: revised_exception_def Let_def)

lemma revised_exception_unchanged: "exception_unchanged (snd (revised_exception x p now u)) p"
  by (simp add: revised_exception_def exception_unchanged_def Let_def)

lemma revised_transition_ok:
  assumes "exception_ok x evs" and "revised_exception x p now u = (t, y)"
  shows "transition_ok (new_event vid y rid t (Some (current_state x)) now)"
proof -
  from assms(1) have st: "ex_status x = ''active'' \<or> ex_status x = ''resolved''"
    by (auto simp: exception_ok_def)
  from assms(2) have "t = fst (revised_exception x p now u)" "y = snd (revised_exception x p now u)"
    by simp_all
  with st show ?thesis
    by (cases "pol_state p = ''overdue''")
      (elim disjE; simp add: revised_exception_def Let_def transition_ok_def new_event_def
        current_state_def exception_state_of_def)+
qed

lemma revise_exceptions_inv:
  assumes inv: "exceptions_inv db" and x: "x \<in> set (shipment_exceptions db)"
  shows "exceptions_inv (snd (revise_exception x p rid now db))"
proof -
  obtain t y where ry: "revised_exception x p now (pg_now db) = (t, y)" by fastforce
  then have y: "y = snd (revised_exception x p now (pg_now db))" by simp
  let ?vid = "uuid4_at db (uuid_pos db)"
  let ?ev = "new_event ?vid y rid t (Some (current_state x)) now"
  let ?db' = "snd (revise_exception x p rid now db)"
  have db': "shipment_exceptions ?db' = set_row ex_id y (shipment_exceptions db)"
      "exception_events ?db' = exception_events db @ [?ev]"
      "uuid4_at ?db' = uuid4_at db" "uuid_pos ?db' = Suc (uuid_pos db)"
    by (simp_all add: revise_exception_def ry fresh_uuid_def Let_def)
  have ids: "ex_id y = ex_id x" "ex_shipment_id y = ex_shipment_id x" "ex_kind y = ex_kind x"
      "ex_version y = Suc (ex_version x)"
    by (simp_all add: y)
  have dist: "distinct (map ex_id (shipment_exceptions db))"
    using inv by (simp add: exceptions_inv_def)
  have ships: "map ex_shipment_id (set_row ex_id y (shipment_exceptions db)) = map ex_shipment_id (shipment_exceptions db)"
    using x dist ids by (auto simp: set_row_def distinct_map dest: inj_onD)
  have idset: "ex_id ` set (set_row ex_id y (shipment_exceptions db)) = ex_id ` set (shipment_exceptions db)"
    by (metis list.set_map map_key_set_row)
  have okx: "exception_ok x (events_of (ex_id x) db)" using inv x by (simp add: exceptions_inv_def)
  have yshape: "ex_status y = ''active'' \<and> ex_resolved_at y = None
      \<or> ex_status y = ''resolved'' \<and> ex_resolved_at y \<noteq> None"
    by (auto simp: y revised_exception_def Let_def)
  have oky: "exception_ok y (events_of (ex_id y) db @ [?ev])"
    using exception_ok_snoc [OF okx revised_transition_ok [OF okx ry, of ?vid rid], of y] ids yshape
    by (simp add: new_event_def)
  have "exception_ok z (events_of (ex_id z) ?db')" if z: "z \<in> set (shipment_exceptions ?db')" for z
  proof (cases "ex_id z = ex_id y")
    case True
    with z have "z = y" by (auto simp: db' set_row_mem)
    with oky show ?thesis by (simp add: events_of_def db' new_event_def)
  next
    case False
    with z have "z \<in> set (shipment_exceptions db)" by (auto simp: db' set_row_mem)
    with inv False show ?thesis by (auto simp: exceptions_inv_def events_of_def db' new_event_def)
  qed
  moreover have "ev_exception_id e \<in> ex_id ` set (shipment_exceptions ?db')"
    if "e \<in> set (exception_events ?db')" for e
    using that inv x ids by (auto simp: db' idset exceptions_inv_def new_event_def)
  moreover have "ex_id ` set (shipment_exceptions ?db') \<subseteq> uuid4_at ?db' ` {..< uuid_pos ?db'}"
    using inv by (auto simp: db' idset exceptions_inv_def less_Suc_eq)
  ultimately show ?thesis
    using inv unfolding exceptions_inv_def by (simp add: db' ships)
qed

lemma fresh_uuid_unused:
  assumes "exceptions_inv db"
  shows "uuid4_at db (uuid_pos db) \<notin> ex_id ` set (shipment_exceptions db)"
proof
  assume "uuid4_at db (uuid_pos db) \<in> ex_id ` set (shipment_exceptions db)"
  with assms obtain i where "i < uuid_pos db" "uuid4_at db (uuid_pos db) = uuid4_at db i"
    by (auto simp: exceptions_inv_def)
  with assms show False by (auto simp: exceptions_inv_def dest: injD)
qed

lemma open_exceptions_inv:
  assumes inv: "exceptions_inv db" and none: "find_exception (sh_id s) db = None"
  shows "exceptions_inv (snd (open_exception s p rid now db))"
proof -
  let ?xid = "uuid4_at db (uuid_pos db)"
  let ?db' = "snd (open_exception s p rid now db)"
  obtain x ev where db': "shipment_exceptions ?db' = shipment_exceptions db @ [x]"
      "exception_events ?db' = exception_events db @ [ev]"
      "uuid4_at ?db' = uuid4_at db" "uuid_pos ?db' = Suc (Suc (uuid_pos db))"
    and x: "ex_id x = ?xid" "ex_shipment_id x = sh_id s" "ex_status x = ''active''" "ex_resolved_at x = None"
      "ex_kind x = MISSING_DOCUMENT_EXCEPTION_KIND" "ex_version x = 1"
    and ev: "ev_exception_id ev = ?xid" "ev_version ev = 1" "ev_transition ev = ''opened''"
      "ev_before_state ev = None" "ev_after_state ev = current_state x"
    by (auto simp: open_exception_def fresh_uuid_def new_event_def Let_def)
  have new: "?xid \<notin> ex_id ` set (shipment_exceptions db)" using inv by (rule fresh_uuid_unused)
  have "sh_id s \<notin> ex_shipment_id ` set (shipment_exceptions db)"
    using inv none by (simp add: find_exception_None)
  moreover have none_ev: "events_of ?xid db = []"
    unfolding events_of_def filter_empty_conv using inv new by (metis exceptions_inv_def)
  moreover have "exception_ok x [ev]"
    using x ev by (simp add: exception_ok_def transition_ok_def current_state_def exception_state_of_def)
  moreover have "events_of (ex_id z) ?db' = events_of (ex_id z) db" if "z \<in> set (shipment_exceptions db)" for z
    using that new by (auto simp: events_of_def db' ev)
  moreover have "events_of ?xid ?db' = events_of ?xid db @ [ev]"
    by (simp add: events_of_def db' ev)
  ultimately show ?thesis
    using inv new x ev
    by (simp add: exceptions_inv_def db' lessThan_Suc subset_insertI2)
qed

lemma sync_unfold:
  "snd (sync_missing_document_exception s p rid now db) =
     (case find_exception (sh_id s) db of
        None \<Rightarrow> if pol_state p \<noteq> ''overdue'' then db else snd (open_exception s p rid now db)
      | Some x \<Rightarrow> if exception_unchanged x p then db else snd (revise_exception x p rid now db))"
  by (simp add: sync_missing_document_exception_def split: option.split prod.split)

lemma sync_exceptions_inv:
  "exceptions_inv db \<Longrightarrow> exceptions_inv (snd (sync_missing_document_exception s p rid now db))"
  by (auto simp: sync_unfold split: option.split
      intro: open_exceptions_inv revise_exceptions_inv dest: find_exception_Some)

text \<open>What a sync leaves behind: the row mirrors the policy, and a second sync under the
  same policy changes nothing and logs nothing.\<close>

lemma find_exception_after_open:
  "find_exception (sh_id s) db = None \<Longrightarrow>
   \<exists>x. find_exception (sh_id s) (snd (open_exception s p rid now db)) = Some x
       \<and> (pol_state p = ''overdue'' \<longrightarrow> exception_unchanged x p)"
  by (auto simp: find_exception_def open_exception_def fresh_uuid_def Let_def find_append'
      exception_unchanged_def)

lemma find_exception_after_revise:
  assumes "exceptions_inv db" and "find_exception sid db = Some x"
  shows "find_exception sid (snd (revise_exception x p rid now db)) =
           Some (snd (revised_exception x p now (pg_now db)))"
proof -
  let ?y = "snd (revised_exception x p now (pg_now db))"
  let ?db' = "snd (revise_exception x p rid now db)"
  have x: "x \<in> set (shipment_exceptions db)" "ex_shipment_id x = sid"
    using assms(2) by (auto dest: find_exception_Some)
  have "shipment_exceptions ?db' = set_row ex_id ?y (shipment_exceptions db)"
    by (simp add: revise_exception_def fresh_uuid_def Let_def split: prod.splits)
  then have "?y \<in> set (shipment_exceptions ?db')" using x by (simp add: set_row_mem)
  moreover have "exceptions_inv ?db'" using assms(1) x(1) by (rule revise_exceptions_inv)
  ultimately show ?thesis using find_exception_eq [of ?db' ?y] x(2) by simp
qed

lemma sync_mirrors_policy:
  assumes "exceptions_inv db"
  shows "case find_exception (sh_id s) (snd (sync_missing_document_exception s p rid now db)) of
           None \<Rightarrow> pol_state p \<noteq> ''overdue''
         | Some x \<Rightarrow> exception_unchanged x p"
proof (cases "find_exception (sh_id s) db")
  case None
  then show ?thesis
    using find_exception_after_open [OF None, of p rid now]
    by (auto simp: sync_unfold)
next
  case (Some x)
  then show ?thesis
    using find_exception_after_revise [OF assms Some, of p rid now] revised_exception_unchanged
    by (auto simp: sync_unfold)
qed

lemma sync_stable:
  assumes "case find_exception (sh_id s) db of None \<Rightarrow> pol_state p \<noteq> ''overdue'' | Some x \<Rightarrow> exception_unchanged x p"
  shows "sync_missing_document_exception s p rid now db = (None, db)"
  using assms by (auto simp: sync_missing_document_exception_def split: option.splits)

text \<open>Frame: a sync writes the exception tables and consumes identifiers, nothing else.\<close>

lemma open_exception_frame [simp]:
  "documents (snd (open_exception s p rid now db)) = documents db"
  "rate_confirmations (snd (open_exception s p rid now db)) = rate_confirmations db"
  "shipments (snd (open_exception s p rid now db)) = shipments db"
  "reconciliation_results (snd (open_exception s p rid now db)) = reconciliation_results db"
  "workflow_runs (snd (open_exception s p rid now db)) = workflow_runs db"
  "review_decisions (snd (open_exception s p rid now db)) = review_decisions db"
  "audit_logs (snd (open_exception s p rid now db)) = audit_logs db"
  "notifications (snd (open_exception s p rid now db)) = notifications db"
  "doc_seq (snd (open_exception s p rid now db)) = doc_seq db"
  "run_seq (snd (open_exception s p rid now db)) = run_seq db"
  "audit_seq (snd (open_exception s p rid now db)) = audit_seq db"
  "notif_seq (snd (open_exception s p rid now db)) = notif_seq db"
  "uuid4_at (snd (open_exception s p rid now db)) = uuid4_at db"
  "pg_now (snd (open_exception s p rid now db)) = pg_now db"
  by (simp_all add: open_exception_def fresh_uuid_def Let_def)

lemma revise_exception_frame [simp]:
  "documents (snd (revise_exception x p rid now db)) = documents db"
  "rate_confirmations (snd (revise_exception x p rid now db)) = rate_confirmations db"
  "shipments (snd (revise_exception x p rid now db)) = shipments db"
  "reconciliation_results (snd (revise_exception x p rid now db)) = reconciliation_results db"
  "workflow_runs (snd (revise_exception x p rid now db)) = workflow_runs db"
  "review_decisions (snd (revise_exception x p rid now db)) = review_decisions db"
  "audit_logs (snd (revise_exception x p rid now db)) = audit_logs db"
  "notifications (snd (revise_exception x p rid now db)) = notifications db"
  "doc_seq (snd (revise_exception x p rid now db)) = doc_seq db"
  "run_seq (snd (revise_exception x p rid now db)) = run_seq db"
  "audit_seq (snd (revise_exception x p rid now db)) = audit_seq db"
  "notif_seq (snd (revise_exception x p rid now db)) = notif_seq db"
  "uuid4_at (snd (revise_exception x p rid now db)) = uuid4_at db"
  "pg_now (snd (revise_exception x p rid now db)) = pg_now db"
  by (simp_all add: revise_exception_def fresh_uuid_def Let_def split: prod.split)

lemma sync_frame [simp]:
  "documents (snd (sync_missing_document_exception s p rid now db)) = documents db"
  "rate_confirmations (snd (sync_missing_document_exception s p rid now db)) = rate_confirmations db"
  "shipments (snd (sync_missing_document_exception s p rid now db)) = shipments db"
  "reconciliation_results (snd (sync_missing_document_exception s p rid now db)) = reconciliation_results db"
  "workflow_runs (snd (sync_missing_document_exception s p rid now db)) = workflow_runs db"
  "review_decisions (snd (sync_missing_document_exception s p rid now db)) = review_decisions db"
  "audit_logs (snd (sync_missing_document_exception s p rid now db)) = audit_logs db"
  "notifications (snd (sync_missing_document_exception s p rid now db)) = notifications db"
  "doc_seq (snd (sync_missing_document_exception s p rid now db)) = doc_seq db"
  "run_seq (snd (sync_missing_document_exception s p rid now db)) = run_seq db"
  "audit_seq (snd (sync_missing_document_exception s p rid now db)) = audit_seq db"
  "notif_seq (snd (sync_missing_document_exception s p rid now db)) = notif_seq db"
  "uuid4_at (snd (sync_missing_document_exception s p rid now db)) = uuid4_at db"
  "pg_now (snd (sync_missing_document_exception s p rid now db)) = pg_now db"
  by (simp_all add: sync_unfold split: option.split)

lemma find_set_row_other:
  assumes "\<not> P y" and "\<And>z. z \<in> set t \<Longrightarrow> key z = key y \<Longrightarrow> \<not> P z"
  shows "List.find P (set_row key y t) = List.find P t"
  using assms by (induction t) (auto simp: set_row_def)

lemma sync_other_exception:
  assumes inv: "exceptions_inv db" and i: "i \<noteq> sh_id s"
  shows "find_exception i (snd (sync_missing_document_exception s p rid now db)) = find_exception i db"
proof (cases "find_exception (sh_id s) db")
  case None
  with i show ?thesis
    by (auto simp: sync_unfold find_exception_def open_exception_def fresh_uuid_def Let_def find_append'
        split: option.split)
next
  case (Some x)
  let ?y = "snd (revised_exception x p now (pg_now db))"
  from Some have x: "x \<in> set (shipment_exceptions db)" "ex_shipment_id x = sh_id s"
    by (auto dest: find_exception_Some)
  have rows: "shipment_exceptions (snd (revise_exception x p rid now db)) = set_row ex_id ?y (shipment_exceptions db)"
    by (simp add: revise_exception_def fresh_uuid_def Let_def split: prod.splits)
  have "z = x" if "z \<in> set (shipment_exceptions db)" "ex_id z = ex_id x" for z
    using that x(1) inv by (auto simp: exceptions_inv_def distinct_map dest: inj_onD)
  then have "find_exception i (snd (revise_exception x p rid now db)) = find_exception i db"
    unfolding find_exception_def rows using x i by (intro find_set_row_other) auto
  with Some show ?thesis by (simp add: sync_unfold)
qed

end
