(* ===== verification/Reconciliation.thy ===== *)
theory Reconciliation
  imports Shipments Missing_Document_SLA
begin

text \<open>
  Reconciliation of one shipment (\<open>app/services/reconciliation.py\<close>): the amount, carrier,
  pickup-date and delivery checks over whatever documents are present, the missing-document
  policy, the resulting status, the stored \<open>ReconciliationResult\<close> (one per workflow run or
  evaluation key) and the exception record that follows the policy. \<open>evaluate_shipment\<close> is
  the pure part (the checks and reasons), \<open>reconcile_shipment\<close> the whole transaction.
\<close>

definition AMOUNT_TOLERANCE :: pyfloat where
  "AMOUNT_TOLERANCE = Fin (3602879701896397 / 72057594037927936)"

definition normalize_carrier :: "json \<Rightarrow> string" where
  "normalize_carrier v = py_join '' '' (py_split (py_upper (py_strip (py_str (py_or v (JStr [])))))) "

definition parse_date :: "json \<Rightarrow> date option" where
  "parse_date v = (if \<not> truthy v then None else fromisoformat_date (py_str v))"

text \<open>\<open>except (TypeError, ValueError)\<close>.\<close>

fun skips_value :: "py_error \<Rightarrow> bool" where
  "skips_value (TypeError _) = True"
| "skips_value (ValueError _) = True"
| "skips_value _ = False"

fun amount_from :: "jdict \<Rightarrow> string list \<Rightarrow> pyfloat option result" where
  "amount_from extraction [] = Inr None"
| "amount_from extraction (k # ks) =
     (if dget extraction k = JNull then amount_from extraction ks
      else (case float_of_json (dget extraction k) of
              Inr f \<Rightarrow> Inr (Some f)
            | Inl e \<Rightarrow> if skips_value e then amount_from extraction ks else Inl e))"

declare amount_from.simps(2) [simp del]

text \<open>\<open>_doc_extraction\<close>; the callers' \<open>extraction or {}\<close> is folded in: an absent document
  reads as an empty dict.\<close>

definition doc_extraction :: "document option \<Rightarrow> jdict" where
  "doc_extraction d = (case d of None \<Rightarrow> []
     | Some d \<Rightarrow> (case doc_extracted_data d of None \<Rightarrow> [] | Some e \<Rightarrow> e))"

definition shipment_document :: "nat option \<Rightarrow> database \<Rightarrow> document option" where
  "shipment_document i db = (case i of None \<Rightarrow> None | Some i \<Rightarrow> if i = 0 then None else get_document i db)"

text \<open>\<open>_check\<close> appends the check and, on failure, its reason.\<close>

definition add_check ::
  "string \<Rightarrow> check_outcome \<Rightarrow> string \<Rightarrow> string option \<Rightarrow> recon_check list \<times> string list \<Rightarrow> recon_check list \<times> string list" where
  "add_check name outcome details reason acc =
     (fst acc @ [\<lparr>check_name = name, check_outcome = outcome, check_details = details,
                  check_reason_code = (if outcome = Failed then reason else None)\<rparr>],
      snd acc @ (if outcome = Failed
                 then [case reason of Some r \<Rightarrow> if r = [] then name else r | None \<Rightarrow> name] else []))"

section \<open>The four content checks\<close>

definition within_tolerance :: "pyfloat \<Rightarrow> pyfloat \<Rightarrow> bool" where
  "within_tolerance invoice_total agreed_rate =
     fle (fabs (fsub invoice_total agreed_rate)) (fmul (fabs agreed_rate) AMOUNT_TOLERANCE)"

definition amount_check ::
  "pyfloat option \<Rightarrow> pyfloat option \<Rightarrow> recon_check list \<times> string list \<Rightarrow> recon_check list \<times> string list" where
  "amount_check invoice_total agreed_rate = (case (invoice_total, agreed_rate) of
      (Some i, Some r) \<Rightarrow>
        add_check ''amount_variance'' (if within_tolerance i r then Passed else Failed)
          (''invoice='' @ repr_float i @ '', agreed_rate='' @ repr_float r @ '', variance='' @ repr_float (fsub i r))
          (Some ''amount_variance'')
    | _ \<Rightarrow> add_check ''amount_variance'' NotEvaluated
          ''skipped: invoice or rate confirmation amount is missing'' None)"

definition carrier_check ::
  "string \<Rightarrow> string \<Rightarrow> recon_check list \<times> string list \<Rightarrow> recon_check list \<times> string list" where
  "carrier_check invoice_carrier rate_con_carrier =
     (if invoice_carrier = [] \<or> rate_con_carrier = [] then
        add_check ''carrier_match'' NotEvaluated
          ''skipped: invoice or rate confirmation carrier is missing'' None
      else
        add_check ''carrier_match'' (if invoice_carrier = rate_con_carrier then Passed else Failed)
          (''invoice='' @ invoice_carrier @ '', rate_con='' @ rate_con_carrier) (Some ''carrier_mismatch''))"

definition pickup_check ::
  "date option \<Rightarrow> date option \<Rightarrow> recon_check list \<times> string list \<Rightarrow> recon_check list \<times> string list" where
  "pickup_check pickup shipdate = (case (pickup, shipdate) of
      (Some p, Some d) \<Rightarrow>
        add_check ''bol_pickup_date'' (if \<bar>p - d\<bar> \<le> 1 then Passed else Failed)
          (''bol_pickup_date='' @ isoformat_date p @ '', rate_con_shipment_date='' @ isoformat_date d)
          (Some ''bol_pickup_date_mismatch'')
    | _ \<Rightarrow> add_check ''bol_pickup_date'' NotEvaluated
          ''skipped: BOL pickup date or rate confirmation shipment date is missing'' None)"

definition or_missing :: "json \<Rightarrow> string" where
  "or_missing v = py_str (py_or v (JStr ''missing''))"

definition delivery_check ::
  "bool \<Rightarrow> jdict \<Rightarrow> recon_check list \<times> string list \<Rightarrow> recon_check list \<times> string list" where
  "delivery_check has_pod pod =
     (if has_pod then
        add_check ''pod_delivery_confirmation''
          (if truthy (dget pod ''delivery_date'') \<and> truthy (dget pod ''condition'') then Passed else Failed)
          (''delivery_date='' @ or_missing (dget pod ''delivery_date'')
            @ '', condition='' @ or_missing (dget pod ''condition'')) (Some ''pod_incomplete'')
      else add_check ''pod_delivery_confirmation'' NotEvaluated
             ''POD content cannot be evaluated until the document arrives'' None)"

record evaluation =
  evn_shipment :: shipment
  evn_checks :: "recon_check list"
  evn_missing_docs :: "string list"
  evn_exception_reasons :: "string list"
  evn_policy :: policy_result

definition evaluate_shipment ::
  "shipment \<Rightarrow> jdict \<Rightarrow> jdict \<Rightarrow> jdict \<Rightarrow> jdict \<Rightarrow> datetime \<Rightarrow> timedelta \<Rightarrow> evaluation result" where
  "evaluate_shipment s invoice rate_con bol pod now sla =
     (case amount_from invoice [''total_amount'', ''invoice_total''] of Inl e \<Rightarrow> Inl e
      | Inr invoice_total \<Rightarrow>
     (case amount_from rate_con [''agreed_rate'', ''total_amount'', ''rate''] of Inl e \<Rightarrow> Inl e
      | Inr agreed_rate \<Rightarrow>
        (let acc = amount_check invoice_total agreed_rate ([], []);
             acc = carrier_check (normalize_carrier (dget invoice ''carrier_name''))
                                 (normalize_carrier (dget rate_con ''carrier_name'')) acc;
             acc = pickup_check
                     (parse_date (py_or (dget bol ''pickup_date'') (dget bol ''shipment_date'')))
                     (parse_date (py_or (dget rate_con ''shipment_date'') (dget rate_con ''invoice_date''))) acc;
             acc = delivery_check (sh_has_pod s) pod acc;
             policy = evaluate_missing_document_policy s now sla;
             missing = pol_missing_docs policy;
             acc = (fst acc @ pol_checks policy, snd acc @ pol_reason_codes policy);
             acc = add_check ''missing_docs'' (if missing \<noteq> [] then NotEvaluated else Passed)
                     (if missing \<noteq> [] then py_join '', '' missing else ''none'') None acc;
             status = (if snd acc \<noteq> [] then ''exception''
                       else if missing \<noteq> [] \<or> list_ex (\<lambda>c. check_outcome c = NotEvaluated) (fst acc)
                       then ''partial'' else ''reconciled'') in
         Inr \<lparr>evn_shipment = s\<lparr>sh_reconciliation_status := status\<rparr>, evn_checks = fst acc,
              evn_missing_docs = missing, evn_exception_reasons = snd acc, evn_policy = policy\<rparr>)))"

section \<open>The transaction\<close>

definition existing_result ::
  "string option \<Rightarrow> string option \<Rightarrow> database \<Rightarrow> reconciliation_result option result" where
  "existing_result run_id evaluation_key db =
     (case run_id of
        Some r \<Rightarrow> scalar_one_or_none (filter (\<lambda>x. rr_run_id x = Some r) (reconciliation_results db))
      | None \<Rightarrow> (case evaluation_key of
          Some k \<Rightarrow> scalar_one_or_none (filter (\<lambda>x. rr_evaluation_key x = Some k) (reconciliation_results db))
        | None \<Rightarrow> Inr None))"

text \<open>What PostgreSQL checks when the result is flushed: the two partial unique indexes and
  the foreign key to the workflow run.\<close>

definition results_constraints :: "database \<Rightarrow> bool" where
  "results_constraints db \<longleftrightarrow>
     partial_unique rr_run_id (reconciliation_results db)
   \<and> partial_unique rr_evaluation_key (reconciliation_results db)
   \<and> list_all (\<lambda>x. case rr_run_id x of None \<Rightarrow> True | Some r \<Rightarrow> get_run r db \<noteq> None) (reconciliation_results db)"

definition store_result ::
  "evaluation \<Rightarrow> string option \<Rightarrow> string \<Rightarrow> string option \<Rightarrow> reconciliation_result option \<Rightarrow> database
   \<Rightarrow> reconciliation_result \<times> database" where
  "store_result ev run_id source ekey found db = (case found of
      None \<Rightarrow>
        (let (i, db) = fresh_uuid db;
             r = \<lparr>rr_id = i, rr_shipment_id = sh_id (evn_shipment ev), rr_run_id = run_id,
                  rr_evaluation_source = source, rr_evaluation_key = ekey,
                  rr_checks = evn_checks ev, rr_missing_docs = evn_missing_docs ev,
                  rr_exception_reasons = evn_exception_reasons ev, rr_created_at = pg_now db\<rparr> in
         (r, db\<lparr>reconciliation_results := reconciliation_results db @ [r]\<rparr>))
    | Some x \<Rightarrow>
        (let r = x\<lparr>rr_shipment_id := sh_id (evn_shipment ev), rr_evaluation_source := source,
                   rr_evaluation_key := ekey, rr_checks := evn_checks ev,
                   rr_missing_docs := evn_missing_docs ev,
                   rr_exception_reasons := evn_exception_reasons ev\<rparr> in
         (r, db\<lparr>reconciliation_results := set_row rr_id r (reconciliation_results db)\<rparr>)))"

definition default_source :: "string option \<Rightarrow> string option \<Rightarrow> string" where
  "default_source run_id source = (case source of
      Some t \<Rightarrow> if t \<noteq> [] then t else if run_id \<noteq> None then ''document_workflow'' else ''legacy''
    | None \<Rightarrow> if run_id \<noteq> None then ''document_workflow'' else ''legacy'')"

definition reconcile_shipment ::
  "shipment \<Rightarrow> string option \<Rightarrow> datetime \<Rightarrow> timedelta \<Rightarrow> string option \<Rightarrow> string option \<Rightarrow> database
   \<Rightarrow> (reconciliation_result \<times> shipment \<times> database) result" where
  "reconcile_shipment s run_id now sla source ekey db =
     (let invoice = doc_extraction (shipment_document (sh_invoice_id s) db);
          rate_con = doc_extraction (shipment_document (sh_rate_con_id s) db);
          bol = doc_extraction (shipment_document (sh_bol_id s) db);
          pod = doc_extraction (shipment_document (sh_pod_id s) db) in
      case scalar_one_or_none (filter (\<lambda>rc. rc_load_number rc = sh_load_number s) (rate_confirmations db)) of
        Inl e \<Rightarrow> Inl e
      | Inr rc \<Rightarrow>
          (let (rate_con, s) = (case rc of
                  Some rc \<Rightarrow> (rate_confirmation_extraction rc, s\<lparr>sh_has_rate_con := True\<rparr>)
                | None \<Rightarrow> (rate_con, s)) in
           case evaluate_shipment s invoice rate_con bol pod now sla of
             Inl e \<Rightarrow> Inl e
           | Inr ev \<Rightarrow>
               (case existing_result run_id ekey db of
                  Inl e \<Rightarrow> Inl e
                | Inr found \<Rightarrow>
                    (let (r, db) = store_result ev run_id (default_source run_id source) ekey found db;
                         s = touch_shipment (evn_shipment ev) db;
                         db = put_shipment s db in
                     if \<not> results_constraints db then Inl IntegrityError
                     else
                       (let db = snd (sync_missing_document_exception s (evn_policy ev) (rr_id r) now db) in
                        Inr (r, s, db))))))"

section \<open>Errors\<close>

lemma float_of_json_error:
  "float_of_json v = Inl e \<Longrightarrow> e = OverflowError \<or> (\<exists>m. e = TypeError m) \<or> (\<exists>m. e = ValueError m)"
  by (cases v) (auto simp: float_of_int_def split: option.splits pyfloat.splits)

lemma amount_from_error: "amount_from x ks = Inl e \<Longrightarrow> e = OverflowError"
  by (induction ks) (auto simp: amount_from.simps(2) split: if_splits sum.splits dest!: float_of_json_error)

lemma evaluate_shipment_error: "evaluate_shipment s i r b p now sla = Inl e \<Longrightarrow> e = OverflowError"
  by (auto simp: evaluate_shipment_def Let_def split: sum.splits dest: amount_from_error)

section \<open>Checks, reasons and status\<close>

lemma add_check_reasons_Nil [simp]:
  "snd (add_check n out d r acc) = [] \<longleftrightarrow> snd acc = [] \<and> out \<noteq> Failed"
  by (simp add: add_check_def)

lemma add_check_list_all [simp]:
  "list_all P (fst (add_check n out d r acc)) \<longleftrightarrow> list_all P (fst acc) \<and>
     P \<lparr>check_name = n, check_outcome = out, check_details = d,
        check_reason_code = (if out = Failed then r else None)\<rparr>"
  by (simp add: add_check_def)

text \<open>The outcome of each content check, independent of the accumulator.\<close>

definition amount_outcome :: "pyfloat option \<Rightarrow> pyfloat option \<Rightarrow> check_outcome" where
  "amount_outcome i r = (case (i, r) of (Some i, Some r) \<Rightarrow> if within_tolerance i r then Passed else Failed
                         | _ \<Rightarrow> NotEvaluated)"

definition carrier_outcome :: "string \<Rightarrow> string \<Rightarrow> check_outcome" where
  "carrier_outcome i r = (if i = [] \<or> r = [] then NotEvaluated else if i = r then Passed else Failed)"

definition pickup_outcome :: "date option \<Rightarrow> date option \<Rightarrow> check_outcome" where
  "pickup_outcome p d = (case (p, d) of (Some p, Some d) \<Rightarrow> if \<bar>p - d\<bar> \<le> 1 then Passed else Failed
                         | _ \<Rightarrow> NotEvaluated)"

definition delivery_outcome :: "bool \<Rightarrow> jdict \<Rightarrow> check_outcome" where
  "delivery_outcome has pod = (if has then
      (if truthy (dget pod ''delivery_date'') \<and> truthy (dget pod ''condition'') then Passed else Failed)
     else NotEvaluated)"

lemma amount_check_add:
  "\<exists>d r. amount_check i r' acc = add_check ''amount_variance'' (amount_outcome i r') d r acc"
  by (auto simp: amount_check_def amount_outcome_def split: option.split)

lemma carrier_check_add:
  "\<exists>d r. carrier_check i r' acc = add_check ''carrier_match'' (carrier_outcome i r') d r acc"
  by (auto simp: carrier_check_def carrier_outcome_def)

lemma pickup_check_add:
  "\<exists>d r. pickup_check p q acc = add_check ''bol_pickup_date'' (pickup_outcome p q) d r acc"
  by (auto simp: pickup_check_def pickup_outcome_def split: option.split)

lemma delivery_check_add:
  "\<exists>d r. delivery_check h q acc = add_check ''pod_delivery_confirmation'' (delivery_outcome h q) d r acc"
  by (auto simp: delivery_check_def delivery_outcome_def)

record inputs =
  in_invoice_total :: "pyfloat option"
  in_agreed_rate :: "pyfloat option"
  in_invoice_carrier :: string
  in_rate_carrier :: string
  in_pickup :: "date option"
  in_ship_date :: "date option"

definition content_outcomes :: "inputs \<Rightarrow> bool \<Rightarrow> jdict \<Rightarrow> check_outcome list" where
  "content_outcomes x has_pod pod =
     [amount_outcome (in_invoice_total x) (in_agreed_rate x),
      carrier_outcome (in_invoice_carrier x) (in_rate_carrier x),
      pickup_outcome (in_pickup x) (in_ship_date x), delivery_outcome has_pod pod]"

definition inputs_of :: "pyfloat option \<Rightarrow> pyfloat option \<Rightarrow> jdict \<Rightarrow> jdict \<Rightarrow> jdict \<Rightarrow> inputs" where
  "inputs_of it ar invoice rate_con bol =
     \<lparr>in_invoice_total = it, in_agreed_rate = ar,
      in_invoice_carrier = normalize_carrier (dget invoice ''carrier_name''),
      in_rate_carrier = normalize_carrier (dget rate_con ''carrier_name''),
      in_pickup = parse_date (py_or (dget bol ''pickup_date'') (dget bol ''shipment_date'')),
      in_ship_date = parse_date (py_or (dget rate_con ''shipment_date'') (dget rate_con ''invoice_date''))\<rparr>"

lemma policy_outcomes:
  "Failed \<in> check_outcome ` set (pol_checks (evaluate_missing_document_policy s now sla)) \<longleftrightarrow>
     pol_state (evaluate_missing_document_policy s now sla) = ''overdue''"
  "list_all (\<lambda>c. check_outcome c = Passed) (pol_checks (evaluate_missing_document_policy s now sla)) \<longleftrightarrow>
     all_documents_present s"
  by (auto simp: evaluate_missing_document_policy_def policy_check_def REQUIRED_DOCUMENTS_def Let_def
      all_documents_present_def)

text \<open>The shape of an evaluation: four content checks, four presence checks, the summary.\<close>

lemma evaluate_shipment_shape:
  assumes ev: "evaluate_shipment s invoice rate_con bol pod now sla = Inr ev"
  obtains it ar cs sm where
    "amount_from invoice [''total_amount'', ''invoice_total''] = Inr it"
    "amount_from rate_con [''agreed_rate'', ''total_amount'', ''rate''] = Inr ar"
    "evn_policy ev = evaluate_missing_document_policy s now sla"
    "evn_missing_docs ev = pol_missing_docs (evn_policy ev)"
    "evn_checks ev = cs @ pol_checks (evn_policy ev) @ [sm]"
    "map check_outcome cs = content_outcomes (inputs_of it ar invoice rate_con bol) (sh_has_pod s) pod"
    "check_outcome sm = (if evn_missing_docs ev \<noteq> [] then NotEvaluated else Passed)"
    "evn_exception_reasons ev = [] \<longleftrightarrow>
       Failed \<notin> set (map check_outcome cs) \<and> pol_reason_codes (evn_policy ev) = []"
    "evn_shipment ev = s\<lparr>sh_reconciliation_status :=
       (if evn_exception_reasons ev \<noteq> [] then ''exception''
        else if evn_missing_docs ev \<noteq> [] \<or> list_ex (\<lambda>c. check_outcome c = NotEvaluated) (evn_checks ev)
        then ''partial'' else ''reconciled'')\<rparr>"
proof -
  from ev obtain it ar where am: "amount_from invoice [''total_amount'', ''invoice_total''] = Inr it"
      "amount_from rate_con [''agreed_rate'', ''total_amount'', ''rate''] = Inr ar"
    by (auto simp: evaluate_shipment_def split: sum.splits)
  let ?x = "inputs_of it ar invoice rate_con bol"
  let ?p = "evaluate_missing_document_policy s now sla"
  define acc1 where "acc1 = amount_check it ar ([], [])"
  define acc2 where "acc2 = carrier_check (in_invoice_carrier ?x) (in_rate_carrier ?x) acc1"
  define acc3 where "acc3 = pickup_check (in_pickup ?x) (in_ship_date ?x) acc2"
  define acc4 where "acc4 = delivery_check (sh_has_pod s) pod acc3"
  obtain d1 r1 d2 r2 d3 r3 d4 r4 where acc:
      "acc1 = add_check ''amount_variance'' (amount_outcome it ar) d1 r1 ([], [])"
      "acc2 = add_check ''carrier_match'' (carrier_outcome (in_invoice_carrier ?x) (in_rate_carrier ?x)) d2 r2 acc1"
      "acc3 = add_check ''bol_pickup_date'' (pickup_outcome (in_pickup ?x) (in_ship_date ?x)) d3 r3 acc2"
      "acc4 = add_check ''pod_delivery_confirmation'' (delivery_outcome (sh_has_pod s) pod) d4 r4 acc3"
    unfolding acc1_def acc2_def acc3_def acc4_def
    using amount_check_add carrier_check_add pickup_check_add delivery_check_add by metis
  have outs: "map check_outcome (fst acc4) = content_outcomes ?x (sh_has_pod s) pod"
    by (simp add: acc add_check_def content_outcomes_def inputs_of_def)
  have reasons: "snd acc4 = [] \<longleftrightarrow> Failed \<notin> set (map check_outcome (fst acc4))"
    by (auto simp: acc add_check_def)
  define sm where "sm = \<lparr>check_name = ''missing_docs'',
      check_outcome = (if pol_missing_docs ?p \<noteq> [] then NotEvaluated else Passed),
      check_details = (if pol_missing_docs ?p \<noteq> [] then py_join '', '' (pol_missing_docs ?p) else ''none''),
      check_reason_code = None\<rparr>"
  from ev am have evn:
      "evn_policy ev = ?p" "evn_missing_docs ev = pol_missing_docs ?p"
      "evn_checks ev = fst acc4 @ pol_checks ?p @ [sm]"
      "evn_exception_reasons ev = snd acc4 @ pol_reason_codes ?p"
      "evn_shipment ev = s\<lparr>sh_reconciliation_status :=
         (if evn_exception_reasons ev \<noteq> [] then ''exception''
          else if evn_missing_docs ev \<noteq> [] \<or> list_ex (\<lambda>c. check_outcome c = NotEvaluated) (evn_checks ev)
          then ''partial'' else ''reconciled'')\<rparr>"
    unfolding acc4_def acc3_def acc2_def acc1_def sm_def
    by (simp_all add: evaluate_shipment_def Let_def inputs_of_def) (hypsubst, simp add: add_check_def)+
  show thesis
    by (rule that [of it ar "fst acc4" sm]) (use am outs reasons evn in \<open>simp_all add: sm_def\<close>)
qed

text \<open>C2: the status rule. Reconciliation succeeds exactly when all four documents are
  present and all four content checks pass; it is an exception exactly when a content
  check fails or a document is missing past the deadline; everything else is partial.\<close>

theorem reconciliation_status_rule:
  fixes s :: shipment and bol pod :: jdict
  assumes "amount_from invoice [''total_amount'', ''invoice_total''] = Inr it"
    and "amount_from rate_con [''agreed_rate'', ''total_amount'', ''rate''] = Inr ar"
  defines "outs \<equiv> content_outcomes (inputs_of it ar invoice rate_con bol) (sh_has_pod s) pod"
  shows "\<exists>ev. evaluate_shipment s invoice rate_con bol pod now sla = Inr ev
    \<and> (sh_reconciliation_status (evn_shipment ev) = ''reconciled'' \<longleftrightarrow>
         all_documents_present s \<and> outs = [Passed, Passed, Passed, Passed])
    \<and> (sh_reconciliation_status (evn_shipment ev) = ''exception'' \<longleftrightarrow>
         Failed \<in> set outs \<or> (\<not> all_documents_present s \<and> sh_created_at s + sla \<le> now))
    \<and> sh_reconciliation_status (evn_shipment ev) \<in> {''reconciled'', ''exception'', ''partial''}"
proof -
  from assms(1,2) obtain ev where ev: "evaluate_shipment s invoice rate_con bol pod now sla = Inr ev"
    by (auto simp: evaluate_shipment_def Let_def)
  then obtain it' ar' cs sm where
      am: "amount_from invoice [''total_amount'', ''invoice_total''] = Inr it'"
      "amount_from rate_con [''agreed_rate'', ''total_amount'', ''rate''] = Inr ar'"
    and pol: "evn_policy ev = evaluate_missing_document_policy s now sla"
    and miss: "evn_missing_docs ev = pol_missing_docs (evn_policy ev)"
    and cks: "evn_checks ev = cs @ pol_checks (evn_policy ev) @ [sm]"
    and outs': "map check_outcome cs = content_outcomes (inputs_of it' ar' invoice rate_con bol) (sh_has_pod s) pod"
    and sm: "check_outcome sm = (if evn_missing_docs ev \<noteq> [] then NotEvaluated else Passed)"
    and rs: "evn_exception_reasons ev = [] \<longleftrightarrow>
       Failed \<notin> set (map check_outcome cs) \<and> pol_reason_codes (evn_policy ev) = []"
    and sh: "evn_shipment ev = s\<lparr>sh_reconciliation_status :=
       (if evn_exception_reasons ev \<noteq> [] then ''exception''
        else if evn_missing_docs ev \<noteq> [] \<or> list_ex (\<lambda>c. check_outcome c = NotEvaluated) (evn_checks ev)
        then ''partial'' else ''reconciled'')\<rparr>"
    by (rule evaluate_shipment_shape)
  from am assms(1,2) outs' have outs: "map check_outcome cs = outs" by (simp add: outs_def)
  have exc: "evn_exception_reasons ev = [] \<longleftrightarrow>
      Failed \<notin> set outs \<and> (all_documents_present s \<or> now < sh_created_at s + sla)"
    by (auto simp: rs outs pol policy_reasons_Nil_iff policy_overdue_iff)
  have len: "length outs = 4" by (simp add: outs_def content_outcomes_def)
  have pass: "outs = [Passed, Passed, Passed, Passed] \<longleftrightarrow> Failed \<notin> set outs \<and> NotEvaluated \<notin> set outs"
  proof
    assume "Failed \<notin> set outs \<and> NotEvaluated \<notin> set outs"
    then have "\<forall>c \<in> set outs. c = Passed" using check_outcome.exhaust by metis
    then have "outs = replicate 4 Passed" using len by (metis replicate_eqI)
    then show "outs = [Passed, Passed, Passed, Passed]" by (simp add: numeral_eq_Suc)
  qed simp
  have nev: "list_ex (\<lambda>c. check_outcome c = NotEvaluated) cs \<longleftrightarrow> NotEvaluated \<in> set outs"
    by (simp only: list_ex_iff set_map image_iff flip: outs) metis
  have polp: "list_ex (\<lambda>c. check_outcome c = NotEvaluated) (pol_checks (evn_policy ev)) = False"
    if "all_documents_present s"
    using that policy_outcomes(2) [of s now sla] by (auto simp: pol list_ex_iff list_all_iff)
  have "evn_missing_docs ev = [] \<longleftrightarrow> all_documents_present s" by (simp add: miss pol policy_missing_Nil)
  with ev sh exc pass nev polp sm cks show ?thesis by auto
qed

text \<open>At a complete document set whose contents agree the rule yields \<open>reconciled\<close>.\<close>

definition sample_shipment :: shipment where
  "sample_shipment = \<lparr>sh_id = ''a'', sh_load_number = ''LD-7'', sh_carrier_name = None,
     sh_has_invoice = True, sh_has_rate_con = True, sh_has_bol = True, sh_has_pod = True,
     sh_invoice_id = None, sh_rate_con_id = None, sh_bol_id = None, sh_pod_id = None,
     sh_reconciliation_status = ''pending'', sh_created_at = 0, sh_updated_at = 0\<rparr>"

definition sample_amount :: "string \<Rightarrow> jdict" where
  "sample_amount k = [(k, JFloat (Fin 1000)), (''carrier_name'', JStr ''acme'')]"

definition sample_pod :: jdict where
  "sample_pod = [(''delivery_date'', JStr ''2026-07-02''), (''condition'', JStr ''good'')]"

theorem reconciliation_status_rule_witness:
  "\<exists>ev. evaluate_shipment sample_shipment (sample_amount ''total_amount'') (sample_amount ''agreed_rate'')
       [(''pickup_date'', JStr ''2026-07-01'')] sample_pod 0 1 = Inr ev
    \<and> (sh_reconciliation_status (evn_shipment ev) = ''reconciled'' \<longleftrightarrow>
         content_outcomes (inputs_of (Some (Fin 1000)) (Some (Fin 1000)) (sample_amount ''total_amount'')
           (sample_amount ''agreed_rate'') [(''pickup_date'', JStr ''2026-07-01'')]) True sample_pod
         = [Passed, Passed, Passed, Passed])"
proof -
  have am: "amount_from (sample_amount ''total_amount'') [''total_amount'', ''invoice_total''] = Inr (Some (Fin 1000))"
      "amount_from (sample_amount ''agreed_rate'') [''agreed_rate'', ''total_amount'', ''rate''] = Inr (Some (Fin 1000))"
    by (simp_all add: amount_from.simps sample_amount_def dget_def)
  have "all_documents_present sample_shipment" "sh_has_pod sample_shipment" by code_simp+
  with reconciliation_status_rule [OF am, where bol = "[(''pickup_date'', JStr ''2026-07-01'')]"
      and s = sample_shipment and pod = sample_pod and now = 0 and sla = 1]
  show ?thesis by auto
qed

section \<open>The five-percent rule\<close>

text \<open>The linear arithmetic of the bound: \<open>X\<close> the exact and \<open>V\<close> the rounded variance, \<open>R\<close>
  the agreed rate, \<open>T\<close> the rounded tolerance.\<close>

lemma tolerance_arith:
  fixes X R V T D E e :: rat
  assumes "D \<le> (X * (1 / 4503599627370496) + e) / 2"
    and "E \<le> (R * (3602879701896397 / 72057594037927936) * (1 / 4503599627370496) + e) / 2"
    and "e \<le> R * (1 / 18889465931478580854784)" and "0 \<le> R"
    and "V \<le> X + D" and "X \<le> V + D"
    and "T \<le> R * (3602879701896397 / 72057594037927936) + E"
    and "R * (3602879701896397 / 72057594037927936) \<le> T + E"
  shows "V \<le> T \<Longrightarrow> X \<le> R / 20 * (1 + 1 / 2 ^ 50)"
    and "X \<le> R / 20 * (1 - 1 / 2 ^ 50) \<Longrightarrow> V \<le> T"
  using assms by (simp_all add: field_simps)

lemma abs_error_bounds:
  fixes v x :: rat
  shows "\<bar>v\<bar> \<le> \<bar>x\<bar> + \<bar>v - x\<bar>" "\<bar>x\<bar> \<le> \<bar>v\<bar> + \<bar>v - x\<bar>" "v \<le> x + \<bar>v - x\<bar>" "x \<le> v + \<bar>v - x\<bar>"
  by linarith+

text \<open>C3: the floating-point amount check decides the five-percent rule up to a relative
  error of \<open>2 powi -50\<close>: a passing invoice is within that of five percent of the agreed
  rate, and an invoice inside five percent by that margin passes. The bounds on the
  amounts only exclude the overflow and underflow ranges of doubles.\<close>

theorem amount_check_decides_five_percent:
  assumes "\<bar>i\<bar> \<le> 2 ^ 1000" and "\<bar>r\<bar> \<le> 2 ^ 1000" and "2 powi (- 1000) \<le> \<bar>r\<bar>"
  shows "(within_tolerance (Fin i) (Fin r) \<longrightarrow> \<bar>i - r\<bar> \<le> \<bar>r\<bar> / 20 * (1 + 1 / 2 ^ 50))
    \<and> (\<bar>i - r\<bar> \<le> \<bar>r\<bar> / 20 * (1 - 1 / 2 ^ 50) \<longrightarrow> within_tolerance (Fin i) (Fin r))"
proof -
  let ?X = "\<bar>i - r\<bar>" and ?R = "\<bar>r\<bar>" and ?t = "3602879701896397 / 72057594037927936 :: rat"
  let ?y = "?R * ?t"
  have y: "\<bar>?y\<bar> = ?y" by simp
  have "?X \<le> \<bar>i\<bar> + \<bar>r\<bar>" by (rule abs_triangle_ineq4)
  also have "\<dots> \<le> 2 ^ 1000 + 2 ^ 1000" using assms(1,2) by (rule add_mono)
  also have "\<dots> = 2 ^ 1001" by simp
  finally have "?X \<le> 2 ^ 1001" .
  then obtain v where v: "round64 (i - r) = Fin v"
      "\<bar>v - (i - r)\<bar> \<le> (?X * 2 powi (- 52) + 2 powi (- 1074)) / 2"
    using round64_close by blast
  have "?y \<le> ?R * 1" by (intro mult_left_mono) auto
  also have "\<dots> \<le> 2 ^ 1000" using assms(2) by (simp only: mult_1_right)
  also have "\<dots> \<le> 2 ^ 1001" by simp
  finally have "\<bar>?y\<bar> \<le> 2 ^ 1001" by (simp only: y)
  then obtain t where t: "round64 ?y = Fin t" "\<bar>t - ?y\<bar> \<le> (?y * 2 powi (- 52) + 2 powi (- 1074)) / 2"
    using round64_close [of ?y] y by metis
  have w: "within_tolerance (Fin i) (Fin r) \<longleftrightarrow> \<bar>v\<bar> \<le> t"
    using v(1) t(1) by (simp add: within_tolerance_def fsub_def fmul_def AMOUNT_TOLERANCE_def)
  have "(2::rat) powi (- 1074) = 2 powi (- 1000) * 2 powi (- 74)"
    by (simp flip: power_int_add)
  also have "\<dots> \<le> ?R * 2 powi (- 74)" using assms(3) by (intro mult_right_mono) auto
  finally have eta: "2 powi (- 1074) \<le> ?R * 2 powi (- 74)" .
  define e :: rat where "e = 2 powi (- 1074)"
  have powers: "(2::rat) powi (- 52) = 1 / 4503599627370496" "(2::rat) powi (- 74) = 1 / 18889465931478580854784"
    by simp_all
  have v2: "\<bar>v - (i - r)\<bar> \<le> (?X * (1 / 4503599627370496) + e) / 2"
    using v(2) unfolding powers e_def .
  have t2: "\<bar>t - ?R * ?t\<bar> \<le> (?R * ?t * (1 / 4503599627370496) + e) / 2"
    using t(2) unfolding powers e_def .
  have e2: "e \<le> ?R * (1 / 18889465931478580854784)" using eta unfolding powers e_def .
  note arith = tolerance_arith [OF v2 t2 e2 abs_ge_zero abs_error_bounds(1,2) [where v = v and x = "i - r"]
      abs_error_bounds(3,4) [where v = t and x = "?R * ?t"]]
  from w arith show ?thesis by blast
qed

theorem amount_check_decides_five_percent_witness:
  "within_tolerance (Fin 1049) (Fin 1000) \<and> \<not> within_tolerance (Fin 1051) (Fin 1000)"
  using amount_check_decides_five_percent [of 1049 1000] amount_check_decides_five_percent [of 1051 1000]
  by simp

section \<open>The transaction keeps the tables consistent\<close>

definition results_inv :: "database \<Rightarrow> bool" where
  "results_inv db \<longleftrightarrow> results_constraints db \<and> distinct (map rr_id (reconciliation_results db))
     \<and> inj (uuid4_at db) \<and> rr_id ` set (reconciliation_results db) \<subseteq> uuid4_at db ` {..< uuid_pos db}"

definition db_inv :: "database \<Rightarrow> bool" where
  "db_inv db \<longleftrightarrow> shipments_inv db \<and> exceptions_inv db \<and> results_inv db
     \<and> distinct (map rc_load_number (rate_confirmations db))"

lemma db_invD:
  assumes "db_inv db"
  shows "shipments_inv db" "exceptions_inv db" "results_inv db" "distinct (map rc_load_number (rate_confirmations db))"
  using assms by (simp_all add: db_inv_def)

definition same_but_results :: "database \<Rightarrow> database \<Rightarrow> bool" where
  "same_but_results db db' \<longleftrightarrow>
     db'\<lparr>reconciliation_results := [], uuid_pos := 0\<rparr> = db\<lparr>reconciliation_results := [], uuid_pos := 0\<rparr>"

lemma same_but_results_fields:
  assumes "same_but_results db db'"
  shows "shipments db' = shipments db" "documents db' = documents db"
    "rate_confirmations db' = rate_confirmations db" "shipment_exceptions db' = shipment_exceptions db"
    "exception_events db' = exception_events db" "workflow_runs db' = workflow_runs db"
    "review_decisions db' = review_decisions db" "audit_logs db' = audit_logs db"
    "uuid4_at db' = uuid4_at db" "pg_now db' = pg_now db"
proof -
  from assms have eq: "db'\<lparr>reconciliation_results := [], uuid_pos := 0\<rparr> = db\<lparr>reconciliation_results := [], uuid_pos := 0\<rparr>"
    by (simp add: same_but_results_def)
  show "shipments db' = shipments db" using arg_cong [OF eq, of shipments] by simp
  show "documents db' = documents db" using arg_cong [OF eq, of documents] by simp
  show "rate_confirmations db' = rate_confirmations db" using arg_cong [OF eq, of rate_confirmations] by simp
  show "shipment_exceptions db' = shipment_exceptions db" using arg_cong [OF eq, of shipment_exceptions] by simp
  show "exception_events db' = exception_events db" using arg_cong [OF eq, of exception_events] by simp
  show "workflow_runs db' = workflow_runs db" using arg_cong [OF eq, of workflow_runs] by simp
  show "review_decisions db' = review_decisions db" using arg_cong [OF eq, of review_decisions] by simp
  show "audit_logs db' = audit_logs db" using arg_cong [OF eq, of audit_logs] by simp
  show "uuid4_at db' = uuid4_at db" using arg_cong [OF eq, of uuid4_at] by simp
  show "pg_now db' = pg_now db" using arg_cong [OF eq, of pg_now] by simp
qed

lemma store_result_frame:
  assumes "store_result ev run_id src ekey found db = (r, db')"
  shows "same_but_results db db'" "uuid_pos db \<le> uuid_pos db'"
  using assms by (auto simp: store_result_def same_but_results_def fresh_uuid_def Let_def split: option.splits)

text \<open>Which row an evaluation may overwrite: the one of its run, or of its evaluation key.\<close>

lemma existing_result_unique:
  assumes "results_inv db"
  shows "existing_result run_id ekey db = Inr (case run_id of
      Some r \<Rightarrow> List.find (\<lambda>x. rr_run_id x = Some r) (reconciliation_results db)
    | None \<Rightarrow> (case ekey of Some k \<Rightarrow> List.find (\<lambda>x. rr_evaluation_key x = Some k) (reconciliation_results db)
             | None \<Rightarrow> None))"
  using assms by (auto simp: existing_result_def results_inv_def results_constraints_def partial_unique_find
      split: option.split)

lemma fresh_uuid_not_result:
  assumes "results_inv db"
  shows "uuid4_at db (uuid_pos db) \<notin> rr_id ` set (reconciliation_results db)"
proof
  assume "uuid4_at db (uuid_pos db) \<in> rr_id ` set (reconciliation_results db)"
  with assms obtain i where "i < uuid_pos db" "uuid4_at db (uuid_pos db) = uuid4_at db i"
    by (auto simp: results_inv_def)
  with assms show False by (auto simp: results_inv_def dest: injD)
qed

text \<open>The callers give a run id or an evaluation key, not both, and a run id of a stored run.\<close>

definition evaluation_identity :: "string option \<Rightarrow> string option \<Rightarrow> database \<Rightarrow> bool" where
  "evaluation_identity run_id ekey db \<longleftrightarrow>
     (case run_id of None \<Rightarrow> True | Some r \<Rightarrow> ekey = None \<and> get_run r db \<noteq> None)"

lemma store_result_inv:
  assumes inv: "results_inv db" and ident: "evaluation_identity run_id ekey db"
    and found: "existing_result run_id ekey db = Inr found"
    and store: "store_result ev run_id src ekey found db = (r, db')"
  shows "results_inv db'"
proof (cases found)
  case None
  let ?i = "uuid4_at db (uuid_pos db)"
  from None store have rows: "reconciliation_results db' = reconciliation_results db @ [r]"
      and r: "rr_id r = ?i" "rr_run_id r = run_id" "rr_evaluation_key r = ekey"
      and pool: "uuid4_at db' = uuid4_at db" "uuid_pos db' = Suc (uuid_pos db)"
      and runs: "workflow_runs db' = workflow_runs db"
    by (auto simp: store_result_def fresh_uuid_def Let_def)
  have "run_id = None \<or> run_id \<notin> rr_run_id ` set (reconciliation_results db)"
    using found None inv by (auto simp: existing_result_unique find_None_iff split: option.splits)
  moreover have "ekey = None \<or> ekey \<notin> rr_evaluation_key ` set (reconciliation_results db)"
    using found None inv ident
    by (auto simp: existing_result_unique find_None_iff evaluation_identity_def split: option.splits)
  ultimately show ?thesis
    using inv fresh_uuid_not_result [OF inv] ident
    by (auto simp: results_inv_def results_constraints_def rows r pool partial_unique_snoc less_Suc_eq
        get_run_def runs evaluation_identity_def split: option.splits)
next
  case (Some x)
  from found inv Some have x: "x \<in> set (reconciliation_results db)"
      "case run_id of Some i \<Rightarrow> rr_run_id x = Some i | None \<Rightarrow> rr_evaluation_key x = ekey"
    by (auto simp: existing_result_unique find_Some_iff split: option.splits)
  from Some store have rows: "reconciliation_results db' = set_row rr_id r (reconciliation_results db)"
      and r: "rr_id r = rr_id x" "rr_run_id r = rr_run_id x" "rr_evaluation_key r = ekey"
      and pool: "uuid4_at db' = uuid4_at db" "uuid_pos db' = uuid_pos db"
      and runs: "workflow_runs db' = workflow_runs db"
    by (auto simp: store_result_def Let_def)
  have key: "rr_evaluation_key r = None \<or> rr_evaluation_key r = rr_evaluation_key x"
    using x(2) ident by (auto simp: r evaluation_identity_def split: option.splits)
  have "rr_id ` set (set_row rr_id r (reconciliation_results db)) = rr_id ` set (reconciliation_results db)"
    by (metis list.set_map map_key_set_row)
  moreover have "partial_unique rr_run_id (set_row rr_id r (reconciliation_results db))"
      "partial_unique rr_evaluation_key (set_row rr_id r (reconciliation_results db))"
    using inv x(1) r key
    by (auto simp: results_inv_def results_constraints_def intro: partial_unique_set_row [where x = x])
  moreover have "list_all (\<lambda>z. case rr_run_id z of None \<Rightarrow> True | Some i \<Rightarrow> get_run i db \<noteq> None)
      (set_row rr_id r (reconciliation_results db))"
    using inv x(1) r by (auto simp: results_inv_def results_constraints_def list_all_iff set_row_mem)
  ultimately show ?thesis
    using inv by (simp add: results_inv_def results_constraints_def rows pool get_run_def runs
        cong del: option.case_cong_weak)
qed

text \<open>The shipment the policy sees: a managed rate confirmation of its load counts as present.\<close>

definition with_rate_confirmation :: "shipment \<Rightarrow> database \<Rightarrow> shipment" where
  "with_rate_confirmation s db =
     (if sh_load_number s \<in> rc_load_number ` set (rate_confirmations db) then s\<lparr>sh_has_rate_con := True\<rparr> else s)"

lemma with_rate_confirmation_simps [simp]:
  "sh_id (with_rate_confirmation s db) = sh_id s"
  "sh_load_number (with_rate_confirmation s db) = sh_load_number s"
  "sh_created_at (with_rate_confirmation s db) = sh_created_at s"
  by (simp_all add: with_rate_confirmation_def)

lemma with_rate_confirmation_ok: "shipment_ok s \<Longrightarrow> shipment_ok (with_rate_confirmation s db)"
  by (simp add: with_rate_confirmation_def shipment_ok_def)

definition settled :: "shipment \<Rightarrow> datetime \<Rightarrow> timedelta \<Rightarrow> database \<Rightarrow> bool" where
  "settled s now sla db \<longleftrightarrow>
     (case find_exception (sh_id s) db of
        None \<Rightarrow> all_documents_present s \<or> now < sh_created_at s + sla
      | Some x \<Rightarrow> exception_unchanged x (evaluate_missing_document_policy s now sla))"

lemma evaluate_shipment_keeps:
  assumes "evaluate_shipment s i r b p now sla = Inr ev"
  shows "\<exists>st \<in> set RECONCILIATION_STATUSES. evn_shipment ev = s\<lparr>sh_reconciliation_status := st\<rparr>"
    and "evn_policy ev = evaluate_missing_document_policy s now sla"
proof -
  from assms show "evn_policy ev = evaluate_missing_document_policy s now sla"
    by (rule evaluate_shipment_shape)
  obtain st where "evn_shipment ev = s\<lparr>sh_reconciliation_status := st\<rparr>" "st \<in> set RECONCILIATION_STATUSES"
  proof (rule evaluate_shipment_shape [OF assms], rule that)
    show "(if A then ''exception'' else if B then ''partial'' else ''reconciled'') \<in> set RECONCILIATION_STATUSES"
      for A B by (simp add: RECONCILIATION_STATUSES_def)
  qed
  then show "\<exists>st \<in> set RECONCILIATION_STATUSES. evn_shipment ev = s\<lparr>sh_reconciliation_status := st\<rparr>" by blast
qed

lemma touch_shipment_updated: "\<exists>u. touch_shipment s db = s\<lparr>sh_updated_at := u\<rparr>"
proof (cases "get_shipment (sh_id s) db = Some s")
  case True
  then have "touch_shipment s db = s\<lparr>sh_updated_at := sh_updated_at s\<rparr>" by (simp add: touch_shipment_def)
  then show ?thesis by blast
qed (auto simp: touch_shipment_def)

lemma policy_status_irrelevant [simp]:
  "evaluate_missing_document_policy (s\<lparr>sh_reconciliation_status := st\<rparr>) now sla =
   evaluate_missing_document_policy s now sla"
  "evaluate_missing_document_policy (s\<lparr>sh_updated_at := u\<rparr>) now sla =
   evaluate_missing_document_policy s now sla"
  by (simp_all add: evaluate_missing_document_policy_def policy_check_def REQUIRED_DOCUMENTS_def Let_def)

lemma shipments_inv_pool:
  "shipments_inv db \<Longrightarrow> shipments db' = shipments db \<Longrightarrow> uuid4_at db' = uuid4_at db \<Longrightarrow>
   uuid_pos db \<le> uuid_pos db' \<Longrightarrow> shipments_inv db'"
  by (auto simp: shipments_inv_def)

lemma exceptions_inv_pool:
  "exceptions_inv db \<Longrightarrow> shipment_exceptions db' = shipment_exceptions db \<Longrightarrow>
   exception_events db' = exception_events db \<Longrightarrow> uuid4_at db' = uuid4_at db \<Longrightarrow>
   uuid_pos db \<le> uuid_pos db' \<Longrightarrow> exceptions_inv db'"
  by (auto simp: exceptions_inv_def events_of_def)

lemma results_inv_pool:
  "results_inv db \<Longrightarrow> reconciliation_results db' = reconciliation_results db \<Longrightarrow>
   workflow_runs db' = workflow_runs db \<Longrightarrow> uuid4_at db' = uuid4_at db \<Longrightarrow>
   uuid_pos db \<le> uuid_pos db' \<Longrightarrow> results_inv db'"
  by (auto simp: results_inv_def results_constraints_def get_run_def cong del: option.case_cong_weak)

lemma sync_uuid_pos: "uuid_pos db \<le> uuid_pos (snd (sync_missing_document_exception s p rid now db))"
  by (simp add: sync_unfold open_exception_def revise_exception_def fresh_uuid_def Let_def
      split: option.split prod.split)

lemma put_shipment_frame [simp]:
  "documents (put_shipment s db) = documents db" "rate_confirmations (put_shipment s db) = rate_confirmations db"
  "reconciliation_results (put_shipment s db) = reconciliation_results db"
  "shipment_exceptions (put_shipment s db) = shipment_exceptions db"
  "exception_events (put_shipment s db) = exception_events db"
  "workflow_runs (put_shipment s db) = workflow_runs db"
  "review_decisions (put_shipment s db) = review_decisions db" "audit_logs (put_shipment s db) = audit_logs db"
  "uuid4_at (put_shipment s db) = uuid4_at db" "uuid_pos (put_shipment s db) = uuid_pos db"
  "pg_now (put_shipment s db) = pg_now db"
  by (simp_all add: put_shipment_def)

text \<open>The evaluation a reconciliation makes, as a function of the shipment and the tables.\<close>

definition rate_con_of :: "shipment \<Rightarrow> database \<Rightarrow> jdict" where
  "rate_con_of s db = (case get_row rc_load_number (sh_load_number s) (rate_confirmations db) of
     Some rc \<Rightarrow> rate_confirmation_extraction rc
   | None \<Rightarrow> doc_extraction (shipment_document (sh_rate_con_id s) db))"

definition evaluation_of :: "shipment \<Rightarrow> datetime \<Rightarrow> timedelta \<Rightarrow> database \<Rightarrow> evaluation result" where
  "evaluation_of s now sla db = evaluate_shipment (with_rate_confirmation s db)
     (doc_extraction (shipment_document (sh_invoice_id s) db)) (rate_con_of s db)
     (doc_extraction (shipment_document (sh_bol_id s) db)) (doc_extraction (shipment_document (sh_pod_id s) db)) now sla"

lemma reconcile_shipment_eq:
  assumes "distinct (map rc_load_number (rate_confirmations db))"
  shows "reconcile_shipment s run_id now sla src ekey db =
    (case evaluation_of s now sla db of Inl e \<Rightarrow> Inl e
     | Inr ev \<Rightarrow> (case existing_result run_id ekey db of Inl e \<Rightarrow> Inl e
       | Inr found \<Rightarrow>
          (let (r, db1) = store_result ev run_id (default_source run_id src) ekey found db;
               t = touch_shipment (evn_shipment ev) db1;
               db2 = put_shipment t db1 in
           if \<not> results_constraints db2 then Inl IntegrityError
           else Inr (r, t, snd (sync_missing_document_exception t (evn_policy ev) (rr_id r) now db2)))))"
proof -
  have "(case get_row rc_load_number (sh_load_number s) (rate_confirmations db) of
      Some rc \<Rightarrow> (rate_confirmation_extraction rc, s\<lparr>sh_has_rate_con := True\<rparr>)
    | None \<Rightarrow> (doc_extraction (shipment_document (sh_rate_con_id s) db), s))
    = (rate_con_of s db, with_rate_confirmation s db)"
    using get_row_None_iff [of rc_load_number "sh_load_number s" "rate_confirmations db"]
    by (auto simp: rate_con_of_def with_rate_confirmation_def split: option.split)
  then show ?thesis
    by (simp add: reconcile_shipment_def evaluation_of_def Let_def scalar_one_or_none_unique [OF assms]
        case_prod_beta cong: sum.case_cong if_cong)
qed

text \<open>A reconciliation under the table invariant is its evaluation followed by the three
  writes; none of them can fail.\<close>

lemma reconcile_shipment_steps:
  assumes inv: "db_inv db" and ident: "evaluation_identity run_id ekey db"
  obtains (overflow) "reconcile_shipment s run_id now sla src ekey db = Inl OverflowError"
  | (stored) ev found r db1 t where
      "evaluation_of s now sla db = Inr ev"
      "existing_result run_id ekey db = Inr found"
      "store_result ev run_id (default_source run_id src) ekey found db = (r, db1)"
      "t = touch_shipment (evn_shipment ev) db1" "results_inv (put_shipment t db1)"
      "reconcile_shipment s run_id now sla src ekey db =
         Inr (r, t, snd (sync_missing_document_exception t (evn_policy ev) (rr_id r) now (put_shipment t db1)))"
proof (cases "evaluation_of s now sla db")
  case (Inl e)
  then have "e = OverflowError" unfolding evaluation_of_def by (rule evaluate_shipment_error)
  with Inl show thesis by (intro overflow) (simp add: reconcile_shipment_eq [OF db_invD(4) [OF inv]])
next
  case (Inr ev)
  obtain found where found: "existing_result run_id ekey db = Inr found"
    using existing_result_unique [OF db_invD(3) [OF inv]] by blast
  obtain r db1 where st: "store_result ev run_id (default_source run_id src) ekey found db = (r, db1)"
    by fastforce
  let ?t = "touch_shipment (evn_shipment ev) db1"
  have "results_inv db1" using store_result_inv [OF db_invD(3) [OF inv] ident found st] .
  then have res: "results_inv (put_shipment ?t db1)" by (rule results_inv_pool) simp_all
  then have "results_constraints (put_shipment ?t db1)" by (simp add: results_inv_def)
  with Inr found st res show thesis
    by (intro stored [of ev found r db1 ?t])
      (simp_all add: reconcile_shipment_eq [OF db_invD(4) [OF inv]] Let_def)
qed

lemma evaluation_of_keeps:
  assumes "evaluation_of s now sla db = Inr ev"
  shows "\<exists>st \<in> set RECONCILIATION_STATUSES. evn_shipment ev = (with_rate_confirmation s db)\<lparr>sh_reconciliation_status := st\<rparr>"
    and "evn_policy ev = evaluate_missing_document_policy (with_rate_confirmation s db) now sla"
  using evaluate_shipment_keeps [OF assms [unfolded evaluation_of_def]] .

text \<open>What one reconciliation does to the tables.\<close>

lemma reconcile_shipment_effect:
  assumes inv: "db_inv db" and ident: "evaluation_identity run_id ekey db"
    and stored: "get_shipment (sh_id s) db = Some s"
  shows "case reconcile_shipment s run_id now sla src ekey db of
      Inl e \<Rightarrow> e = OverflowError
    | Inr (r, t, db') \<Rightarrow>
        db_inv db' \<and> get_shipment (sh_id s) db' = Some t \<and> settled t now sla db'
        \<and> (\<exists>st u. st \<in> set RECONCILIATION_STATUSES \<and>
             t = (with_rate_confirmation s db)\<lparr>sh_reconciliation_status := st, sh_updated_at := u\<rparr>)
        \<and> (\<forall>i. i \<noteq> sh_id s \<longrightarrow> get_shipment i db' = get_shipment i db \<and> find_exception i db' = find_exception i db)"
proof (cases rule: reconcile_shipment_steps [OF inv ident, where s = s and now = now and sla = sla and src = src, case_names overflow stored])
  case overflow
  then show ?thesis by simp
next
  case (stored ev found r db1 t)
  let ?w = "with_rate_confirmation s db"
  let ?db2 = "put_shipment t db1"
  let ?db3 = "snd (sync_missing_document_exception t (evn_policy ev) (rr_id r) now ?db2)"
  note keeps = evaluation_of_keeps [OF stored(1)]
  note frame1 = store_result_frame [OF stored(3)]
  note f1 = same_but_results_fields [OF frame1(1)]
  from keeps(1) stored(4) obtain st u where st: "st \<in> set RECONCILIATION_STATUSES"
      and t: "t = ?w\<lparr>sh_reconciliation_status := st, sh_updated_at := u\<rparr>"
    using touch_shipment_updated by metis
  have tid: "sh_id t = sh_id s" "sh_load_number t = sh_load_number s" by (simp_all add: t)
  have mem: "s \<in> set (shipments db)" using assms(3) by (auto simp: get_shipment_def dest: get_row_key)
  then have "shipment_ok s" using db_invD(1) [OF inv] by (simp add: shipments_inv_def)
  then have ok: "shipment_ok t" using st with_rate_confirmation_ok [of s db] by (simp add: t shipment_ok_def)
  have "shipments_inv db1" by (rule shipments_inv_pool [OF db_invD(1) [OF inv]]) (simp_all add: f1 frame1)
  then have ships2: "shipments_inv ?db2"
    by (rule shipments_inv_put [of _ s]) (simp_all add: mem f1 ok tid)
  have pos: "uuid_pos ?db2 \<le> uuid_pos ?db3" by (rule sync_uuid_pos)
  from ships2 have ships3: "shipments_inv ?db3" by (rule shipments_inv_pool) (simp_all only: sync_frame pos)
  have exc2: "exceptions_inv ?db2"
    by (rule exceptions_inv_pool [OF db_invD(2) [OF inv]]) (simp_all add: f1 frame1)
  then have exc3: "exceptions_inv ?db3" by (rule sync_exceptions_inv)
  have res3: "results_inv ?db3" by (rule results_inv_pool [OF stored(5)]) (simp_all only: sync_frame pos)
  have inv3: "db_inv ?db3" using ships3 exc3 res3 db_invD(4) [OF inv] by (simp add: db_inv_def f1)
  have pol: "evaluate_missing_document_policy t now sla = evn_policy ev"
    by (simp add: t keeps(2))
  have settled: "settled t now sla ?db3"
    using sync_mirrors_policy [OF exc2, where s = t and p = "evn_policy ev" and rid = "rr_id r" and now = now] policy_overdue_iff [of t now sla]
    by (auto simp: settled_def pol split: option.splits)
  have get1: "get_shipment i ?db3 = get_shipment i ?db2" for i by (simp add: get_shipment_def)
  have get2: "get_shipment i db1 = get_shipment i db" for i by (simp add: get_shipment_def f1)
  have got: "get_shipment (sh_id s) ?db3 = Some t"
    using ship_store.look_store_same [of "sh_id s" db1 s t] assms(3) tid by (simp add: get1 get2)
  have other: "get_shipment i ?db3 = get_shipment i db" if "i \<noteq> sh_id s" for i
    using ship_store.look_store_other [of t i db1] that tid by (simp add: get1 get2)
  have other_exc: "find_exception i ?db3 = find_exception i db" if "i \<noteq> sh_id s" for i
    using sync_other_exception [OF exc2, of i t] that tid
    by (simp add: find_exception_def f1)
  from inv3 got settled st t other other_exc show ?thesis
    unfolding stored(6) by auto
qed

text \<open>C4: one reconciliation of a stored shipment, under the table invariant, either raises
  \<open>OverflowError\<close> (an integer amount beyond the range of a double) or commits: the
  invariant holds again, the stored row is the old one with a status of the enumeration
  (and the rate confirmation noted), the exception record agrees with the policy, and
  every other shipment and its exception are untouched.\<close>

theorem reconcile_shipment_correct:
  assumes inv: "db_inv db" and ident: "evaluation_identity run_id ekey db"
    and stored: "get_shipment (sh_id s) db = Some s"
  shows "case reconcile_shipment s run_id now sla src ekey db of
      Inl e \<Rightarrow> e = OverflowError
    | Inr (r, t, db') \<Rightarrow>
        db_inv db' \<and> get_shipment (sh_id s) db' = Some t \<and> settled t now sla db'
        \<and> (\<exists>st u. st \<in> set RECONCILIATION_STATUSES \<and>
             t = (with_rate_confirmation s db)\<lparr>sh_reconciliation_status := st, sh_updated_at := u\<rparr>)
        \<and> (\<forall>i. i \<noteq> sh_id s \<longrightarrow> get_shipment i db' = get_shipment i db \<and> find_exception i db' = find_exception i db)"
  using assms by (rule reconcile_shipment_effect)

text \<open>It commits whenever both amounts can be read.\<close>

lemma reconcile_shipment_returns:
  assumes inv: "db_inv db" and ident: "evaluation_identity run_id ekey db"
    and am: "amount_from (doc_extraction (shipment_document (sh_invoice_id s) db)) [''total_amount'', ''invoice_total''] = Inr it"
      "amount_from (rate_con_of s db) [''agreed_rate'', ''total_amount'', ''rate''] = Inr ar"
  shows "\<exists>r t db'. reconcile_shipment s run_id now sla src ekey db = Inr (r, t, db')"
proof -
  obtain ev where ev: "evaluation_of s now sla db = Inr ev"
    using am by (auto simp: evaluation_of_def evaluate_shipment_def Let_def)
  show ?thesis
  proof (cases rule: reconcile_shipment_steps [OF inv ident, where s = s and now = now and sla = sla and src = src, case_names overflow stored])
    case overflow
    moreover obtain found where "existing_result run_id ekey db = Inr found"
      using existing_result_unique [OF db_invD(3) [OF inv]] by blast
    ultimately show ?thesis
      using ev by (auto simp: reconcile_shipment_eq [OF db_invD(4) [OF inv]] Let_def split: prod.splits if_splits)
  qed blast
qed

text \<open>A concrete table state: one shipment with no documents yet, one workflow run.\<close>

definition sample_run :: workflow_run where
  "sample_run = \<lparr>wr_id = 1, wr_run_id = ''run-1'', wr_document_id = 1, wr_status = ''running'',
     wr_processing_status = ''running'', wr_posting_status = ''not_ready'', wr_interrupt_payload = None,
     wr_created_at = 0, wr_updated_at = 0\<rparr>"

definition sample_incomplete :: shipment where
  "sample_incomplete = sample_shipment\<lparr>sh_has_rate_con := False, sh_has_bol := False\<rparr>"

definition sample_db :: database where
  "sample_db = (fresh_database 0)\<lparr>shipments := [sample_incomplete], workflow_runs := [sample_run],
     uuid_pos := 2\<rparr>"

lemma sample_db_inv: "db_inv sample_db"
proof -
  have "''a'' \<in> (\<lambda>n. replicate n CHR ''a'') ` {..<2::nat}"
    by (rule image_eqI [of _ _ 1]) simp_all
  moreover have "shipment_ok sample_incomplete" by code_simp
  ultimately show ?thesis
    by (simp add: db_inv_def shipments_inv_def exceptions_inv_def results_inv_def results_constraints_def
        partial_unique_def sample_db_def fresh_database_def inj_replicate sample_incomplete_def sample_shipment_def)
qed

lemma sample_db_facts:
  "get_shipment (sh_id sample_incomplete) sample_db = Some sample_incomplete"
  "evaluation_identity (Some ''run-1'') None sample_db"
  by (simp_all add: sample_db_def fresh_database_def get_shipment_def evaluation_identity_def get_run_def sample_run_def)

lemma sample_db_amounts:
  "amount_from (doc_extraction (shipment_document (sh_invoice_id sample_incomplete) sample_db))
     [''total_amount'', ''invoice_total''] = Inr None"
  "amount_from (rate_con_of sample_incomplete sample_db) [''agreed_rate'', ''total_amount'', ''rate''] = Inr None"
  by code_simp+

theorem reconcile_shipment_correct_witness:
  "\<exists>r t db'. reconcile_shipment sample_incomplete (Some ''run-1'') 100 10 None None sample_db = Inr (r, t, db')
     \<and> db_inv db' \<and> settled t 100 10 db'"
proof -
  obtain r t db' where
    run: "reconcile_shipment sample_incomplete (Some ''run-1'') 100 10 None None sample_db = Inr (r, t, db')"
    using reconcile_shipment_returns [OF sample_db_inv sample_db_facts(2) sample_db_amounts] by blast
  from reconcile_shipment_correct [OF sample_db_inv sample_db_facts(2,1), of 100 10 None] run
  show ?thesis by auto
qed

section \<open>Repeating a reconciliation\<close>

lemma evaluate_shipment_restamp:
  "evaluate_shipment (s\<lparr>sh_reconciliation_status := st, sh_updated_at := u\<rparr>) i r b p now sla =
   map_sum id (\<lambda>ev. ev\<lparr>evn_shipment := (evn_shipment ev)\<lparr>sh_updated_at := u\<rparr>\<rparr>) (evaluate_shipment s i r b p now sla)"
  by (simp add: evaluate_shipment_def Let_def split: sum.split)

lemma store_result_row:
  assumes "results_inv db" and "existing_result run_id ekey db = Inr found"
    and "store_result ev run_id src ekey found db = (r, db')"
  shows "r \<in> set (reconciliation_results db')" "rr_shipment_id r = sh_id (evn_shipment ev)"
    "rr_evaluation_source r = src" "rr_evaluation_key r = ekey" "rr_checks r = evn_checks ev"
    "rr_missing_docs r = evn_missing_docs ev" "rr_exception_reasons r = evn_exception_reasons ev"
    "run_id \<noteq> None \<Longrightarrow> rr_run_id r = run_id"
proof -
  have mem: "x \<in> set (reconciliation_results db)" if "found = Some x" for x
    using assms(2) that by (auto simp: existing_result_unique [OF assms(1)] find_Some_iff split: option.splits)
  have run: "rr_run_id x = run_id" if "found = Some x" "run_id \<noteq> None" for x
    using assms(2) that by (auto simp: existing_result_unique [OF assms(1)] find_Some_iff split: option.splits)
  show "r \<in> set (reconciliation_results db')"
    using assms(3) mem by (auto simp: store_result_def fresh_uuid_def Let_def set_row_mem split: option.splits)
  show "rr_shipment_id r = sh_id (evn_shipment ev)" "rr_evaluation_source r = src" "rr_evaluation_key r = ekey"
    "rr_checks r = evn_checks ev" "rr_missing_docs r = evn_missing_docs ev"
    "rr_exception_reasons r = evn_exception_reasons ev"
    using assms(3) by (auto simp: store_result_def fresh_uuid_def Let_def split: option.splits)
  show "rr_run_id r = run_id" if "run_id \<noteq> None"
    using assms(3) run that by (auto simp: store_result_def fresh_uuid_def Let_def split: option.splits)
qed

text \<open>A row that already carries the evaluation is found again and rewritten to itself.\<close>

lemma store_result_again:
  assumes inv: "results_inv db" and r: "r \<in> set (reconciliation_results db)"
    and key: "rr_evaluation_key r = ekey" and run: "run_id \<noteq> None \<Longrightarrow> rr_run_id r = run_id"
    and some: "run_id \<noteq> None \<or> ekey \<noteq> None"
    and same: "rr_shipment_id r = sh_id (evn_shipment ev)" "rr_evaluation_source r = src"
      "rr_checks r = evn_checks ev" "rr_missing_docs r = evn_missing_docs ev"
      "rr_exception_reasons r = evn_exception_reasons ev"
  shows "existing_result run_id ekey db = Inr (Some r)" "store_result ev run_id src ekey (Some r) db = (r, db)"
proof -
  have uniq: "partial_unique rr_run_id (reconciliation_results db)"
      "partial_unique rr_evaluation_key (reconciliation_results db)" "distinct (map rr_id (reconciliation_results db))"
    using inv by (simp_all add: results_inv_def results_constraints_def)
  show "existing_result run_id ekey db = Inr (Some r)"
    using partial_unique_find_mem [OF uniq(1) r] partial_unique_find_mem [OF uniq(2) r] key run some
    by (auto simp: existing_result_unique [OF inv] split: option.split)
  show "store_result ev run_id src ekey (Some r) db = (r, db)"
    using set_row_same [OF uniq(3) r] key same by (simp add: store_result_def Let_def flip: same key)
qed

lemma with_rate_confirmation_again:
  "rate_confirmations db' = rate_confirmations db \<Longrightarrow>
   with_rate_confirmation ((with_rate_confirmation s db)\<lparr>sh_reconciliation_status := st, sh_updated_at := u\<rparr>) db' =
   (with_rate_confirmation s db)\<lparr>sh_reconciliation_status := st, sh_updated_at := u\<rparr>"
  by (simp add: with_rate_confirmation_def)

lemma evaluation_of_again:
  assumes "documents db' = documents db" "rate_confirmations db' = rate_confirmations db"
  shows "evaluation_of ((with_rate_confirmation s db)\<lparr>sh_reconciliation_status := st, sh_updated_at := u\<rparr>) now sla db' =
    map_sum id (\<lambda>ev. ev\<lparr>evn_shipment := (evn_shipment ev)\<lparr>sh_updated_at := u\<rparr>\<rparr>) (evaluation_of s now sla db)"
proof -
  let ?t = "(with_rate_confirmation s db)\<lparr>sh_reconciliation_status := st, sh_updated_at := u\<rparr>"
  have docs: "sh_invoice_id ?t = sh_invoice_id s" "sh_rate_con_id ?t = sh_rate_con_id s"
      "sh_bol_id ?t = sh_bol_id s" "sh_pod_id ?t = sh_pod_id s" "sh_load_number ?t = sh_load_number s"
    by (simp_all add: with_rate_confirmation_def)
  have "(\<lambda>i. shipment_document i db') = (\<lambda>i. shipment_document i db)"
  proof
    show "shipment_document i db' = shipment_document i db" for i
      by (cases i) (simp_all add: shipment_document_def get_document_def assms)
  qed
  then have "shipment_document i db' = shipment_document i db" for i by metis
  then show ?thesis
    unfolding evaluation_of_def rate_con_of_def docs assms with_rate_confirmation_again [OF assms(2)]
    by (simp add: evaluate_shipment_restamp cong del: option.case_cong_weak)
qed



end
