(* ===== verification/SLA_Scanner.thy ===== *)
theory SLA_Scanner
  imports Reconciliation "HOL-Library.Char_ord" "HOL-Library.List_Lexorder" "HOL-Library.Product_Lexorder"
begin

text \<open>
  The scheduled missing-document scan (\<open>app/services/missing_document_sla.py\<close>, second
  half): claim the oldest overdue shipment without an active exception, reconcile it in
  its own transaction, and repeat until none is left. Rows locked by other transactions
  are skipped (\<open>SKIP LOCKED\<close>); which ones are locked at the n-th claim is an argument.
  The scan is a \<open>while\<close> loop without a bound of its own, so it is a
  \<open>partial_function\<close>, and its termination is a theorem.
\<close>

definition active_exception :: "shipment \<Rightarrow> database \<Rightarrow> bool" where
  "active_exception s db \<longleftrightarrow> list_ex (\<lambda>x. ex_shipment_id x = sh_id s
     \<and> ex_kind x = MISSING_DOCUMENT_EXCEPTION_KIND \<and> ex_status x = ''active'') (shipment_exceptions db)"

definition due_shipments :: "datetime \<Rightarrow> timedelta \<Rightarrow> database \<Rightarrow> shipment list" where
  "due_shipments now sla db = filter (\<lambda>s. sh_created_at s \<le> now - sla
     \<and> (\<not> sh_has_invoice s \<or> \<not> sh_has_rate_con s \<or> \<not> sh_has_bol s \<or> \<not> sh_has_pod s)
     \<and> \<not> active_exception s db) (shipments db)"

definition evaluation_key_of :: "shipment \<Rightarrow> policy_result \<Rightarrow> string" where
  "evaluation_key_of s policy = ''missing-docs-sla:'' @ sh_id s @ '':'' @ isoformat (pol_deadline_at policy)
     @ '':'' @ py_join '','' (pol_missing_docs policy)"

definition claim_and_evaluate_one ::
  "datetime \<Rightarrow> timedelta \<Rightarrow> uuid list \<Rightarrow> database \<Rightarrow> (bool \<times> database) result" where
  "claim_and_evaluate_one now sla locked db =
     (case sort_key (\<lambda>s. (sh_created_at s, sh_id s))
             (filter (\<lambda>s. sh_id s \<notin> set locked) (due_shipments now sla db)) of
        [] \<Rightarrow> Inr (False, db)
      | s # _ \<Rightarrow>
          (let policy = evaluate_missing_document_policy s now sla in
           case reconcile_shipment s None now sla (Some ''scheduled_sla'')
                  (Some (evaluation_key_of s policy)) db of
             Inl e \<Rightarrow> Inl e
           | Inr (_, _, db) \<Rightarrow> Inr (True, db)))"

text \<open>The claims before a failing one stay committed, so the database is returned with the
  raised error.\<close>

partial_function (option) scan_missing_document_slas ::
  "datetime \<Rightarrow> timedelta \<Rightarrow> (nat \<Rightarrow> uuid list) \<Rightarrow> nat \<Rightarrow> database \<Rightarrow> (nat result \<times> database) option" where
  "scan_missing_document_slas now sla locked count db =
     (case claim_and_evaluate_one now sla (locked count) db of
        Inl e \<Rightarrow> Some (Inl e, db)
      | Inr (claimed, db) \<Rightarrow>
          if claimed then scan_missing_document_slas now sla locked (Suc count) db
          else Some (Inr count, db))"

declare scan_missing_document_slas.simps [code]

record scanner_health =
  sc_last_started_at :: "datetime option"
  sc_last_succeeded_at :: "datetime option"
  sc_last_error :: "string option"
  sc_consecutive_failures :: nat
  sc_last_result_count :: "nat option"

definition ScannerHealth :: scanner_health where
  "ScannerHealth = \<lparr>sc_last_started_at = None, sc_last_succeeded_at = None, sc_last_error = None,
     sc_consecutive_failures = 0, sc_last_result_count = None\<rparr>"

definition scanner_payload_status :: "scanner_health \<Rightarrow> string" where
  "scanner_payload_status h = (case sc_last_error h of None \<Rightarrow> ''ok''
     | Some e \<Rightarrow> if e = [] then ''ok'' else ''degraded'')"

definition run_scanner_iteration ::
  "scanner_health \<Rightarrow> datetime \<Rightarrow> nat result \<Rightarrow> bool \<times> scanner_health" where
  "run_scanner_iteration h now scanned =
     (let h = h\<lparr>sc_last_started_at := Some now\<rparr> in
      case scanned of
        Inl e \<Rightarrow> (False, h\<lparr>sc_last_error := Some ''scan_failed'',
                          sc_consecutive_failures := Suc (sc_consecutive_failures h)\<rparr>)
      | Inr count \<Rightarrow> (True, h\<lparr>sc_last_succeeded_at := Some now, sc_last_error := None,
                          sc_consecutive_failures := 0, sc_last_result_count := Some count\<rparr>))"

section \<open>Each claim settles its shipment\<close>

lemma active_exception_find:
  assumes "exceptions_inv db"
  shows "active_exception s db \<longleftrightarrow> (\<exists>x. find_exception (sh_id s) db = Some x \<and> ex_status x = ''active'')"
proof
  assume "active_exception s db"
  then obtain x where x: "x \<in> set (shipment_exceptions db)" "ex_shipment_id x = sh_id s" "ex_status x = ''active''"
    by (auto simp: active_exception_def list_ex_iff)
  then show "\<exists>x. find_exception (sh_id s) db = Some x \<and> ex_status x = ''active''"
    using find_exception_eq [OF assms x(1)] by auto
next
  assume "\<exists>x. find_exception (sh_id s) db = Some x \<and> ex_status x = ''active''"
  then show "active_exception s db"
    by (auto simp: active_exception_def list_ex_iff dest!: find_exception_Some)
qed

definition is_due :: "datetime \<Rightarrow> timedelta \<Rightarrow> shipment \<Rightarrow> shipment_exception option \<Rightarrow> bool" where
  "is_due now sla s x \<longleftrightarrow> sh_created_at s + sla \<le> now \<and> \<not> all_documents_present s
     \<and> (case x of None \<Rightarrow> True | Some x \<Rightarrow> ex_status x \<noteq> ''active'')"

lemma mem_due_shipments:
  "exceptions_inv db \<Longrightarrow> s \<in> set (due_shipments now sla db) \<longleftrightarrow>
     s \<in> set (shipments db) \<and> is_due now sla s (find_exception (sh_id s) db)"
  by (auto simp: due_shipments_def is_due_def active_exception_find all_documents_present_def
      split: option.splits)

lemma settled_not_due:
  assumes "settled s now sla db"
  shows "\<not> is_due now sla s (find_exception (sh_id s) db)"
  using assms policy_overdue_iff [of s now sla]
  by (auto simp: settled_def is_due_def exception_unchanged_def Let_def split: option.splits if_splits)

definition due_ids :: "datetime \<Rightarrow> timedelta \<Rightarrow> database \<Rightarrow> uuid set" where
  "due_ids now sla db = sh_id ` set (due_shipments now sla db)"

lemma due_ids_finite [simp]: "finite (due_ids now sla db)"
  by (simp add: due_ids_def)

lemma due_ids_iff:
  assumes "db_inv db"
  shows "i \<in> due_ids now sla db \<longleftrightarrow> (\<exists>s. get_shipment i db = Some s \<and> is_due now sla s (find_exception i db))"
proof -
  have "get_shipment i db = Some s \<longleftrightarrow> s \<in> set (shipments db) \<and> sh_id s = i" for s
    using db_invD(1) [OF assms] get_row_distinct [of sh_id "shipments db" s] get_row_key [of sh_id i "shipments db" s]
    by (auto simp: get_shipment_def shipments_inv_def)
  then show ?thesis
    by (auto simp: due_ids_def mem_due_shipments [OF db_invD(2) [OF assms]])
qed

lemma claim_cases:
  assumes inv: "db_inv db"
  obtains (none) "claim_and_evaluate_one now sla locked db = Inr (False, db)" "due_ids now sla db \<subseteq> set locked"
  | (overflow) "claim_and_evaluate_one now sla locked db = Inl OverflowError"
  | (claimed) s :: shipment and db' :: database where "claim_and_evaluate_one now sla locked db = Inr (True, db')" "db_inv db'"
      "sh_id s \<in> due_ids now sla db" "due_ids now sla db' = due_ids now sla db - {sh_id s}"
proof (cases "sort_key (\<lambda>s. (sh_created_at s, sh_id s)) (filter (\<lambda>s. sh_id s \<notin> set locked) (due_shipments now sla db))")
  case Nil
  then have "filter (\<lambda>s. sh_id s \<notin> set locked) (due_shipments now sla db) = []"
    by (metis set_empty set_sort)
  then have "due_ids now sla db \<subseteq> set locked" by (auto simp: due_ids_def filter_empty_conv)
  with Nil show thesis by (intro none) (simp_all add: claim_and_evaluate_one_def)
next
  case (Cons s rest)
  let ?key = "Some (evaluation_key_of s (evaluate_missing_document_policy s now sla))"
  let ?rec = "reconcile_shipment s None now sla (Some ''scheduled_sla'') ?key db"
  have "s \<in> set (sort_key (\<lambda>s. (sh_created_at s, sh_id s)) (filter (\<lambda>s. sh_id s \<notin> set locked) (due_shipments now sla db)))"
    by (simp add: Cons)
  then have due: "s \<in> set (due_shipments now sla db)" by simp
  then have "s \<in> set (shipments db)" by (simp add: due_shipments_def)
  then have get: "get_shipment (sh_id s) db = Some s"
    using db_invD(1) [OF inv] get_row_distinct [of sh_id "shipments db" s]
    by (simp add: get_shipment_def shipments_inv_def)
  have id: "evaluation_identity None ?key db" by (simp add: evaluation_identity_def)
  note ok = reconcile_shipment_effect [OF inv id get, of now sla "Some ''scheduled_sla''"]
  show thesis
  proof (cases ?rec)
    case (Inl e)
    with ok Cons show thesis by (intro overflow) (simp add: claim_and_evaluate_one_def)
  next
    case (Inr p)
    obtain r t db' where p: "p = (r, t, db')" by (cases p)
    from ok Inr p have post: "db_inv db'" "get_shipment (sh_id s) db' = Some t" "settled t now sla db'"
        "\<And>i. i \<noteq> sh_id s \<Longrightarrow> get_shipment i db' = get_shipment i db \<and> find_exception i db' = find_exception i db"
      by auto
    have "sh_id t = sh_id s" using post(2) by (rule ship_store.look_rkey)
    then have "\<not> is_due now sla t (find_exception (sh_id s) db')" using settled_not_due [OF post(3)] by simp
    moreover have "due_ids now sla db' = due_ids now sla db - {sh_id s}"
    proof (intro set_eqI)
      fix i show "i \<in> due_ids now sla db' \<longleftrightarrow> i \<in> due_ids now sla db - {sh_id s}"
        using calculation post(2) post(4) [of i]
        by (cases "i = sh_id s") (simp_all add: due_ids_iff [OF inv] due_ids_iff [OF post(1)])
    qed
    ultimately show thesis
      using post(1) due Inr p Cons
      by (intro claimed [of db' s]) (simp_all add: claim_and_evaluate_one_def due_ids_def)
  qed
qed

section \<open>The scan ends\<close>

lemma scan_terminates_aux:
  assumes "db_inv db" and "card (due_ids now sla db) = n"
  shows "\<exists>res db'. scan_missing_document_slas now sla locked count db = Some (res, db') \<and> db_inv db'
    \<and> due_ids now sla db' \<subseteq> due_ids now sla db
    \<and> (case res of Inl e \<Rightarrow> e = OverflowError
       | Inr k \<Rightarrow> k = count + card (due_ids now sla db - due_ids now sla db') \<and> due_ids now sla db' \<subseteq> set (locked k))"
  using assms
proof (induction n arbitrary: db count rule: less_induct)
  case (less n)
  show ?case
  proof (cases rule: claim_cases [OF less.prems(1), where now = now and sla = sla and locked = "locked count", case_names none overflow claimed])
    case none
    then show ?thesis
      using less.prems(1) by (subst scan_missing_document_slas.simps) auto
  next
    case overflow
    then show ?thesis
      using less.prems(1) by (subst scan_missing_document_slas.simps) auto
  next
    case (claimed s db1)
    have lt: "card (due_ids now sla db1) < n"
      using claimed(3,4) less.prems(2) by (metis card_Diff1_less due_ids_finite)
    from less.IH [OF lt claimed(2) refl, of "Suc count"] obtain res db' where
      step: "scan_missing_document_slas now sla locked (Suc count) db1 = Some (res, db')"
      and post: "db_inv db'" "due_ids now sla db' \<subseteq> due_ids now sla db1"
      and res: "case res of Inl e \<Rightarrow> e = OverflowError
       | Inr k \<Rightarrow> k = Suc count + card (due_ids now sla db1 - due_ids now sla db') \<and> due_ids now sla db' \<subseteq> set (locked k)"
      by blast
    have "due_ids now sla db - due_ids now sla db' = insert (sh_id s) (due_ids now sla db1 - due_ids now sla db')"
      using claimed(3,4) post(2) by auto
    then have card: "card (due_ids now sla db - due_ids now sla db') = Suc (card (due_ids now sla db1 - due_ids now sla db'))"
      using claimed(4) by simp
    have "scan_missing_document_slas now sla locked count db = Some (res, db')"
      by (subst scan_missing_document_slas.simps) (simp add: claimed(1) step)
    with post res card claimed(4) show ?thesis by (auto split: sum.splits)
  qed
qed



end
