(* ===== verification/Audit_Log.thy ===== *)
theory Audit_Log
  imports Reconciliation
begin

text \<open>
  The append-only audit trail (\<open>app/services/audit.py\<close>): \<open>INSERT ... ON CONFLICT (run_id,
  event_type) DO NOTHING\<close>, so an event is recorded at most once per run and a repeated
  one changes no row. A run that does not exist is a foreign-key violation.
\<close>

definition log_audit_event ::
  "string \<Rightarrow> string \<Rightarrow> jdict option \<Rightarrow> string \<Rightarrow> database \<Rightarrow> database result" where
  "log_audit_event run_id event_type payload actor db =
     (let i = Suc (audit_seq db); db' = db\<lparr>audit_seq := i\<rparr> in
      if list_ex (\<lambda>a. al_run_id a = run_id \<and> al_event_type a = event_type) (audit_logs db) then Inr db'
      else if get_run run_id db = None then Inl IntegrityError
      else Inr (db'\<lparr>audit_logs := audit_logs db @
             [\<lparr>al_id = i, al_run_id = run_id, al_event_type = event_type, al_payload = payload,
               al_actor = actor, al_created_at = pg_now db\<rparr>]\<rparr>))"

definition audit_key :: "workflow_audit_log \<Rightarrow> string \<times> string" where
  "audit_key a = (al_run_id a, al_event_type a)"

definition logged :: "string \<Rightarrow> string \<Rightarrow> database \<Rightarrow> bool" where
  "logged run_id event_type db \<longleftrightarrow> (run_id, event_type) \<in> audit_key ` set (audit_logs db)"

definition audit_inv :: "database \<Rightarrow> bool" where
  "audit_inv db \<longleftrightarrow> distinct (map audit_key (audit_logs db))
     \<and> sorted_wrt (<) (map al_id (audit_logs db)) \<and> (\<forall>a \<in> set (audit_logs db). al_id a \<le> audit_seq db)
     \<and> (\<forall>a \<in> set (audit_logs db). get_run (al_run_id a) db \<noteq> None)"

lemma list_ex_logged:
  "list_ex (\<lambda>a. al_run_id a = run_id \<and> al_event_type a = event_type) (audit_logs db) = logged run_id event_type db"
  by (auto simp: list_ex_iff logged_def audit_key_def)

text \<open>What one call does, and what it leaves alone.\<close>

definition same_but_audit :: "database \<Rightarrow> database \<Rightarrow> bool" where
  "same_but_audit db db' \<longleftrightarrow> db'\<lparr>audit_logs := [], audit_seq := 0\<rparr> = db\<lparr>audit_logs := [], audit_seq := 0\<rparr>"

lemma same_but_audit_fields:
  assumes "same_but_audit db db'"
  shows "shipments db' = shipments db" "documents db' = documents db" "workflow_runs db' = workflow_runs db"
    "rate_confirmations db' = rate_confirmations db" "reconciliation_results db' = reconciliation_results db"
    "shipment_exceptions db' = shipment_exceptions db" "exception_events db' = exception_events db"
    "review_decisions db' = review_decisions db" "notifications db' = notifications db"
    "uuid4_at db' = uuid4_at db" "uuid_pos db' = uuid_pos db" "pg_now db' = pg_now db"
proof -
  from assms have eq: "db'\<lparr>audit_logs := [], audit_seq := 0\<rparr> = db\<lparr>audit_logs := [], audit_seq := 0\<rparr>"
    by (simp add: same_but_audit_def)
  show "shipments db' = shipments db" using arg_cong [OF eq, of shipments] by simp
  show "documents db' = documents db" using arg_cong [OF eq, of documents] by simp
  show "workflow_runs db' = workflow_runs db" using arg_cong [OF eq, of workflow_runs] by simp
  show "rate_confirmations db' = rate_confirmations db" using arg_cong [OF eq, of rate_confirmations] by simp
  show "reconciliation_results db' = reconciliation_results db" using arg_cong [OF eq, of reconciliation_results] by simp
  show "shipment_exceptions db' = shipment_exceptions db" using arg_cong [OF eq, of shipment_exceptions] by simp
  show "exception_events db' = exception_events db" using arg_cong [OF eq, of exception_events] by simp
  show "review_decisions db' = review_decisions db" using arg_cong [OF eq, of review_decisions] by simp
  show "notifications db' = notifications db" using arg_cong [OF eq, of notifications] by simp
  show "uuid4_at db' = uuid4_at db" using arg_cong [OF eq, of uuid4_at] by simp
  show "uuid_pos db' = uuid_pos db" using arg_cong [OF eq, of uuid_pos] by simp
  show "pg_now db' = pg_now db" using arg_cong [OF eq, of pg_now] by simp
qed

lemma log_audit_event_frame:
  "log_audit_event r t p a db = Inr db' \<Longrightarrow> same_but_audit db db'"
  by (auto simp: log_audit_event_def same_but_audit_def Let_def split: if_splits)

lemma log_audit_event_returns:
  "get_run r db \<noteq> None \<Longrightarrow> \<exists>db'. log_audit_event r t p a db = Inr db'"
  by (auto simp: log_audit_event_def Let_def)

lemma log_audit_event_rows:
  "log_audit_event r t p a db = Inr db' \<Longrightarrow>
   (if logged r t db then audit_logs db' = audit_logs db
    else audit_logs db' = audit_logs db @ [\<lparr>al_id = Suc (audit_seq db), al_run_id = r, al_event_type = t,
            al_payload = p, al_actor = a, al_created_at = pg_now db\<rparr>] \<and> get_run r db \<noteq> None)
   \<and> audit_seq db' = Suc (audit_seq db)"
  by (auto simp: log_audit_event_def Let_def list_ex_logged split: if_splits)

lemma log_audit_event_logged:
  "log_audit_event r t p a db = Inr db' \<Longrightarrow> logged r' t' db' \<longleftrightarrow> logged r' t' db \<or> (r' = r \<and> t' = t)"
  using log_audit_event_rows [of r t p a db db'] by (auto simp: logged_def audit_key_def split: if_splits)

lemma log_audit_event_inv:
  assumes "log_audit_event r t p a db = Inr db'" and inv: "audit_inv db"
  shows "audit_inv db'"
proof -
  note rows = log_audit_event_rows [OF assms(1)]
  have run: "get_run i db' = get_run i db" for i
    using same_but_audit_fields(3) [OF log_audit_event_frame [OF assms(1)]] by (simp add: get_run_def)
  show ?thesis
  proof (cases "logged r t db")
    case True
    with rows inv show ?thesis by (auto simp: audit_inv_def run le_SucI)
  next
    case False
    with rows inv show ?thesis
      by (auto simp: audit_inv_def run le_SucI logged_def audit_key_def sorted_wrt_append less_Suc_eq_le)
  qed
qed

lemma db_inv_same_but_audit: "same_but_audit db db' \<Longrightarrow> db_inv db \<Longrightarrow> db_inv db'"
  unfolding db_inv_def
  by (intro conjI; elim conjE)
    (erule shipments_inv_pool exceptions_inv_pool results_inv_pool; simp add: same_but_audit_fields
      | simp add: same_but_audit_fields)+

text \<open>C12: the audit trail is append-only and idempotent: a logged event leaves every earlier
  row in place, is there once, and logging it again, with any payload, adds no row.\<close>

theorem log_audit_event_once:
  assumes "audit_inv db" and "log_audit_event r t p a db = Inr db'"
  shows "audit_inv db' \<and> (\<exists>new. audit_logs db' = audit_logs db @ new)
    \<and> length (filter (\<lambda>x. audit_key x = (r, t)) (audit_logs db')) = 1
    \<and> (\<forall>q b. \<exists>db''. log_audit_event r t q b db' = Inr db'' \<and> audit_logs db'' = audit_logs db')"
proof (intro conjI allI)
  show inv': "audit_inv db'" using assms(2,1) by (rule log_audit_event_inv)
  show "\<exists>new. audit_logs db' = audit_logs db @ new"
    using log_audit_event_rows [OF assms(2)] by (auto split: if_splits)
  have logged: "logged r t db'" using log_audit_event_logged [OF assms(2)] by simp
  then obtain x where "x \<in> set (audit_logs db')" "audit_key x = (r, t)" by (auto simp: logged_def)
  then have "get_row audit_key (r, t) (audit_logs db') = Some x"
    using inv' get_row_distinct [of audit_key "audit_logs db'" x] by (simp add: audit_inv_def)
  then show "length (filter (\<lambda>x. audit_key x = (r, t)) (audit_logs db')) = 1"
    using inv' distinct_filter_unique [of audit_key "audit_logs db'" "(r, t)"] by (simp add: audit_inv_def)
  show "\<exists>db''. log_audit_event r t q b db' = Inr db'' \<and> audit_logs db'' = audit_logs db'" for q b
    using logged by (simp add: log_audit_event_def Let_def list_ex_logged)
qed

theorem log_audit_event_once_witness:
  "\<exists>db'. log_audit_event ''run-1'' ''completed'' None ''system'' sample_db = Inr db'
    \<and> length (filter (\<lambda>x. audit_key x = (''run-1'', ''completed'')) (audit_logs db')) = 1"
proof -
  have inv: "audit_inv sample_db" by (simp add: audit_inv_def sample_db_def fresh_database_def)
  have "get_run ''run-1'' sample_db \<noteq> None"
    by (simp add: get_run_def sample_db_def fresh_database_def sample_run_def)
  from log_audit_event_returns [OF this, of "''completed''" None "''system''"] obtain db' where
    run: "log_audit_event ''run-1'' ''completed'' None ''system'' sample_db = Inr db'" by blast
  with log_audit_event_once [OF inv run] show ?thesis by blast
qed

end
