(* ===== verification/Json_Text.thy ===== *)
theory Json_Text
  imports PyJson
begin

text \<open>
  JSON text: \<open>json.loads\<close> as the services use it on model output and queue entries, and
  the compact printer behind \<open>model_dump_json\<close> and \<open>json.dumps\<close> (separators are
  arguments). The reader follows CPython's scanner: strict strings, its number syntax with
  the \<open>NaN\<close> and \<open>Infinity\<close> literals, last value wins for a repeated key, and nothing
  but white space after the value. An escape beyond the character type of this
  development (code point 256 and up) is refused. \<open>json_loads_dumps\<close> is the round trip.
\<close>

section \<open>Reading\<close>

definition json_space :: "char \<Rightarrow> bool" where
  "json_space c \<longleftrightarrow> c = CHR '' '' \<or> c = CHR 0x09 \<or> c = CHR 0x0A \<or> c = CHR 0x0D"

definition skip_space :: "string \<Rightarrow> string" where
  "skip_space = dropWhile json_space"

definition quote :: char where "quote = CHR 0x22"
definition backslash :: char where "backslash = CHR 0x5C"

definition hex_value :: "char \<Rightarrow> nat option" where
  "hex_value c = (let n = (of_char c :: nat) in
     if 48 \<le> n \<and> n \<le> 57 then Some (n - 48)
     else if 97 \<le> n \<and> n \<le> 102 then Some (n - 87)
     else if 65 \<le> n \<and> n \<le> 70 then Some (n - 55) else None)"

definition unescape :: "char \<Rightarrow> char option" where
  "unescape c = (if c = quote \<or> c = backslash \<or> c = CHR ''/'' then Some c
     else if c = CHR ''b'' then Some (char_of (8::nat)) else if c = CHR ''f'' then Some (char_of (12::nat))
     else if c = CHR ''n'' then Some (char_of (10::nat)) else if c = CHR ''r'' then Some (char_of (13::nat))
     else if c = CHR ''t'' then Some (char_of (9::nat)) else None)"

definition unicode_escape :: "char \<Rightarrow> char \<Rightarrow> char \<Rightarrow> char \<Rightarrow> char option" where
  "unicode_escape a b c d = (case (hex_value a, hex_value b, hex_value c, hex_value d) of
     (Some w, Some x, Some y, Some z) \<Rightarrow>
       if w = 0 \<and> x = 0 then Some (char_of (16 * y + z)) else None
   | _ \<Rightarrow> None)"

text \<open>The rest of a string literal, after its opening quote.\<close>

fun read_string :: "string \<Rightarrow> string \<Rightarrow> (string \<times> string) option" where
  "read_string acc [] = None"
| "read_string acc (c # cs) =
     (if c = quote then Some (rev acc, cs)
      else if c = backslash then
        (case cs of [] \<Rightarrow> None
         | e # ds \<Rightarrow>
             if e = CHR ''u'' then
               (case ds of a # b # x # y # es \<Rightarrow>
                  (case unicode_escape a b x y of None \<Rightarrow> None | Some u \<Rightarrow> read_string (u # acc) es)
                | _ \<Rightarrow> None)
             else (case unescape e of None \<Rightarrow> None | Some u \<Rightarrow> read_string (u # acc) ds))
      else if (of_char c :: nat) < 32 then None
      else read_string (c # acc) cs)"

definition digits_of :: "string \<Rightarrow> string \<times> string" where
  "digits_of s = (takeWhile is_digit s, dropWhile is_digit s)"

definition read_fraction :: "string \<Rightarrow> string \<times> string" where
  "read_fraction s = (case s of c # cs \<Rightarrow>
       (case digits_of cs of (ds, rest) \<Rightarrow> if c = CHR ''.'' \<and> ds \<noteq> [] then (c # ds, rest) else ([], s))
     | [] \<Rightarrow> ([], s))"

definition read_exponent :: "string \<Rightarrow> string \<times> string" where
  "read_exponent s = (case s of [] \<Rightarrow> ([], s)
     | c # cs \<Rightarrow>
        (let (sign, body) = (case cs of x # xs \<Rightarrow> if x = CHR ''+'' \<or> x = CHR ''-'' then ([x], xs) else ([], cs)
                             | [] \<Rightarrow> ([], cs));
             (ds, rest) = digits_of body in
         if (c = CHR ''e'' \<or> c = CHR ''E'') \<and> ds \<noteq> [] then (c # sign @ ds, rest) else ([], s)))"

definition read_number :: "string \<Rightarrow> (json \<times> string) option" where
  "read_number s =
     (let (neg, body) = (case s of c # cs \<Rightarrow> if c = CHR ''-'' then (True, cs) else (False, s) | [] \<Rightarrow> (False, s));
          (ds, rest) = digits_of body;
          (int_digits, rest) = (case ds of d # ds' \<Rightarrow> if d = CHR ''0'' then ([d], ds' @ rest) else (ds, rest)
                                | [] \<Rightarrow> ([], rest));
          (frac, rest) = read_fraction rest;
          (ex, rest) = read_exponent rest in
      if int_digits = [] then None
      else if frac = [] \<and> ex = [] then
        Some (JInt (if neg then - digits_val int_digits else digits_val int_digits), rest)
      else (case parse_float ((if neg then ''-'' else []) @ int_digits @ frac @ ex) of
              Some f \<Rightarrow> Some (JFloat f, rest) | None \<Rightarrow> None))"

definition strip_prefix :: "string \<Rightarrow> string \<Rightarrow> string option" where
  "strip_prefix p s = (if starts_with p s then Some (drop (length p) s) else None)"

fun first_literal :: "(string \<times> json) list \<Rightarrow> string \<Rightarrow> (json \<times> string) option" where
  "first_literal [] s = None"
| "first_literal ((p, v) # ps) s =
     (case strip_prefix p s of Some rest \<Rightarrow> Some (v, rest) | None \<Rightarrow> first_literal ps s)"

definition literals :: "(string \<times> json) list" where
  "literals = [(''null'', JNull), (''true'', JBool True), (''false'', JBool False), (''NaN'', JFloat NaN),
     (''Infinity'', JFloat PInf), (''-Infinity'', JFloat NInf)]"

definition read_scalar :: "string \<Rightarrow> (json \<times> string) option" where
  "read_scalar s = (case first_literal literals s of Some r \<Rightarrow> Some r | None \<Rightarrow> read_number s)"

text \<open>A value; the fuel bounds the nesting and the length of the containers.\<close>

fun read_value :: "nat \<Rightarrow> string \<Rightarrow> (json \<times> string) option"
  and read_items :: "nat \<Rightarrow> json list \<Rightarrow> string \<Rightarrow> (json \<times> string) option"
  and read_members :: "nat \<Rightarrow> jdict \<Rightarrow> string \<Rightarrow> (json \<times> string) option" where
  "read_value 0 s = None"
| "read_value (Suc n) s = (case s of [] \<Rightarrow> None
     | c # cs \<Rightarrow>
         if c = quote then map_option (\<lambda>(t, rest). (JStr t, rest)) (read_string [] cs)
         else if c = CHR ''['' then
           (case skip_space cs of d # ds \<Rightarrow> if d = CHR '']'' then Some (JArr [], ds) else read_items n [] (d # ds)
            | [] \<Rightarrow> None)
         else if c = CHR ''{'' then
           (case skip_space cs of d # ds \<Rightarrow> if d = CHR ''}'' then Some (JObj [], ds) else read_members n [] (d # ds)
            | [] \<Rightarrow> None)
         else read_scalar s)"
| "read_items 0 acc s = None"
| "read_items (Suc n) acc s = (case read_value n s of None \<Rightarrow> None
     | Some (v, rest) \<Rightarrow> (case skip_space rest of [] \<Rightarrow> None
        | d # ds \<Rightarrow> if d = CHR '']'' then Some (JArr (acc @ [v]), ds)
                   else if d = CHR '','' then read_items n (acc @ [v]) (skip_space ds) else None))"
| "read_members 0 acc s = None"
| "read_members (Suc n) acc s = (case s of [] \<Rightarrow> None
     | c # cs \<Rightarrow> if c \<noteq> quote then None else
        (case read_string [] cs of None \<Rightarrow> None
         | Some (k, rest) \<Rightarrow> (case skip_space rest of [] \<Rightarrow> None
           | e # es \<Rightarrow> if e \<noteq> CHR '':'' then None else
              (case read_value n (skip_space es) of None \<Rightarrow> None
               | Some (v, rest) \<Rightarrow> (case skip_space rest of [] \<Rightarrow> None
                 | d # ds \<Rightarrow> if d = CHR ''}'' then Some (JObj (dset k v acc), ds)
                            else if d = CHR '','' then read_members n (dset k v acc) (skip_space ds) else None)))))"

definition json_loads :: "string \<Rightarrow> json option" where
  "json_loads s = (case read_value (2 * length s + 2) (skip_space s) of
     Some (v, rest) \<Rightarrow> if skip_space rest = [] then Some v else None
   | None \<Rightarrow> None)"

section \<open>Printing\<close>

text \<open>The escapes of \<open>json.dumps\<close>; a text of the model never needs a surrogate pair.\<close>

definition json_escape :: "char \<Rightarrow> string" where
  "json_escape c = (let n = (of_char c :: nat) in
     if c = quote \<or> c = backslash then [backslash, c]
     else if n = 8 then [backslash, CHR ''b''] else if n = 12 then [backslash, CHR ''f'']
     else if n = 10 then [backslash, CHR ''n''] else if n = 13 then [backslash, CHR ''r'']
     else if n = 9 then [backslash, CHR ''t'']
     else if n < 32 \<or> 126 < n then backslash # ''u00'' @ [hex_digit (n div 16), hex_digit (n mod 16)]
     else [c])"

definition json_string :: "string \<Rightarrow> string" where
  "json_string s = quote # concat (map json_escape s) @ [quote]"

fun json_dumps :: "string \<Rightarrow> string \<Rightarrow> json \<Rightarrow> string" where
  "json_dumps isep ksep JNull = ''null''"
| "json_dumps isep ksep (JBool b) = (if b then ''true'' else ''false'')"
| "json_dumps isep ksep (JInt i) = show_int i"
| "json_dumps isep ksep (JFloat f) = (case f of NaN \<Rightarrow> ''NaN'' | PInf \<Rightarrow> ''Infinity'' | NInf \<Rightarrow> ''-Infinity''
      | Fin _ \<Rightarrow> repr_float f)"
| "json_dumps isep ksep (JStr s) = json_string s"
| "json_dumps isep ksep (JArr xs) = ''['' @ py_join isep (map (json_dumps isep ksep) xs) @ '']''"
| "json_dumps isep ksep (JObj d) =
     ''{'' @ py_join isep (map (\<lambda>kv. json_string (fst kv) @ ksep @ json_dumps isep ksep (snd kv)) d) @ ''}''"

section \<open>Decimal text\<close>

lemma digit_char:
  assumes "0 \<le> d" "d < (10::int)"
  shows "(of_char (char_of (48 + d) :: char) :: nat) = 48 + nat d"
    "(of_char (char_of (48 + d) :: char) :: int) = 48 + d"
proof -
  have c: "(char_of (48 + d) :: char) = char_of (48 + nat d)"
    using assms char_of_nat [of "48 + nat d", where 'a = int] by simp
  show "(of_char (char_of (48 + d) :: char) :: nat) = 48 + nat d"
    using assms by (simp add: c)
  show "(of_char (char_of (48 + d) :: char) :: int) = 48 + d"
    using assms by simp
qed

lemma is_digit_digit_char: "0 \<le> d \<Longrightarrow> d < (10::int) \<Longrightarrow> is_digit (char_of (48 + d))"
  by (simp add: is_digit_def digit_char)

lemma digit_val_digit_char: "0 \<le> d \<Longrightarrow> d < (10::int) \<Longrightarrow> digit_val (char_of (48 + d)) = d"
  by (simp add: digit_val_def digit_char)

lemma show_digits_nonempty [simp]: "show_digits i \<noteq> []"
  by (subst show_digits.simps) simp

lemma show_digits_is_digit: "0 \<le> i \<Longrightarrow> list_all is_digit (show_digits i)"
proof (induction i rule: show_digits.induct)
  case (1 i)
  then show ?case
    by (subst show_digits.simps) (auto simp: is_digit_digit_char)
qed

lemma digits_val_snoc: "digits_val (s @ [c]) = 10 * digits_val s + digit_val c"
  by (simp add: digits_val_def)

lemma digits_val_show_digits: "0 \<le> i \<Longrightarrow> digits_val (show_digits i) = i"
proof (induction i rule: show_digits.induct)
  case (1 i)
  show ?case
  proof (cases "i < 10")
    case True
    with 1 show ?thesis
      by (subst show_digits.simps) (simp add: digits_val_def digit_val_digit_char)
  next
    case False
    with 1 have "digits_val (show_digits (i div 10)) = i div 10" by simp
    with False show ?thesis
      by (subst show_digits.simps) (simp add: digits_val_snoc digit_val_digit_char)
  qed
qed

lemma hd_show_digits: "0 < i \<Longrightarrow> hd (show_digits i) \<noteq> CHR ''0''"
proof (induction i rule: show_digits.induct)
  case (1 i)
  show ?case
  proof (cases "i < 10")
    case True
    have "(of_char (char_of (48 + i) :: char) :: int) \<noteq> of_char CHR ''0''"
      using 1 True by (simp add: digit_char)
    then have "char_of (48 + i) \<noteq> CHR ''0''" by metis
    with True show ?thesis by (subst show_digits.simps) simp
  next
    case False
    with 1 show ?thesis by (subst show_digits.simps) simp
  qed
qed

lemma show_digits_0: "show_digits 0 = ''0''"
  by (subst show_digits.simps) (simp add: char_of_def)

definition delimited :: "string \<Rightarrow> bool" where
  "delimited s \<longleftrightarrow> (case s of [] \<Rightarrow> True
     | c # _ \<Rightarrow> \<not> is_digit c \<and> c \<noteq> CHR ''.'' \<and> c \<noteq> CHR ''e'' \<and> c \<noteq> CHR ''E'')"

lemma digits_of_append:
  "list_all is_digit ds \<Longrightarrow> delimited rest \<Longrightarrow> digits_of (ds @ rest) = (ds, rest)"
  by (induction ds) (auto simp: digits_of_def delimited_def split: list.splits)

lemma read_number_tail:
  assumes "delimited rest"
  shows "read_fraction rest = ([], rest)" "read_exponent rest = ([], rest)"
  using assms
  by (auto simp: read_fraction_def read_exponent_def delimited_def Let_def split: list.splits prod.splits)

lemma read_number_show_int:
  assumes "delimited rest"
  shows "read_number (show_int i @ rest) = Some (JInt i, rest)"
proof -
  have pos: "read_number ((if neg then ''-'' else []) @ show_digits j @ rest) =
      Some (JInt (if neg then - j else j), rest)" if j: "0 \<le> j" for j neg
  proof -
    obtain d ds where dds: "show_digits j = d # ds" using show_digits_nonempty by (cases "show_digits j") auto
    have dig: "list_all is_digit (show_digits j)" using j by (rule show_digits_is_digit)
    then have "is_digit d" by (simp add: dds)
    then have "d \<noteq> CHR ''-''" by (auto simp: is_digit_def)
    moreover have "d = CHR ''0'' \<Longrightarrow> ds = []"
      using hd_show_digits [of j] dds j show_digits_0 by (cases "j = 0") auto
    ultimately show ?thesis
      using digits_of_append [OF dig assms] digits_val_show_digits [OF j]
      by (auto simp: read_number_def dds Let_def read_number_tail [OF assms])
  qed
  show ?thesis
    using pos [of "- i" True] pos [of i False] by (cases "i < 0") (simp_all add: show_int_def)
qed

section \<open>Strings\<close>

lemma hex_value_hex_digit: "n < 16 \<Longrightarrow> hex_value (hex_digit n) = Some n"
  by (auto simp: hex_value_def hex_digit_def Let_def)

lemma read_string_escape:
  "read_string acc (json_escape c @ rest) = read_string (c # acc) rest"
proof -
  let ?n = "of_char c :: nat"
  have esc: "of_char c = (k::nat) \<Longrightarrow> c = char_of k" for k by (metis char_of_char)
  have n: "?n < 256" by (rule of_char_less_256)
  have "hex_value CHR ''0'' = Some 0" by (simp add: hex_value_def)
  moreover have lt: "?n div 16 < 16" using n by (simp add: div_less_iff_less_mult)
  ultimately have u: "unicode_escape CHR ''0'' CHR ''0'' (hex_digit (?n div 16)) (hex_digit (?n mod 16)) = Some c"
    using hex_value_hex_digit [of "?n div 16"] hex_value_hex_digit [of "?n mod 16"] lt
    by (simp add: unicode_escape_def)
  have bs: "backslash \<noteq> quote" by (simp add: backslash_def quote_def)
  have ne: "quote \<noteq> CHR ''u''" "backslash \<noteq> CHR ''u''" by (simp_all add: backslash_def quote_def)
  show ?thesis
    using u bs ne
    by (auto simp: json_escape_def Let_def unescape_def quote_def backslash_def dest!: esc)
qed

lemma read_string_body:
  "read_string acc (concat (map json_escape s) @ quote # rest) = Some (rev acc @ s, rest)"
proof (induction s arbitrary: acc)
  case (Cons c s)
  then show ?case using read_string_escape [of acc c "concat (map json_escape s) @ quote # rest"] by simp
qed simp

lemma read_value_string:
  "0 < n \<Longrightarrow> read_value n (json_string s @ rest) = Some (JStr s, rest)"
  by (cases n) (simp_all add: json_string_def read_string_body)

section \<open>Round trip\<close>

fun json_plain :: "json \<Rightarrow> bool" where
  "json_plain (JFloat f) = False"
| "json_plain (JArr xs) = list_all json_plain xs"
| "json_plain (JObj d) = (distinct (map fst d) \<and> list_all (\<lambda>kv. json_plain (snd kv)) d)"
| "json_plain v = True"

definition separators_ok :: "string \<Rightarrow> string \<Rightarrow> bool" where
  "separators_ok isep ksep \<longleftrightarrow> (isep, ksep) \<in> {('','', '':''), ('', '', '': '')}"

lemma delimited_Cons: "delimited (c # s) \<longleftrightarrow> \<not> is_digit c \<and> c \<noteq> CHR ''.'' \<and> c \<noteq> CHR ''e'' \<and> c \<noteq> CHR ''E''"
  by (simp add: delimited_def)

lemma starts_with_simps [simp]:
  "starts_with [] s" "starts_with (a # p) [] = False"
  "starts_with (a # p) (b # s) \<longleftrightarrow> a = b \<and> starts_with p s"
  by (auto simp: starts_with_def)

lemma read_scalar_int:
  assumes "delimited rest"
  shows "read_scalar (show_int i @ rest) = Some (JInt i, rest)"
proof -
  obtain d ds where "show_digits \<bar>i\<bar> = d # ds" using show_digits_nonempty by (cases "show_digits \<bar>i\<bar>") auto
  moreover from this have "is_digit d" using show_digits_is_digit [of "\<bar>i\<bar>"] by simp
  moreover have "\<not> is_digit CHR ''n''" "\<not> is_digit CHR ''t''" "\<not> is_digit CHR ''f''" "\<not> is_digit CHR ''N''"
      "\<not> is_digit CHR ''I''" "\<not> is_digit CHR ''-''"
    by (simp_all add: is_digit_def)
  ultimately have "first_literal literals (show_int i @ rest) = None"
    by (cases "i < 0") (auto simp: literals_def strip_prefix_def show_int_def)
  then show ?thesis by (simp add: read_scalar_def read_number_show_int [OF assms])
qed

lemma show_int_first:
  obtains c s where "show_int i = c # s" "is_digit c \<or> c = CHR ''-''"
proof (cases "i < 0")
  case True
  then show thesis using that by (simp add: show_int_def)
next
  case False
  obtain d ds where "show_digits i = d # ds" using show_digits_nonempty by (cases "show_digits i") auto
  with False show thesis using that show_digits_is_digit [of i] by (simp add: show_int_def)
qed

lemma read_value_int:
  assumes "delimited rest" "0 < n"
  shows "read_value n (show_int i @ rest) = Some (JInt i, rest)"
proof -
  obtain c s where c: "show_int i = c # s" "is_digit c \<or> c = CHR ''-''" by (rule show_int_first)
  then have "c \<noteq> quote \<and> c \<noteq> CHR ''['' \<and> c \<noteq> CHR ''{''" by (auto simp: is_digit_def quote_def)
  with c(1) assms(2) read_scalar_int [OF assms(1), of i] show ?thesis by (cases n) simp_all
qed

lemma skip_space_Cons: "\<not> json_space c \<Longrightarrow> skip_space (c # s) = c # s"
  by (simp add: skip_space_def)

lemma show_int_nonempty [simp]: "show_int i \<noteq> []"
  by (simp add: show_int_def)

lemma json_dumps_nonempty: "json_plain v \<Longrightarrow> json_dumps isep ksep v \<noteq> []"
  by (cases v) (simp_all add: json_string_def)

lemma dset_fresh: "k \<notin> fst ` set d \<Longrightarrow> dset k v d = d @ [(k, v)]"
  by (induction d rule: dset.induct) auto

definition reads_back :: "string \<Rightarrow> string \<Rightarrow> json \<Rightarrow> bool" where
  "reads_back isep ksep v \<longleftrightarrow> (\<forall>n rest. 2 * length (json_dumps isep ksep v) \<le> n \<longrightarrow> delimited rest \<longrightarrow>
     read_value n (json_dumps isep ksep v @ rest) = Some (v, rest))"

lemma reads_backD:
  "reads_back isep ksep v \<Longrightarrow> 2 * length (json_dumps isep ksep v) \<le> n \<Longrightarrow> delimited rest \<Longrightarrow>
   read_value n (json_dumps isep ksep v @ rest) = Some (v, rest)"
  by (simp add: reads_back_def)

text \<open>A printed value starts with a character that is neither white space nor a closing
  bracket, so the separators and the brackets are told apart from it.\<close>

lemma json_dumps_first:
  assumes "json_plain v"
  shows "\<exists>c s. json_dumps isep ksep v = c # s \<and> \<not> json_space c \<and> c \<noteq> CHR '']''"
proof (cases v)
  case (JInt i)
  obtain c s where "show_int i = c # s" "is_digit c \<or> c = CHR ''-''" by (rule show_int_first)
  moreover have "\<not> json_space c \<and> c \<noteq> CHR '']''" if "is_digit c \<or> c = CHR ''-''" for c
    using that by (auto simp: json_space_def is_digit_def)
  ultimately show ?thesis using JInt by simp
qed (use assms in \<open>simp_all add: json_string_def json_space_def quote_def\<close>)

lemma separator_steps:
  assumes "separators_ok isep ksep" and "\<not> json_space c"
  shows "\<exists>s. isep @ c # t = CHR '','' # s \<and> skip_space s = c # t"
    and "\<exists>s. ksep @ c # t = CHR '':'' # s \<and> skip_space s = c # t"
  using assms by (auto simp: separators_ok_def skip_space_def json_space_def)

lemma read_items_back:
  assumes seps: "separators_ok isep ksep" and "xs \<noteq> []" and "list_all json_plain xs"
    and "\<forall>x \<in> set xs. reads_back isep ksep x"
    and "2 * length (py_join isep (map (json_dumps isep ksep) xs)) + 1 \<le> n"
  shows "read_items n acc (py_join isep (map (json_dumps isep ksep) xs) @ CHR '']'' # rest) = Some (JArr (acc @ xs), rest)"
  using assms(2-)
proof (induction xs arbitrary: n acc)
  case (Cons x xs)
  from Cons.prems(4) obtain m where n: "n = Suc m" by (cases n) auto
  show ?case
  proof (cases xs)
    case Nil
    have "read_value m (json_dumps isep ksep x @ CHR '']'' # rest) = Some (x, CHR '']'' # rest)"
      using Cons.prems n Nil by (intro reads_backD) (auto simp: delimited_def is_digit_def)
    with n Nil show ?thesis by (simp add: skip_space_def json_space_def)
  next
    case (Cons y ys)
    let ?tail = "py_join isep (map (json_dumps isep ksep) xs) @ CHR '']'' # rest"
    from Cons.prems(2) Cons have "json_plain y" by simp
    then obtain c t where c: "json_dumps isep ksep y = c # t" "\<not> json_space c"
      using json_dumps_first [of y isep ksep] by auto
    have tail: "\<exists>t. ?tail = c # t" using c(1) Cons by (cases ys) simp_all
    then obtain t where t: "?tail = c # t" by blast
    obtain s where s: "isep @ ?tail = CHR '','' # s" "skip_space s = ?tail"
      using separator_steps(1) [OF seps c(2)] t by metis
    have joined: "py_join isep (map (json_dumps isep ksep) (x # xs)) @ CHR '']'' # rest =
        json_dumps isep ksep x @ isep @ ?tail"
      using Cons by simp
    have len: "length (py_join isep (map (json_dumps isep ksep) (x # xs))) =
        length (json_dumps isep ksep x) + length isep + length (py_join isep (map (json_dumps isep ksep) xs))"
      using Cons by simp
    have "1 \<le> length isep" using seps by (auto simp: separators_ok_def)
    with Cons.prems(4) n len have m: "2 * length (py_join isep (map (json_dumps isep ksep) xs)) + 1 \<le> m"
        "2 * length (json_dumps isep ksep x) \<le> m" by linarith+
    have "read_value m (json_dumps isep ksep x @ isep @ ?tail) = Some (x, isep @ ?tail)"
      using Cons.prems(3) m(2) s(1) by (intro reads_backD) (auto simp: delimited_def is_digit_def)
    moreover have "read_items m (acc @ [x]) ?tail = Some (JArr ((acc @ [x]) @ xs), rest)"
      using Cons.prems m(1) Cons by (intro Cons.IH) auto
    ultimately show ?thesis
      unfolding joined n using s by (simp add: skip_space_def json_space_def)
  qed
qed simp

definition print_member :: "string \<Rightarrow> string \<Rightarrow> string \<times> json \<Rightarrow> string" where
  "print_member isep ksep kv = json_string (fst kv) @ ksep @ json_dumps isep ksep (snd kv)"

lemma read_members_back:
  assumes seps: "separators_ok isep ksep" and "d \<noteq> []" and "list_all (\<lambda>kv. json_plain (snd kv)) d"
    and "distinct (map fst (acc @ d))"
    and "\<forall>kv \<in> set d. reads_back isep ksep (snd kv)"
    and "2 * length (py_join isep (map (print_member isep ksep) d)) + 1 \<le> n"
  shows "read_members n acc (py_join isep (map (print_member isep ksep) d) @ CHR ''}'' # rest) = Some (JObj (acc @ d), rest)"
  using assms(2-)
proof (induction d arbitrary: n acc)
  case (Cons kv d)
  obtain k v where kv: "kv = (k, v)" by fastforce
  from Cons.prems(5) obtain m where n: "n = Suc m" by (cases n) auto
  have pv: "json_plain v" using Cons.prems(2) kv by simp
  have rb: "reads_back isep ksep v" using Cons.prems(4) kv by simp
  have fresh: "dset k v acc = acc @ [(k, v)]" using Cons.prems(3) kv by (intro dset_fresh) auto
  have one: "read_members (Suc m) acc (print_member isep ksep kv @ u) =
      (case skip_space u of [] \<Rightarrow> None
       | e # es \<Rightarrow> if e = CHR ''}'' then Some (JObj (acc @ [kv]), es)
                  else if e = CHR '','' then read_members m (acc @ [kv]) (skip_space es) else None)"
    if u: "delimited u" "2 * length (json_dumps isep ksep v) \<le> m" for u
  proof -
    obtain c t where c: "json_dumps isep ksep v = c # t" "\<not> json_space c"
      using json_dumps_first [OF pv] by blast
    then obtain s where s: "ksep @ json_dumps isep ksep v @ u = CHR '':'' # s" "skip_space s = json_dumps isep ksep v @ u"
      using separator_steps(2) [OF seps c(2), of "t @ u"] by auto
    have "read_value m (json_dumps isep ksep v @ u) = Some (v, u)" using rb u by (intro reads_backD)
    with s show ?thesis
      by (simp add: print_member_def kv json_string_def read_string_body fresh skip_space_Cons json_space_def
          split: list.split)
  qed
  show ?case
  proof (cases d)
    case Nil
    have "2 * length (json_dumps isep ksep v) \<le> m"
      using Cons.prems(5) n Nil kv by (simp add: print_member_def)
    then have "read_members (Suc m) acc (print_member isep ksep kv @ CHR ''}'' # rest) = Some (JObj (acc @ [kv]), rest)"
      by (subst one) (simp_all add: delimited_def is_digit_def skip_space_Cons json_space_def)
    with n Nil show ?thesis by simp
  next
    case (Cons kv' d')
    let ?tail = "py_join isep (map (print_member isep ksep) d) @ CHR ''}'' # rest"
    obtain t where t: "?tail = quote # t" using Cons by (cases d') (simp_all add: print_member_def json_string_def)
    obtain s where s: "isep @ ?tail = CHR '','' # s" "skip_space s = ?tail"
      using separator_steps(1) [OF seps, of quote t] t by (auto simp: json_space_def quote_def)
    have joined: "py_join isep (map (print_member isep ksep) (kv # d)) @ CHR ''}'' # rest =
        print_member isep ksep kv @ isep @ ?tail"
      using Cons by simp
    have len: "length (py_join isep (map (print_member isep ksep) (kv # d))) =
        length (print_member isep ksep kv) + length isep + length (py_join isep (map (print_member isep ksep) d))"
      using Cons by simp
    have "1 \<le> length isep" using seps by (auto simp: separators_ok_def)
    moreover have "length (json_dumps isep ksep v) \<le> length (print_member isep ksep kv)"
      by (simp add: print_member_def kv)
    ultimately have m: "2 * length (py_join isep (map (print_member isep ksep) d)) + 1 \<le> m"
        "2 * length (json_dumps isep ksep v) \<le> m"
      using Cons.prems(5) n len by linarith+
    have IH: "read_members m (acc @ [kv]) ?tail = Some (JObj ((acc @ [kv]) @ d), rest)"
      using Cons.prems m(1) Cons by (intro Cons.IH) auto
    have "delimited (isep @ ?tail)" unfolding s(1) by (simp add: delimited_def is_digit_def)
    from one [OF this m(2)] have "read_members (Suc m) acc (print_member isep ksep kv @ isep @ ?tail) =
        read_members m (acc @ [kv]) (skip_space s)"
      unfolding s(1) by (simp add: skip_space_Cons json_space_def)
    with IH s(2) show ?thesis unfolding joined n by simp
  qed
qed simp

lemma json_dumps_reads_back:
  assumes seps: "separators_ok isep ksep"
  shows "json_plain v \<Longrightarrow> reads_back isep ksep v"
proof (induction v)
  case JNull
  have "read_value n (''null'' @ rest) = Some (JNull, rest)" if "2 * length ''null'' \<le> n" for n rest
    using that by (cases n) (simp_all add: read_scalar_def literals_def strip_prefix_def quote_def)
  then show ?case by (simp add: reads_back_def)
next
  case (JBool b)
  have "read_value n (''true'' @ rest) = Some (JBool True, rest)" if "2 * length ''true'' \<le> n" for n rest
    using that by (cases n) (simp_all add: read_scalar_def literals_def strip_prefix_def quote_def)
  moreover have "read_value n (''false'' @ rest) = Some (JBool False, rest)" if "2 * length ''false'' \<le> n" for n rest
    using that by (cases n) (simp_all add: read_scalar_def literals_def strip_prefix_def quote_def)
  ultimately show ?case by (simp add: reads_back_def)
next
  case (JFloat f)
  then show ?case by simp
next
  case (JInt i)
  show ?case unfolding reads_back_def json_dumps.simps
    by (intro allI impI read_value_int) (simp_all, metis gr0I length_greater_0_conv mult_is_0 nat_le_linear not_gr0 show_int_nonempty le_zero_eq zero_neq_numeral)
next
  case (JStr s)
  show ?case unfolding reads_back_def json_dumps.simps
    by (intro allI impI read_value_string) (simp add: json_string_def)
next
  case (JArr xs)
  show ?case unfolding reads_back_def
  proof (intro allI impI)
    fix n rest assume n: "2 * length (json_dumps isep ksep (JArr xs)) \<le> n"
    then obtain m where m: "n = Suc m" by (cases n) auto
    show "read_value n (json_dumps isep ksep (JArr xs) @ rest) = Some (JArr xs, rest)"
    proof (cases xs)
      case Nil
      with m show ?thesis by (simp add: skip_space_Cons json_space_def quote_def)
    next
      case (Cons x ys)
      have "json_plain x" using JArr.prems Cons by simp
      then obtain c s where c: "json_dumps isep ksep x = c # s" "\<not> json_space c" "c \<noteq> CHR '']''"
        using json_dumps_first by blast
      let ?body = "py_join isep (map (json_dumps isep ksep) xs) @ CHR '']'' # rest"
      obtain t where t: "?body = c # t" using c(1) Cons by (cases ys) simp_all
      have "read_items m [] ?body = Some (JArr ([] @ xs), rest)"
        using n m JArr Cons by (intro read_items_back seps) (auto simp: list_all_iff)
      with m c t show ?thesis by (simp add: skip_space_Cons quote_def)
    qed
  qed
next
  case (JObj d)
  have eq: "json_dumps isep ksep (JObj d) = ''{'' @ py_join isep (map (print_member isep ksep) d) @ ''}''"
    by (simp add: print_member_def [abs_def])
  show ?case unfolding reads_back_def eq
  proof (intro allI impI)
    fix n rest assume n: "2 * length (''{'' @ py_join isep (map (print_member isep ksep) d) @ ''}'') \<le> n"
    then obtain m where m: "n = Suc m" by (cases n) auto
    show "read_value n ((''{'' @ py_join isep (map (print_member isep ksep) d) @ ''}'') @ rest) = Some (JObj d, rest)"
    proof (cases d)
      case Nil
      with m show ?thesis by (simp add: skip_space_Cons json_space_def quote_def)
    next
      case (Cons kv d')
      let ?body = "py_join isep (map (print_member isep ksep) d) @ CHR ''}'' # rest"
      obtain t where t: "?body = quote # t" using Cons by (cases d') (simp_all add: print_member_def json_string_def)
      have "reads_back isep ksep (snd kv)" if "kv \<in> set d" for kv
        using that JObj.prems by (intro JObj.IH [of kv "snd kv"]) (auto simp: list_all_iff snds.simps)
      then have "read_members m [] ?body = Some (JObj ([] @ d), rest)"
        using n m JObj.prems Cons by (intro read_members_back seps) auto
      with m t show ?thesis by (simp add: skip_space_Cons quote_def json_space_def)
    qed
  qed
qed

theorem json_loads_dumps:
  assumes "separators_ok isep ksep" and "json_plain v"
  shows "json_loads (json_dumps isep ksep v) = Some v"
proof -
  obtain c s where c: "json_dumps isep ksep v = c # s" "\<not> json_space c"
    using json_dumps_first [OF assms(2)] by blast
  then have "skip_space (json_dumps isep ksep v) = json_dumps isep ksep v" by (simp add: skip_space_Cons)
  moreover have "read_value (2 * length (json_dumps isep ksep v) + 2) (json_dumps isep ksep v @ []) = Some (v, [])"
    using json_dumps_reads_back [OF assms] by (intro reads_backD) (simp_all add: delimited_def)
  ultimately show ?thesis by (simp add: json_loads_def skip_space_def)
qed

end
