(* ===== verification/Pydantic.thy ===== *)
theory Pydantic
  imports Json_Text PyDate "HOL-Library.Monad_Syntax"
begin

text \<open>
  What the schemas of \<open>app/schemas/*.py\<close> use of pydantic. Required and nullable fields,
  exact strings and literals are its documented behaviour and are defined here; the lax
  coercions of numbers and timestamps, the rendering of a timestamp and the wording of
  errors are the library's own code and stay parameters (\<open>pydantic\<close>). Validation is all or nothing, so its failure is \<open>None\<close>. The file-name
  suffix of \<open>pathlib\<close>, which two schemas test, is here too.
\<close>

record pydantic =
  pd_float :: "json \<Rightarrow> pyfloat option"
  pd_int :: "json \<Rightarrow> int option"
  pd_datetime :: "json \<Rightarrow> (datetime \<times> bool) option"
  pd_datetime_str :: "datetime \<Rightarrow> string"
  pd_json_error :: "string \<Rightarrow> string"
  pd_error :: "json \<Rightarrow> string"

text \<open>A field that must be present, and its value run through a validator.\<close>

definition field :: "jdict \<Rightarrow> string \<Rightarrow> (json \<Rightarrow> 'a option) \<Rightarrow> 'a option" where
  "field d k f = (case map_of d k of None \<Rightarrow> None | Some v \<Rightarrow> f v)"

definition field_default :: "jdict \<Rightarrow> string \<Rightarrow> (json \<Rightarrow> 'a option) \<Rightarrow> 'a \<Rightarrow> 'a option" where
  "field_default d k f x = (case map_of d k of None \<Rightarrow> Some x | Some v \<Rightarrow> f v)"

definition str_value :: "json \<Rightarrow> string option" where
  "str_value v = (case v of JStr s \<Rightarrow> Some s | _ \<Rightarrow> None)"

definition literal_value :: "string list \<Rightarrow> json \<Rightarrow> string option" where
  "literal_value xs v = (case v of JStr s \<Rightarrow> if s \<in> set xs then Some s else None | _ \<Rightarrow> None)"

definition nullable :: "(json \<Rightarrow> 'a option) \<Rightarrow> json \<Rightarrow> 'a option option" where
  "nullable f v = (if v = JNull then Some None else map_option Some (f v))"

fun list_value :: "(json \<Rightarrow> 'a option) \<Rightarrow> json list \<Rightarrow> 'a list option" where
  "list_value f [] = Some []"
| "list_value f (v # vs) = do { x \<leftarrow> f v; xs \<leftarrow> list_value f vs; Some (x # xs) }"

definition check :: "bool \<Rightarrow> unit option" where
  "check b = (if b then Some () else None)"

definition jfloat_opt :: "pyfloat option \<Rightarrow> json" where
  "jfloat_opt x = (case x of None \<Rightarrow> JNull | Some f \<Rightarrow> JFloat f)"

definition jint_opt :: "int option \<Rightarrow> json" where
  "jint_opt x = (case x of None \<Rightarrow> JNull | Some i \<Rightarrow> JInt i)"

lemma check_Some [simp]: "check b = Some u \<longleftrightarrow> b"
  by (simp add: check_def)

lemma literal_value_Some: "literal_value xs v = Some s \<Longrightarrow> s \<in> set xs"
  by (auto simp: literal_value_def split: json.splits if_splits)

section \<open>Paths\<close>

text \<open>\<open>str.split(sep)\<close> for a one-character separator.\<close>

fun split_on :: "char \<Rightarrow> string \<Rightarrow> string list" where
  "split_on c [] = [[]]"
| "split_on c (x # xs) = (case split_on c xs of [] \<Rightarrow> [[x]]
     | p # ps \<Rightarrow> if x = c then [] # p # ps else (x # p) # ps)"

text \<open>\<open>Path(filename).suffix.lower()\<close>.\<close>

definition path_name :: "string \<Rightarrow> string" where
  "path_name s = (case filter (\<lambda>p. p \<noteq> [] \<and> p \<noteq> ''.'') (split_on (CHR ''/'') s) of
     [] \<Rightarrow> [] | ps \<Rightarrow> last ps)"

definition path_suffix :: "string \<Rightarrow> string" where
  "path_suffix s = (let name = path_name s;
       tail = takeWhile (\<lambda>c. c \<noteq> CHR ''.'') (rev name) in
     if length tail = length name \<or> Suc (length tail) = length name \<or> tail = [] then []
     else CHR ''.'' # rev tail)"

end
