(* ===== verification/Encoding.thy ===== *)
theory Encoding
  imports Prelude "HOL-Library.Word"
begin

text \<open>
  The byte encodings of the standard library the services use: \<open>base64.b64encode\<close> and
  \<open>b64decode(validate=True)\<close>, \<open>hashlib.sha256(...).hexdigest()\<close> and \<open>uuid.uuid5\<close> over
  SHA-1, on 32-bit words with their wrap-around. A byte string is a \<open>string\<close>: a \<open>char\<close>
  is eight bits. \<open>b64_round_trip\<close> shows that decoding undoes encoding.
\<close>

unbundle bit_operations_syntax

section \<open>Base 64\<close>

definition byte :: "char \<Rightarrow> nat" where "byte c = of_char c"

definition b64_char :: "nat \<Rightarrow> char" where
  "b64_char n = (if n < 26 then char_of (65 + n) else if n < 52 then char_of (71 + n)
     else if n < 62 then char_of (n - 4) else if n = 62 then CHR ''+'' else CHR ''/'')"

definition b64_value :: "char \<Rightarrow> nat option" where
  "b64_value c = (let n = byte c in
     if 65 \<le> n \<and> n \<le> 90 then Some (n - 65) else if 97 \<le> n \<and> n \<le> 122 then Some (n - 71)
     else if 48 \<le> n \<and> n \<le> 57 then Some (n + 4) else if n = 43 then Some 62
     else if n = 47 then Some 63 else None)"

fun b64encode :: "string \<Rightarrow> string" where
  "b64encode [] = []"
| "b64encode [a] = [b64_char (byte a div 4), b64_char ((byte a mod 4) * 16), CHR ''='', CHR ''='']"
| "b64encode [a, b] = [b64_char (byte a div 4), b64_char ((byte a mod 4) * 16 + byte b div 16),
     b64_char ((byte b mod 16) * 4), CHR ''='']"
| "b64encode (a # b # c # cs) = [b64_char (byte a div 4), b64_char ((byte a mod 4) * 16 + byte b div 16),
     b64_char ((byte b mod 16) * 4 + byte c div 64), b64_char (byte c mod 64)] @ b64encode cs"

fun b64decode :: "string \<Rightarrow> string option" where
  "b64decode [] = Some []"
| "b64decode (a # b # c # d # cs) =
     (case (b64_value a, b64_value b) of
        (Some w, Some x) \<Rightarrow>
          if d = CHR ''='' then
            (if cs \<noteq> [] then None
             else if c = CHR ''='' then Some [char_of (w * 4 + x div 16)]
             else (case b64_value c of None \<Rightarrow> None
                   | Some y \<Rightarrow> Some [char_of (w * 4 + x div 16), char_of ((x mod 16) * 16 + y div 4)]))
          else (case (b64_value c, b64_value d, b64decode cs) of
              (Some y, Some z, Some rest) \<Rightarrow>
                Some ([char_of (w * 4 + x div 16), char_of ((x mod 16) * 16 + y div 4),
                       char_of ((y mod 4) * 64 + z)] @ rest)
            | _ \<Rightarrow> None)
      | _ \<Rightarrow> None)"
| "b64decode _ = None"

lemma byte_less [simp]: "byte c < 256"
  using of_char_mod_256 [of c, where 'a = nat] by (metis byte_def mod_less_divisor zero_less_numeral)

lemma char_of_byte [simp]: "char_of (byte c) = c"
  by (simp add: byte_def)

lemma byte_char_of: "n < 256 \<Longrightarrow> byte (char_of n) = n"
  by (simp add: byte_def)

lemma b64_value_char: "n < 64 \<Longrightarrow> b64_value (b64_char n) = Some n"
  by (auto simp: b64_value_def b64_char_def byte_def Let_def)

lemma b64_char_not_pad: "n < 64 \<Longrightarrow> b64_char n \<noteq> CHR ''=''"
proof
  assume "n < 64" "b64_char n = CHR ''=''"
  then have "b64_value CHR ''='' = Some n" by (metis b64_value_char)
  then show False by (simp add: b64_value_def byte_def)
qed

lemma byte_div: "byte c div 4 < 64" "byte c div 16 < 16" "byte c div 64 < 4"
  by (simp_all add: div_less_iff_less_mult)

lemma place_value: "v < k \<Longrightarrow> (u * k + v) div k = u" "v < k \<Longrightarrow> (u * k + v) mod k = (v::nat)"
  by simp_all

lemma place_bound: "u < m \<Longrightarrow> v < k \<Longrightarrow> u * k + v < m * (k::nat)"
  using mult_le_mono1 [of "Suc u" m k] by simp

lemma byte_parts: "byte a div 4 < 64" "byte a mod 4 * 16 + byte b div 16 < 64"
  "byte b mod 16 * 4 + byte c div 64 < 64" "byte a mod 4 * 16 < 64" "byte b mod 16 * 4 < 64"
  using place_bound [of "byte a mod 4" 4 "byte b div 16" 16] place_bound [of "byte b mod 16" 16 "byte c div 64" 4]
  by (simp_all add: byte_div)

lemma byte_join:
  "char_of (byte a div 4 * 4 + (byte a mod 4 * 16 + byte b div 16) div 16) = a"
  "char_of ((byte a mod 4 * 16 + byte b div 16) mod 16 * 16 + (byte b mod 16 * 4 + byte c div 64) div 4) = b"
  "char_of ((byte b mod 16 * 4 + byte c div 64) mod 4 * 64 + byte c mod 64) = c"
  "char_of (byte a div 4 * 4 + (byte a mod 4 * 16) div 16) = a"
  "char_of ((byte a mod 4 * 16 + byte b div 16) mod 16 * 16 + (byte b mod 16 * 4) div 4) = b"
proof -
  show "char_of (byte a div 4 * 4 + (byte a mod 4 * 16 + byte b div 16) div 16) = a"
    "char_of ((byte a mod 4 * 16 + byte b div 16) mod 16 * 16 + (byte b mod 16 * 4 + byte c div 64) div 4) = b"
    "char_of ((byte b mod 16 * 4 + byte c div 64) mod 4 * 64 + byte c mod 64) = c"
    "char_of (byte a div 4 * 4 + (byte a mod 4 * 16) div 16) = a"
    "char_of ((byte a mod 4 * 16 + byte b div 16) mod 16 * 16 + (byte b mod 16 * 4) div 4) = b"
    by (simp_all only: place_value byte_div div_mult_mod_eq char_of_byte nonzero_mult_div_cancel_right
        numeral_neq_zero not_False_eq_True)
qed

lemma b64_round_trip: "b64decode (b64encode s) = Some s"
proof (induction s rule: b64encode.induct)
  case (2 a)
  then show ?case by (simp add: b64_value_char byte_parts byte_join byte_div)
next
  case (3 a b)
  then show ?case using b64_char_not_pad [OF byte_parts(5)]
    by (simp add: b64_value_char byte_parts byte_join byte_div)
next
  case (4 a b c cs)
  have "byte c mod 64 < 64" by simp
  with 4 show ?case
    using b64_char_not_pad [of "byte c mod 64"]
    by (simp add: b64_value_char byte_parts byte_join byte_div)
qed simp

section \<open>Message padding\<close>

definition be_word :: "char list \<Rightarrow> 32 word" where
  "be_word bs = foldl (\<lambda>w c. push_bit 8 w OR word_of_int (of_char c)) 0 bs"

fun chunks :: "nat \<Rightarrow> nat \<Rightarrow> 'a list \<Rightarrow> 'a list list" where
  "chunks 0 n xs = []"
| "chunks (Suc f) n xs = (if xs = [] then [] else take n xs # chunks f n (drop n xs))"

definition be_bytes :: "nat \<Rightarrow> int \<Rightarrow> char list" where
  "be_bytes k n = map (\<lambda>i. char_of (n div 256 ^ i)) (rev [0 ..< k])"

definition pad_message :: "string \<Rightarrow> string" where
  "pad_message s = s @ [char_of (128::nat)]
     @ replicate ((119 - length s mod 64) mod 64) (char_of (0::nat)) @ be_bytes 8 (8 * int (length s))"

definition message_blocks :: "string \<Rightarrow> 32 word list list" where
  "message_blocks s = (let m = pad_message s in
     map (\<lambda>b. map be_word (chunks (length b) 4 b)) (chunks (length m) 64 m))"

definition hex_byte :: "nat \<Rightarrow> string" where
  "hex_byte n = (let h = (\<lambda>k. if k < 10 then char_of (48 + k) else char_of (87 + k)) in [h (n div 16), h (n mod 16)])"

definition word_bytes :: "32 word \<Rightarrow> nat list" where
  "word_bytes w = map (\<lambda>i. nat (uint (drop_bit (8 * i) w) mod 256)) [3, 2, 1, 0]"

section \<open>SHA-256\<close>

text \<open>The round constants and the initial value of FIPS 180-4, in decimal.\<close>

definition sha256_constants :: "32 word list" where
  "sha256_constants = [
   1116352408, 1899447441, 3049323471, 3921009573, 961987163, 1508970993, 2453635748, 2870763221,
    3624381080, 310598401, 607225278, 1426881987, 1925078388, 2162078206, 2614888103, 3248222580,
    3835390401, 4022224774, 264347078, 604807628, 770255983, 1249150122, 1555081692, 1996064986,
    2554220882, 2821834349, 2952996808, 3210313671, 3336571891, 3584528711, 113926993, 338241895,
    666307205, 773529912, 1294757372, 1396182291, 1695183700, 1986661051, 2177026350, 2456956037,
    2730485921, 2820302411, 3259730800, 3345764771, 3516065817, 3600352804, 4094571909,
    275423344, 430227734, 506948616, 659060556, 883997877, 958139571, 1322822218, 1537002063,
    1747873779, 1955562222, 2024104815, 2227730452, 2361852424, 2428436474, 2756734187,
    3204031479, 3329325298]"

definition sha256_init :: "32 word list" where
  "sha256_init = [
   1779033703, 3144134277, 1013904242, 2773480762, 1359893119, 2600822924, 528734635, 1541459225]"

definition rotr :: "nat \<Rightarrow> 32 word \<Rightarrow> 32 word" where
  "rotr n w = word_rotr n w"

text \<open>The message schedule is kept newest word first.\<close>

fun sha256_extend :: "nat \<Rightarrow> 32 word list \<Rightarrow> 32 word list" where
  "sha256_extend 0 ws = ws"
| "sha256_extend (Suc n) ws =
     (let w15 = ws ! 14; w2 = ws ! 1;
          s0 = rotr 7 w15 XOR rotr 18 w15 XOR drop_bit 3 w15;
          s1 = rotr 17 w2 XOR rotr 19 w2 XOR drop_bit 10 w2 in
      sha256_extend n ((ws ! 15 + s0 + ws ! 6 + s1) # ws))"

fun sha256_round :: "32 word list \<Rightarrow> 32 word \<times> 32 word \<Rightarrow> 32 word list" where
  "sha256_round [a, b, c, d, e, f, g, h] (k, w) =
     (let s1 = rotr 6 e XOR rotr 11 e XOR rotr 25 e;
          ch = (e AND f) XOR (NOT e AND g);
          t1 = h + s1 + ch + k + w;
          s0 = rotr 2 a XOR rotr 13 a XOR rotr 22 a;
          maj = (a AND b) XOR (a AND c) XOR (b AND c);
          t2 = s0 + maj in
      [t1 + t2, a, b, c, d + t1, e, f, g])"
| "sha256_round st kw = st"

definition sha256_block :: "32 word list \<Rightarrow> 32 word list \<Rightarrow> 32 word list" where
  "sha256_block st block =
     (let ws = rev (sha256_extend 48 (rev block)) in
      map2 (+) st (foldl sha256_round st (zip sha256_constants ws)))"

definition sha256_bytes :: "string \<Rightarrow> nat list" where
  "sha256_bytes s = concat (map word_bytes (foldl sha256_block sha256_init (message_blocks s)))"

text \<open>\<open>hashlib.sha256(data).hexdigest()\<close>.\<close>

definition sha256_hex :: "string \<Rightarrow> string" where
  "sha256_hex s = concat (map hex_byte (sha256_bytes s))"

lemma length_sha256_round: "length st = 8 \<Longrightarrow> length (sha256_round st kw) = 8"
  by (induction st kw rule: sha256_round.induct) (simp_all add: Let_def)

lemma length_sha256_rounds: "length st = 8 \<Longrightarrow> length (foldl sha256_round st kws) = 8"
  by (induction kws arbitrary: st) (simp_all add: length_sha256_round)

lemma length_sha256_state: "length st = 8 \<Longrightarrow> length (foldl sha256_block st bs) = 8"
  by (induction bs arbitrary: st) (simp_all add: sha256_block_def length_sha256_rounds)

lemma length_word_bytes: "length (concat (map word_bytes ws)) = 4 * length ws"
  by (induction ws) (simp_all add: word_bytes_def)

lemma length_hex: "length (concat (map hex_byte bs)) = 2 * length bs"
  by (induction bs) (simp_all add: hex_byte_def Let_def)

lemma length_sha256_hex: "length (sha256_hex s) = 64"
  by (simp add: sha256_hex_def sha256_bytes_def length_hex length_word_bytes length_sha256_state sha256_init_def)

text \<open>A hexadecimal digit in lower case.\<close>

definition lower_hex :: "char \<Rightarrow> bool" where
  "lower_hex c \<longleftrightarrow> is_digit c \<or> (97 \<le> byte c \<and> byte c \<le> 102)"

lemma lower_hex_chars: "(k::nat) < 10 \<Longrightarrow> lower_hex (char_of (48 + k))" "10 \<le> k \<Longrightarrow> k < 16 \<Longrightarrow> lower_hex (char_of (87 + k))"
  by (simp_all add: lower_hex_def is_digit_def byte_def)

lemma hex_byte_digits: "n < 256 \<Longrightarrow> list_all lower_hex (hex_byte n)"
  by (auto simp: hex_byte_def Let_def div_less_iff_less_mult intro: lower_hex_chars)

lemma sha256_hex_lower: "list_all lower_hex (sha256_hex s)"
proof -
  have "b < 256" if "b \<in> set (sha256_bytes s)" for b
    using that by (auto simp: sha256_bytes_def word_bytes_def nat_less_iff)
  then show ?thesis using hex_byte_digits by (force simp: sha256_hex_def list_all_iff)
qed

section \<open>SHA-1 and \<open>uuid5\<close>\<close>

definition rotl :: "nat \<Rightarrow> 32 word \<Rightarrow> 32 word" where
  "rotl n w = word_rotl n w"

fun sha1_extend :: "nat \<Rightarrow> 32 word list \<Rightarrow> 32 word list" where
  "sha1_extend 0 ws = ws"
| "sha1_extend (Suc n) ws = sha1_extend n (rotl 1 (ws ! 2 XOR ws ! 7 XOR ws ! 13 XOR ws ! 15) # ws)"

definition sha1_f :: "nat \<Rightarrow> 32 word \<Rightarrow> 32 word \<Rightarrow> 32 word \<Rightarrow> 32 word \<times> 32 word" where
  "sha1_f i b c d =
     (if i < 20 then ((b AND c) OR (NOT b AND d), 0x5a827999)
      else if i < 40 then (b XOR c XOR d, 0x6ed9eba1)
      else if i < 60 then ((b AND c) OR (b AND d) OR (c AND d), 0x8f1bbcdc)
      else (b XOR c XOR d, 0xca62c1d6))"

fun sha1_round :: "32 word list \<Rightarrow> nat \<times> 32 word \<Rightarrow> 32 word list" where
  "sha1_round [a, b, c, d, e] (i, w) =
     (case sha1_f i b c d of (f, k) \<Rightarrow> [rotl 5 a + f + e + k + w, a, rotl 30 b, c, d])"
| "sha1_round st iw = st"

definition sha1_block :: "32 word list \<Rightarrow> 32 word list \<Rightarrow> 32 word list" where
  "sha1_block st block =
     (let ws = rev (sha1_extend 64 (rev block)) in
      map2 (+) st (foldl sha1_round st (zip [0 ..< 80] ws)))"

definition sha1_bytes :: "string \<Rightarrow> nat list" where
  "sha1_bytes s = concat (map word_bytes
     (foldl sha1_block [0x67452301, 0xefcdab89, 0x98badcfe, 0x10325476, 0xc3d2e1f0] (message_blocks s)))"

definition uuid_text :: "nat list \<Rightarrow> string" where
  "uuid_text bs = (let h = concat (map hex_byte bs) in
     take 8 h @ ''-'' @ take 4 (drop 8 h) @ ''-'' @ take 4 (drop 12 h) @ ''-''
       @ take 4 (drop 16 h) @ ''-'' @ take 12 (drop 20 h))"

text \<open>\<open>str(uuid5(NAMESPACE_URL, name))\<close>: version 5 and the RFC variant are stamped on the digest.\<close>

definition NAMESPACE_URL :: "nat list" where
  "NAMESPACE_URL = [0x6b, 0xa7, 0xb8, 0x11, 0x9d, 0xad, 0x11, 0xd1, 0x80, 0xb4, 0x00, 0xc0, 0x4f, 0xd4, 0x30, 0xc8]"

definition uuid5_url :: "string \<Rightarrow> string" where
  "uuid5_url name = (let d = take 16 (sha1_bytes (map char_of NAMESPACE_URL @ name));
       d = d[6 := 80 + (d ! 6) mod 16];
       d = d[8 := 128 + (d ! 8) mod 64] in uuid_text d)"

end
