(* ===== verification/Document_Extraction.thy ===== *)
theory Document_Extraction
  imports Shipments Pydantic Encoding Config
begin

text \<open>
  Document extraction and exception triage (\<open>app/services/extraction.py\<close>,
  \<open>app/services/triage.py\<close>, \<open>app/schemas/extraction.py\<close>, \<open>app/schemas/triage.py\<close>). The
  Claude client is the parameter \<open>claude\<close>: what it answers is arbitrary, and the lemmas
  show that whatever it answers, only output that passed the schema is stored: a
  normalised load number, a non-negative amount, a trimmed upper-case carrier.
\<close>

section \<open>Schemas\<close>

definition load_number_field :: "json \<Rightarrow> string option option" where
  "load_number_field v = do {
     l \<leftarrow> nullable str_value v;
     (case normalize_load_number l of Inl _ \<Rightarrow> None | Inr n \<Rightarrow> Some n) }"

definition carrier_field :: "json \<Rightarrow> string option" where
  "carrier_field v = map_option (\<lambda>s. py_upper (py_strip s)) (str_value v)"

definition unit_interval :: "pydantic \<Rightarrow> json \<Rightarrow> pyfloat option" where
  "unit_interval pd v = do {
     f \<leftarrow> pd_float pd v;
     if fle (Fin 0) f \<and> fle f (Fin 1) then Some f else None }"

definition LineItem :: "pydantic \<Rightarrow> json \<Rightarrow> json option" where
  "LineItem pd v = (case v of JObj d \<Rightarrow> do {
       description \<leftarrow> field d ''description'' str_value;
       quantity \<leftarrow> field d ''quantity'' (nullable (pd_float pd));
       unit_price \<leftarrow> field d ''unit_price'' (nullable (pd_float pd));
       total \<leftarrow> field d ''total'' (pd_float pd);
       Some (JObj [(''description'', JStr description), (''quantity'', jfloat_opt quantity),
                   (''unit_price'', jfloat_opt unit_price), (''total'', JFloat total)]) }
     | _ \<Rightarrow> None)"

definition InvoiceExtraction :: "pydantic \<Rightarrow> json \<Rightarrow> jdict option" where
  "InvoiceExtraction pd v = (case v of JObj d \<Rightarrow> do {
       invoice_number \<leftarrow> field d ''invoice_number'' str_value;
       carrier_name \<leftarrow> field d ''carrier_name'' carrier_field;
       load_number \<leftarrow> field d ''load_number'' load_number_field;
       invoice_date \<leftarrow> field d ''invoice_date'' str_value;
       total_amount \<leftarrow> field d ''total_amount'' (pd_float pd);
       check (\<not> flt total_amount (Fin 0));
       line_items \<leftarrow> field d ''line_items'' (\<lambda>v. case v of JArr xs \<Rightarrow> list_value (LineItem pd) xs | _ \<Rightarrow> None);
       doc_type \<leftarrow> field d ''doc_type'' (literal_value [''invoice'', ''rate_confirmation'']);
       confidence \<leftarrow> field d ''confidence'' (unit_interval pd);
       Some [(''invoice_number'', JStr invoice_number), (''carrier_name'', JStr carrier_name),
             (''load_number'', jstr_opt load_number), (''invoice_date'', JStr invoice_date),
             (''total_amount'', JFloat total_amount), (''line_items'', JArr line_items),
             (''doc_type'', JStr doc_type), (''confidence'', JFloat confidence)] }
     | _ \<Rightarrow> None)"

definition BOLExtraction :: "pydantic \<Rightarrow> json \<Rightarrow> jdict option" where
  "BOLExtraction pd v = (case v of JObj d \<Rightarrow> do {
       bol_number \<leftarrow> field d ''bol_number'' str_value;
       load_number \<leftarrow> field d ''load_number'' load_number_field;
       carrier_name \<leftarrow> field d ''carrier_name'' carrier_field;
       shipper_name \<leftarrow> field d ''shipper_name'' str_value;
       consignee_name \<leftarrow> field d ''consignee_name'' str_value;
       pickup_date \<leftarrow> field d ''pickup_date'' str_value;
       commodity \<leftarrow> field d ''commodity_description'' str_value;
       pieces \<leftarrow> field d ''pieces'' (nullable (pd_int pd));
       weight_lbs \<leftarrow> field d ''weight_lbs'' (nullable (pd_float pd));
       doc_type \<leftarrow> field d ''doc_type'' (literal_value [''bill_of_lading'']);
       Some [(''bol_number'', JStr bol_number), (''load_number'', jstr_opt load_number),
             (''carrier_name'', JStr carrier_name), (''shipper_name'', JStr shipper_name),
             (''consignee_name'', JStr consignee_name), (''pickup_date'', JStr pickup_date),
             (''commodity_description'', JStr commodity), (''pieces'', jint_opt pieces),
             (''weight_lbs'', jfloat_opt weight_lbs), (''doc_type'', JStr doc_type)] }
     | _ \<Rightarrow> None)"

definition PODExtraction :: "pydantic \<Rightarrow> json \<Rightarrow> jdict option" where
  "PODExtraction pd v = (case v of JObj d \<Rightarrow> do {
       bol_number \<leftarrow> field d ''bol_number'' (nullable str_value);
       load_number \<leftarrow> field d ''load_number'' load_number_field;
       carrier_name \<leftarrow> field d ''carrier_name'' carrier_field;
       delivery_date \<leftarrow> field d ''delivery_date'' str_value;
       delivery_time \<leftarrow> field d ''delivery_time'' (nullable str_value);
       pieces \<leftarrow> field d ''pieces_received'' (nullable (pd_int pd));
       condition \<leftarrow> field d ''condition'' str_value;
       receiver_name \<leftarrow> field d ''receiver_name'' (nullable str_value);
       doc_type \<leftarrow> field d ''doc_type'' (literal_value [''proof_of_delivery'']);
       Some [(''bol_number'', jstr_opt bol_number), (''load_number'', jstr_opt load_number),
             (''carrier_name'', JStr carrier_name), (''delivery_date'', JStr delivery_date),
             (''delivery_time'', jstr_opt delivery_time), (''pieces_received'', jint_opt pieces),
             (''condition'', JStr condition), (''receiver_name'', jstr_opt receiver_name),
             (''doc_type'', JStr doc_type)] }
     | _ \<Rightarrow> None)"

definition EXTRACTION_SCHEMAS :: "pydantic \<Rightarrow> (string \<times> (json \<Rightarrow> jdict option)) list" where
  "EXTRACTION_SCHEMAS pd = [(''invoice'', InvoiceExtraction pd), (''rate_confirmation'', InvoiceExtraction pd),
     (''bill_of_lading'', BOLExtraction pd), (''proof_of_delivery'', PODExtraction pd)]"

record triage_decision =
  td_route :: string
  td_reasoning :: string
  td_confidence :: pyfloat

definition TriageDecision :: "pydantic \<Rightarrow> json \<Rightarrow> triage_decision option" where
  "TriageDecision pd v = (case v of JObj d \<Rightarrow> do {
       route \<leftarrow> field d ''route'' (literal_value [''auto_resolve'', ''escalate_standard'', ''escalate_priority'']);
       reasoning \<leftarrow> field d ''reasoning'' str_value;
       confidence \<leftarrow> field d ''confidence'' (unit_interval pd);
       Some \<lparr>td_route = route, td_reasoning = reasoning, td_confidence = confidence\<rparr> }
     | _ \<Rightarrow> None)"

section \<open>Calling the model\<close>

definition detect_file_type :: "string \<Rightarrow> (string \<times> string) result" where
  "detect_file_type filename = (let suffix = py_lower (path_suffix filename) in
     case map_of [(''.pdf'', (''pdf'', ''application/pdf'')), (''.png'', (''image'', ''image/png'')),
                  (''.jpg'', (''image'', ''image/jpeg'')), (''.jpeg'', (''image'', ''image/jpeg''))] suffix of
       Some t \<Rightarrow> Inr t
     | None \<Rightarrow> Inl (UnsupportedFileTypeError
         (''Unsupported file type: '' @ (if suffix = [] then ''none'' else suffix))))"

definition build_document_block :: "string \<Rightarrow> string \<Rightarrow> jdict result" where
  "build_document_block file_bytes filename = (case detect_file_type filename of Inl e \<Rightarrow> Inl e
     | Inr (kind, media_type) \<Rightarrow>
         Inr [(''type'', JStr (if kind = ''pdf'' then ''document'' else ''image'')),
              (''source'', JObj [(''type'', JStr ''base64''), (''media_type'', JStr media_type),
                                 (''data'', JStr (b64encode file_bytes))])])"

record content_block =
  cb_type :: "string option"
  cb_text :: "string option"

definition extract_response_text :: "content_block list \<Rightarrow> string" where
  "extract_response_text content = py_strip (concat (map (\<lambda>b. case cb_text b of Some t \<Rightarrow> t | None \<Rightarrow> [])
     (filter (\<lambda>b. cb_type b = Some ''text'') content)))"

definition strip_chars :: "string \<Rightarrow> string \<Rightarrow> string" where
  "strip_chars cs s = rev (dropWhile (\<lambda>c. c \<in> set cs) (rev (dropWhile (\<lambda>c. c \<in> set cs) s)))"

definition validate_document_type :: "pydantic \<Rightarrow> string \<Rightarrow> string result" where
  "validate_document_type pd response_text =
     (let doc_type = py_lower (strip_chars [CHR 0x22, CHR 0x27, CHR 0x60] (py_strip response_text)) in
      if doc_type \<notin> fst ` set (EXTRACTION_SCHEMAS pd)
      then Inl (ExtractionError (''Claude returned unsupported document type: '' @ response_text))
      else Inr doc_type)"

definition validate_claude_json :: "pydantic \<Rightarrow> string \<Rightarrow> string \<Rightarrow> jdict result" where
  "validate_claude_json pd response_text doc_type =
     (case json_loads (strip_code_fences response_text) of
        None \<Rightarrow> Inl (ExtractionError ''Claude returned non-JSON output'')
      | Some payload \<Rightarrow>
          (case map_of (EXTRACTION_SCHEMAS pd) doc_type of
             None \<Rightarrow> Inl (KeyError doc_type)
           | Some schema \<Rightarrow>
               (case schema payload of
                  None \<Rightarrow> Inl (ExtractionError (''Claude JSON did not match the '' @ doc_type @ '' extraction schema''))
                | Some e \<Rightarrow> Inr e)))"

text \<open>The three requests the services make, each answered with content blocks or an API error.\<close>

record claude =
  cl_classify :: "jdict \<Rightarrow> content_block list result"
  cl_extract :: "jdict \<Rightarrow> string \<Rightarrow> content_block list result"
  cl_triage :: "json \<Rightarrow> content_block list result"

text \<open>JSONB accepts neither \<open>NaN\<close> nor an infinity.\<close>

fun pg_json_ok :: "json \<Rightarrow> bool" where
  "pg_json_ok (JFloat f) = (case f of Fin _ \<Rightarrow> True | _ \<Rightarrow> False)"
| "pg_json_ok (JArr xs) = list_all pg_json_ok xs"
| "pg_json_ok (JObj d) = list_all (\<lambda>kv. pg_json_ok (snd kv)) d"
| "pg_json_ok v = True"

definition doc_type_of :: "jdict \<Rightarrow> string" where
  "doc_type_of e = (case dget e ''doc_type'' of JStr t \<Rightarrow> t | _ \<Rightarrow> [])"

definition extracted_document :: "string \<Rightarrow> jdict \<Rightarrow> document \<Rightarrow> document" where
  "extracted_document filename e d = d\<lparr>doc_filename := filename, doc_doc_type := doc_type_of e,
     doc_status := ''extracted'', doc_raw_text := None, doc_extracted_data := Some e\<rparr>"

definition extract_document ::
  "settings \<Rightarrow> pydantic \<Rightarrow> claude \<Rightarrow> string \<Rightarrow> string \<Rightarrow> nat option \<Rightarrow> database \<Rightarrow> (jdict \<times> database) result" where
  "extract_document cfg pd cl file_bytes filename document_id db =
     (case build_document_block file_bytes filename of Inl e \<Rightarrow> Inl e
      | Inr block \<Rightarrow>
     if ANTHROPIC_API_KEY cfg = [] then Inl (ExtractionError ''ANTHROPIC_API_KEY is not configured'')
     else (case cl_classify cl block of Inl e \<Rightarrow> Inl e
      | Inr classification \<Rightarrow>
     (case validate_document_type pd (extract_response_text classification) of Inl e \<Rightarrow> Inl e
      | Inr doc_type \<Rightarrow>
     (case cl_extract cl block doc_type of Inl e \<Rightarrow> Inl e
      | Inr message \<Rightarrow>
     (case validate_claude_json pd (extract_response_text message) doc_type of Inl e \<Rightarrow> Inl e
      | Inr extraction \<Rightarrow>
          if \<not> pg_json_ok (JObj extraction) then Inl DataError
          else
            (case (case document_id of None \<Rightarrow> None | Some i \<Rightarrow> get_document i db) of
               Some d \<Rightarrow> Inr (extraction, put_document (extracted_document filename extraction d) db)
             | None \<Rightarrow>
                 (let i = Suc (doc_seq db);
                      d = \<lparr>doc_id = i, doc_filename = filename, doc_doc_type = doc_type_of extraction,
                           doc_status = ''received'', doc_raw_text = None, doc_extracted_data = None,
                           doc_source_type = None, doc_source_idempotency_key = None,
                           doc_source_message_id = None, doc_source_part_id = None,
                           doc_source_enqueued_at = None, doc_content_sha256 = None,
                           doc_shipment_id = None, doc_created_at = pg_now db\<rparr> in
                  Inr (extraction, (add_document (extracted_document filename extraction d) db)\<lparr>doc_seq := i\<rparr>))))))))"

definition validate_triage_json :: "pydantic \<Rightarrow> string \<Rightarrow> triage_decision result" where
  "validate_triage_json pd response_text =
     (case json_loads (strip_code_fences response_text) of
        None \<Rightarrow> Inl (ExtractionError (''Claude returned non-JSON triage output: '' @ repr_str response_text))
      | Some payload \<Rightarrow>
          (case TriageDecision pd payload of
             None \<Rightarrow> Inl (ExtractionError ''Claude JSON did not match the triage schema'')
           | Some t \<Rightarrow> Inr t))"

definition triage_exception ::
  "settings \<Rightarrow> pydantic \<Rightarrow> claude \<Rightarrow> string option \<Rightarrow> jdict option \<Rightarrow> jdict option \<Rightarrow> triage_decision result" where
  "triage_exception cfg pd cl exception_reason extraction match_result =
     (if ANTHROPIC_API_KEY cfg = [] then Inl (ExtractionError ''ANTHROPIC_API_KEY is not configured'')
      else (let obj = (\<lambda>x. case x of None \<Rightarrow> JNull | Some d \<Rightarrow> JObj d) in
        case cl_triage cl (JObj [(''exception_reason'', jstr_opt exception_reason),
                                 (''extraction'', obj extraction), (''match_result'', obj match_result)]) of
          Inl e \<Rightarrow> Inl e
        | Inr message \<Rightarrow> validate_triage_json pd (extract_response_text message)))"

section \<open>Only validated output is stored\<close>

definition extraction_ok :: "jdict \<Rightarrow> bool" where
  "extraction_ok e \<longleftrightarrow>
     (dget e ''load_number'' = JNull \<or> (\<exists>n. dget e ''load_number'' = JStr n \<and> load_number_check n
         \<and> normalize_load_number (Some n) = Inr (Some n)))
   \<and> (\<exists>c. dget e ''carrier_name'' = JStr c \<and> stripped c \<and> py_upper c = c)
   \<and> doc_type_of e \<in> {''invoice'', ''rate_confirmation'', ''bill_of_lading'', ''proof_of_delivery''}
   \<and> (doc_type_of e \<in> {''invoice'', ''rate_confirmation''} \<longrightarrow>
        (\<exists>f c. dget e ''total_amount'' = JFloat f \<and> \<not> flt f (Fin 0)
             \<and> dget e ''confidence'' = JFloat c \<and> fle (Fin 0) c \<and> fle c (Fin 1)))"

lemma bind_Some_iff: "(x \<bind> f) = Some y \<longleftrightarrow> (\<exists>a. x = Some a \<and> f a = Some y)"
  by (cases x) simp_all

lemma load_number_field_ok:
  assumes "load_number_field v = Some l"
  shows "l = None \<or> (\<exists>n. l = Some n \<and> load_number_check n \<and> normalize_load_number (Some n) = Inr (Some n))"
proof -
  from assms obtain r where "(case normalize_load_number r of Inl _ \<Rightarrow> None | Inr n \<Rightarrow> Some n) = Some l"
    by (auto simp: load_number_field_def bind_Some_iff)
  then have "normalize_load_number r = Inr l" by (cases "normalize_load_number r") simp_all
  then show ?thesis
    by (cases l) (auto intro: normalize_load_number_check normalize_load_number_idem)
qed

lemma carrier_field_ok: "carrier_field v = Some c \<Longrightarrow> stripped c \<and> py_upper c = c"
  by (auto simp: carrier_field_def stripped_strip)

lemma field_Some: "field d k f = Some x \<Longrightarrow> \<exists>v. f v = Some x"
  by (auto simp: field_def split: option.splits)

lemma field_facts:
  "field d k load_number_field = Some l \<Longrightarrow>
     l = None \<or> (\<exists>n. l = Some n \<and> load_number_check n \<and> normalize_load_number (Some n) = Inr (Some n))"
  "field d k carrier_field = Some c \<Longrightarrow> stripped c \<and> py_upper c = c"
  "field d k (literal_value xs) = Some s \<Longrightarrow> s \<in> set xs"
  "field d k (unit_interval pd) = Some f \<Longrightarrow> fle (Fin 0) f \<and> fle f (Fin 1)"
  by (auto dest!: field_Some load_number_field_ok carrier_field_ok literal_value_Some
      simp: unit_interval_def bind_Some_iff split: if_splits)

lemma InvoiceExtraction_shape:
  assumes "InvoiceExtraction pd v = Some e"
  obtains d num car ln date tot items dt conf where
    "field d ''carrier_name'' carrier_field = Some car" "field d ''load_number'' load_number_field = Some ln"
    "\<not> flt tot (Fin 0)" "field d ''doc_type'' (literal_value [''invoice'', ''rate_confirmation'']) = Some dt"
    "field d ''confidence'' (unit_interval pd) = Some conf"
    "e = [(''invoice_number'', JStr num), (''carrier_name'', JStr car), (''load_number'', jstr_opt ln),
          (''invoice_date'', JStr date), (''total_amount'', JFloat tot), (''line_items'', JArr items),
          (''doc_type'', JStr dt), (''confidence'', JFloat conf)]"
  using assms by (cases v) (auto simp: InvoiceExtraction_def bind_Some_iff)

lemma BOLExtraction_shape:
  assumes "BOLExtraction pd v = Some e"
  obtains d num ln car shp con pick com pcs wt dt where
    "field d ''carrier_name'' carrier_field = Some car" "field d ''load_number'' load_number_field = Some ln"
    "field d ''doc_type'' (literal_value [''bill_of_lading'']) = Some dt"
    "e = [(''bol_number'', JStr num), (''load_number'', jstr_opt ln), (''carrier_name'', JStr car),
          (''shipper_name'', JStr shp), (''consignee_name'', JStr con), (''pickup_date'', JStr pick),
          (''commodity_description'', JStr com), (''pieces'', jint_opt pcs), (''weight_lbs'', jfloat_opt wt),
          (''doc_type'', JStr dt)]"
  using assms by (cases v) (auto simp: BOLExtraction_def bind_Some_iff)

lemma PODExtraction_shape:
  assumes "PODExtraction pd v = Some e"
  obtains d num ln car date time pcs cond rcv dt where
    "field d ''carrier_name'' carrier_field = Some car" "field d ''load_number'' load_number_field = Some ln"
    "field d ''doc_type'' (literal_value [''proof_of_delivery'']) = Some dt"
    "e = [(''bol_number'', jstr_opt num), (''load_number'', jstr_opt ln), (''carrier_name'', JStr car),
          (''delivery_date'', JStr date), (''delivery_time'', jstr_opt time), (''pieces_received'', jint_opt pcs),
          (''condition'', JStr cond), (''receiver_name'', jstr_opt rcv), (''doc_type'', JStr dt)]"
  using assms by (cases v) (auto simp: PODExtraction_def bind_Some_iff)

lemma jstr_opt_field:
  "l = None \<or> (\<exists>n. l = Some n \<and> P n) \<Longrightarrow> jstr_opt l = JNull \<or> (\<exists>n. jstr_opt l = JStr n \<and> P n)"
  by (auto simp: jstr_opt_def)

lemma InvoiceExtraction_ok:
  assumes "InvoiceExtraction pd v = Some e"
  shows "extraction_ok e"
  using assms
proof (rule InvoiceExtraction_shape)
  fix d num car ln date tot items dt conf
  assume f: "field d ''carrier_name'' carrier_field = Some car" "field d ''load_number'' load_number_field = Some ln"
    "\<not> flt tot (Fin 0)" "field d ''doc_type'' (literal_value [''invoice'', ''rate_confirmation'']) = Some dt"
    "field d ''confidence'' (unit_interval pd) = Some conf"
    "e = [(''invoice_number'', JStr num), (''carrier_name'', JStr car), (''load_number'', jstr_opt ln),
          (''invoice_date'', JStr date), (''total_amount'', JFloat tot), (''line_items'', JArr items),
          (''doc_type'', JStr dt), (''confidence'', JFloat conf)]"
  show ?thesis
    using jstr_opt_field [OF field_facts(1) [OF f(2)]] field_facts(2) [OF f(1)] field_facts(3) [OF f(4)]
      field_facts(4) [OF f(5)] f(3)
    unfolding f(6) extraction_ok_def doc_type_of_def by auto
qed

lemma BOLExtraction_ok:
  assumes "BOLExtraction pd v = Some e"
  shows "extraction_ok e"
  using assms
proof (rule BOLExtraction_shape)
  fix d num ln car shp con pick com pcs wt dt
  assume f: "field d ''carrier_name'' carrier_field = Some car" "field d ''load_number'' load_number_field = Some ln"
    "field d ''doc_type'' (literal_value [''bill_of_lading'']) = Some dt"
    "e = [(''bol_number'', JStr num), (''load_number'', jstr_opt ln), (''carrier_name'', JStr car),
          (''shipper_name'', JStr shp), (''consignee_name'', JStr con), (''pickup_date'', JStr pick),
          (''commodity_description'', JStr com), (''pieces'', jint_opt pcs), (''weight_lbs'', jfloat_opt wt),
          (''doc_type'', JStr dt)]"
  show ?thesis
    using jstr_opt_field [OF field_facts(1) [OF f(2)]] field_facts(2) [OF f(1)] field_facts(3) [OF f(3)]
    unfolding f(4) extraction_ok_def doc_type_of_def by simp
qed

lemma PODExtraction_ok:
  assumes "PODExtraction pd v = Some e"
  shows "extraction_ok e"
  using assms
proof (rule PODExtraction_shape)
  fix d num ln car date time pcs cond rcv dt
  assume f: "field d ''carrier_name'' carrier_field = Some car" "field d ''load_number'' load_number_field = Some ln"
    "field d ''doc_type'' (literal_value [''proof_of_delivery'']) = Some dt"
    "e = [(''bol_number'', jstr_opt num), (''load_number'', jstr_opt ln), (''carrier_name'', JStr car),
          (''delivery_date'', JStr date), (''delivery_time'', jstr_opt time), (''pieces_received'', jint_opt pcs),
          (''condition'', JStr cond), (''receiver_name'', jstr_opt rcv), (''doc_type'', JStr dt)]"
  show ?thesis
    using jstr_opt_field [OF field_facts(1) [OF f(2)]] field_facts(2) [OF f(1)] field_facts(3) [OF f(3)]
    unfolding f(4) extraction_ok_def doc_type_of_def by simp
qed

lemma validate_claude_json_ok: "validate_claude_json pd t dt = Inr e \<Longrightarrow> extraction_ok e"
  by (auto simp: validate_claude_json_def EXTRACTION_SCHEMAS_def
      split: option.splits if_splits dest: InvoiceExtraction_ok BOLExtraction_ok PODExtraction_ok)

lemma extract_document_cases:
  assumes "extract_document cfg pd cl bytes filename i db = Inr (e, db')"
  shows "extraction_ok e" "pg_json_ok (JObj e)" "\<exists>t. detect_file_type filename = Inr t"
    "db' = (case (case i of None \<Rightarrow> None | Some i \<Rightarrow> get_document i db) of
        Some d \<Rightarrow> put_document (extracted_document filename e d) db
      | None \<Rightarrow> (add_document (extracted_document filename e \<lparr>doc_id = Suc (doc_seq db), doc_filename = filename,
            doc_doc_type = doc_type_of e, doc_status = ''received'', doc_raw_text = None, doc_extracted_data = None,
            doc_source_type = None, doc_source_idempotency_key = None, doc_source_message_id = None,
            doc_source_part_id = None, doc_source_enqueued_at = None, doc_content_sha256 = None,
            doc_shipment_id = None, doc_created_at = pg_now db\<rparr>) db)\<lparr>doc_seq := Suc (doc_seq db)\<rparr>)"
proof -
  from assms obtain block where block: "build_document_block bytes filename = Inr block"
    by (auto simp: extract_document_def split: sum.splits)
  then show "\<exists>t. detect_file_type filename = Inr t"
    by (auto simp: build_document_block_def split: sum.splits)
  from assms block obtain c where c: "cl_classify cl block = Inr c"
    by (auto simp: extract_document_def split: sum.splits if_splits)
  from assms block c obtain t where t: "validate_document_type pd (extract_response_text c) = Inr t"
    by (auto simp: extract_document_def split: sum.splits if_splits)
  from assms block c t obtain m where m: "cl_extract cl block t = Inr m"
    by (auto simp: extract_document_def split: sum.splits if_splits)
  from assms block c t m obtain x where x: "validate_claude_json pd (extract_response_text m) t = Inr x"
    by (auto simp: extract_document_def split: sum.splits if_splits)
  from assms block c t m x have e: "x = e" and ok: "pg_json_ok (JObj e)"
    by (auto simp: extract_document_def Let_def split: if_splits option.splits)
  show "extraction_ok e" using validate_claude_json_ok [OF x] by (simp add: e)
  show "pg_json_ok (JObj e)" by (rule ok)
  from assms block c t m x ok show "db' = (case (case i of None \<Rightarrow> None | Some i \<Rightarrow> get_document i db) of
        Some d \<Rightarrow> put_document (extracted_document filename e d) db
      | None \<Rightarrow> (add_document (extracted_document filename e \<lparr>doc_id = Suc (doc_seq db), doc_filename = filename,
            doc_doc_type = doc_type_of e, doc_status = ''received'', doc_raw_text = None, doc_extracted_data = None,
            doc_source_type = None, doc_source_idempotency_key = None, doc_source_message_id = None,
            doc_source_part_id = None, doc_source_enqueued_at = None, doc_content_sha256 = None,
            doc_shipment_id = None, doc_created_at = pg_now db\<rparr>) db)\<lparr>doc_seq := Suc (doc_seq db)\<rparr>)"
    unfolding extract_document_def
    by (cases "case i of None \<Rightarrow> None | Some i \<Rightarrow> get_document i db") (auto simp: e Let_def split: if_splits)
qed

text \<open>C11: whatever the model answers, an extraction that is returned passed its schema (a
  normalised load number or none, a trimmed upper-case carrier, a known document type, and
  on invoices an amount that is not negative and a confidence in the unit interval), and
  exactly that extraction is what the document row holds; a file of another type never
  reaches the model.\<close>

theorem extract_document_stores_validated:
  assumes "extract_document cfg pd cl bytes filename (Some i) db = Inr (e, db')" and "get_document i db = Some d"
  shows "extraction_ok e \<and> (\<exists>t. detect_file_type filename = Inr t)
    \<and> get_document i db' = Some (extracted_document filename e d)
    \<and> (\<forall>j. j \<noteq> i \<longrightarrow> get_document j db' = get_document j db)"
proof -
  note cases = extract_document_cases [OF assms(1)]
  have "doc_id d = i" using assms(2) by (rule doc_store.look_rkey)
  then have id: "doc_id (extracted_document filename e d) = i" by (simp add: extracted_document_def)
  have db': "db' = put_document (extracted_document filename e d) db" using cases(4) assms(2) by simp
  show ?thesis
    using cases(1,3) id assms(2) doc_store.look_store [of _ "extracted_document filename e d" db]
    unfolding db' by simp
qed

text \<open>A concrete answer: a bill of lading in fences.\<close>

definition sample_pydantic :: pydantic where
  "sample_pydantic = \<lparr>pd_float = (\<lambda>v. case v of JFloat f \<Rightarrow> Some f | JInt i \<Rightarrow> Some (Fin (of_int i)) | _ \<Rightarrow> None),
     pd_int = (\<lambda>v. case v of JInt i \<Rightarrow> Some i | _ \<Rightarrow> None),
     pd_datetime = (\<lambda>v. case v of JStr s \<Rightarrow> (if s = [] then None else Some (digits_val s, True)) | _ \<Rightarrow> None),
     pd_datetime_str = show_digits, pd_json_error = (\<lambda>_. ''bad''), pd_error = (\<lambda>_. ''bad'')\<rparr>"

definition sample_bol :: jdict where
  "sample_bol = [(''bol_number'', JStr ''B1''), (''load_number'', JStr '' ld-7 ''), (''carrier_name'', JStr ''Acme''),
     (''shipper_name'', JStr ''S''), (''consignee_name'', JStr ''C''), (''pickup_date'', JStr ''2026-07-01''),
     (''commodity_description'', JStr ''steel''), (''pieces'', JInt 4), (''weight_lbs'', JNull),
     (''doc_type'', JStr ''bill_of_lading'')]"

definition text_block :: "string \<Rightarrow> content_block" where
  "text_block t = \<lparr>cb_type = Some ''text'', cb_text = Some t\<rparr>"

definition sample_claude :: claude where
  "sample_claude = \<lparr>cl_classify = (\<lambda>_. Inr [text_block '' Bill_of_lading '']),
     cl_extract = (\<lambda>_ _. Inr [text_block (json_dumps '','' '':'' (JObj sample_bol))]),
     cl_triage = (\<lambda>_. Inr [text_block (json_dumps '','' '':'' (JObj [(''route'', JStr ''escalate_standard''),
        (''reasoning'', JStr ''amounts differ''), (''confidence'', JInt 1)]))])\<rparr>"

definition sample_settings :: settings where
  "sample_settings = default_settings\<lparr>ANTHROPIC_API_KEY := ''k''\<rparr>"

theorem extract_document_stores_validated_witness:
  "\<exists>e db'. extract_document sample_settings sample_pydantic sample_claude ''raw'' ''a.pdf'' (Some 1) sample_documents_db
        = Inr (e, db') \<and> extraction_ok e \<and> doc_type_of e = ''bill_of_lading''
      \<and> get_document 1 db' = Some (extracted_document ''a.pdf'' e sample_document)"
proof -
  have "case extract_document sample_settings sample_pydantic sample_claude ''raw'' ''a.pdf'' (Some 1) sample_documents_db
      of Inr (e, _) \<Rightarrow> doc_type_of e = ''bill_of_lading'' | Inl _ \<Rightarrow> False"
    by code_simp
  then obtain e db' where run: "extract_document sample_settings sample_pydantic sample_claude ''raw'' ''a.pdf''
      (Some 1) sample_documents_db = Inr (e, db')" and dt: "doc_type_of e = ''bill_of_lading''"
    by (auto split: sum.splits prod.splits)
  have "get_document 1 sample_documents_db = Some sample_document"
    by (simp add: get_document_def sample_documents_db_def sample_document_def new_document_def add_document_def
        fresh_database_def Let_def)
  from extract_document_stores_validated [OF run this] run dt show ?thesis by auto
qed

end
