(* ===== verification/Workflow.thy ===== *)
theory Workflow
  imports Audit_Log Document_Extraction
begin

text \<open>
  The document workflow (\<open>app/workflow/state.py\<close>, \<open>nodes.py\<close>, \<open>graph.py\<close>): the state, one
  definition per node with the database calls it makes, the routing functions, and the
  declared graph as the inductive step relation \<open>graph_step\<close>. A node returns a partial
  update; the merge LangGraph makes (fields replaced, \<open>messages\<close> appended) is written out
  in each node. The engine that drives the graph is not part of this repository and
  appears only as a contract (theory \<open>Graph_Engine\<close>).
\<close>

section \<open>State\<close>

text \<open>The \<open>match_result\<close> dict in its three shapes; an absent key is \<open>None\<close>.\<close>

record match_result =
  mr_matched :: bool
  mr_requires_review :: bool
  mr_reason :: "string option"
  mr_shipment_id :: "uuid option"
  mr_result_id :: "uuid option"
  mr_reconciliation_status :: "string option"
  mr_checks :: "recon_check list option"
  mr_missing_docs :: "string list option"
  mr_exception_reasons :: "string list option"
  mr_reviewable :: "string list option"

record workflow_state =
  ws_run_id :: string
  ws_document_id :: nat
  ws_file_bytes :: string
  ws_filename :: string
  ws_extraction :: "jdict option"
  ws_match_result :: "match_result option"
  ws_exception_reason :: "string option"
  ws_triage_route :: "string option"
  ws_triage_reasoning :: "string option"
  ws_triage_confidence :: "pyfloat option"
  ws_human_decision :: "string option"
  ws_status :: string
  ws_processing_status :: "string option"
  ws_posting_status :: "string option"
  ws_review_disposition :: "string option"
  ws_messages :: "string list"
  ws_iteration_count :: nat

definition outcome_text :: "check_outcome \<Rightarrow> string" where
  "outcome_text c = (case c of Passed \<Rightarrow> ''passed'' | Failed \<Rightarrow> ''failed'' | NotEvaluated \<Rightarrow> ''not_evaluated'')"

definition check_json :: "recon_check \<Rightarrow> json" where
  "check_json c = JObj [(''check_name'', JStr (check_name c)), (''outcome'', JStr (outcome_text (check_outcome c))),
     (''details'', JStr (check_details c)), (''reason_code'', jstr_opt (check_reason_code c))]"

definition match_result_json :: "match_result \<Rightarrow> jdict" where
  "match_result_json m =
     (let key = (\<lambda>k x f. case x of None \<Rightarrow> [] | Some v \<Rightarrow> [(k, f v)]) in
      [(''matched'', JBool (mr_matched m)), (''requires_review'', JBool (mr_requires_review m))]
      @ key ''reason'' (mr_reason m) JStr @ key ''shipment_id'' (mr_shipment_id m) JStr
      @ key ''reconciliation_result_id'' (mr_result_id m) JStr
      @ key ''reconciliation_status'' (mr_reconciliation_status m) JStr
      @ (case mr_checks m of None \<Rightarrow> [] | Some cs \<Rightarrow> [(''checks'', JArr (map check_json cs))])
      @ (case mr_missing_docs m of None \<Rightarrow> [] | Some xs \<Rightarrow> [(''missing_docs'', jstr_list xs)])
      @ (case mr_exception_reasons m of None \<Rightarrow> [] | Some xs \<Rightarrow> [(''exception_reasons'', jstr_list xs)])
      @ (case mr_reviewable m of None \<Rightarrow> [] | Some xs \<Rightarrow> [(''reviewable_exception_reasons'', jstr_list xs)]))"

text \<open>What a node run ends with: a state update, a pause at \<open>interrupt()\<close> or an exception.\<close>

datatype node_outcome = Updated workflow_state | Interrupted jdict | Raised py_error

record env =
  env_settings :: settings
  env_pydantic :: pydantic
  env_claude :: claude

definition sla_duration :: "settings \<Rightarrow> timedelta" where
  "sla_duration cfg = MISSING_DOCUMENT_SLA_HOURS cfg * 3600 * 1000000"

definition text_set :: "string option \<Rightarrow> bool" where
  "text_set x \<longleftrightarrow> (case x of None \<Rightarrow> False | Some s \<Rightarrow> s \<noteq> [])"

section \<open>Nodes\<close>

definition next_iteration :: "workflow_state \<Rightarrow> nat" where
  "next_iteration s = ws_iteration_count s + 1"

definition step_update :: "string \<Rightarrow> workflow_state \<Rightarrow> workflow_state" where
  "step_update message s = s\<lparr>ws_messages := ws_messages s @ [message], ws_iteration_count := next_iteration s\<rparr>"

definition extraction_summary :: "jdict \<Rightarrow> jdict" where
  "extraction_summary e = [(''doc_type'', dget e ''doc_type''), (''carrier_name'', dget e ''carrier_name''),
     (''load_number'', dget e ''load_number''), (''total_amount'', dget e ''total_amount'')]"

definition extraction_dict :: "workflow_state \<Rightarrow> jdict" where
  "extraction_dict s = (case ws_extraction s of None \<Rightarrow> [] | Some e \<Rightarrow> e)"

definition log_exception_raised_once :: "string \<Rightarrow> workflow_state \<Rightarrow> database \<Rightarrow> database result" where
  "log_exception_raised_once run_id s db =
     (if list_ex (\<lambda>a. al_run_id a = run_id \<and> al_event_type a = ''exception_raised'') (audit_logs db) then Inr db
      else log_audit_event run_id ''exception_raised''
             (Some [(''exception_reason'', jstr_opt (ws_exception_reason s)),
                    (''extraction'', JObj (extraction_summary (extraction_dict s)))]) ''system'' db)"

definition extract_node :: "env \<Rightarrow> workflow_state \<Rightarrow> database \<Rightarrow> node_outcome \<times> database" where
  "extract_node env s db =
     (case extract_document (env_settings env) (env_pydantic env) (env_claude env)
             (ws_file_bytes s) (ws_filename s) (Some (ws_document_id s)) db of
        Inl e \<Rightarrow> (Raised e, db)
      | Inr (extraction, db) \<Rightarrow>
          (case log_audit_event (ws_run_id s) ''extracted''
                  (Some [(''extraction'', JObj (extraction_summary extraction))]) ''system'' db of
             Inl e \<Rightarrow> (Raised e, db)
           | Inr db \<Rightarrow>
               (Updated (step_update ''Extracted document with Claude vision.''
                  (s\<lparr>ws_extraction := Some extraction, ws_status := ''extracted'',
                     ws_processing_status := Some ''running''\<rparr>)), db)))"

text \<open>The checks of the model always carry an outcome, so the clause for older dicts
  without one never applies.\<close>

definition reconciliation_exception_reason :: "string list \<Rightarrow> recon_check list \<Rightarrow> string" where
  "reconciliation_exception_reason exception_reasons checks =
     (let failed_checks = filter (\<lambda>c. check_outcome c = Failed) checks in
      if failed_checks = [] then py_join '', '' exception_reasons
      else py_join '', '' exception_reasons @ '': ''
             @ py_join ''; '' (map (\<lambda>c. check_name c @ '': '' @ check_details c) failed_checks))"

definition load_number_of :: "jdict \<Rightarrow> string option" where
  "load_number_of e = (case dget e ''load_number'' of JStr n \<Rightarrow> Some n | _ \<Rightarrow> None)"

definition no_match :: "string \<Rightarrow> string list option \<Rightarrow> string list option \<Rightarrow> match_result" where
  "no_match reason missing reasons = \<lparr>mr_matched = False, mr_requires_review = True, mr_reason = Some reason,
     mr_shipment_id = None, mr_result_id = None, mr_reconciliation_status = None, mr_checks = None,
     mr_missing_docs = missing, mr_exception_reasons = reasons, mr_reviewable = None\<rparr>"

definition matched_result :: "reconciliation_result \<Rightarrow> shipment \<Rightarrow> match_result" where
  "matched_result r s = (let reviewable = filter (\<lambda>x. x \<notin> set SLA_REASON_CODES) (rr_exception_reasons r) in
     \<lparr>mr_matched = (rr_exception_reasons r = []), mr_requires_review = (reviewable \<noteq> []), mr_reason = None,
      mr_shipment_id = Some (sh_id s), mr_result_id = Some (rr_id r),
      mr_reconciliation_status = Some (sh_reconciliation_status s), mr_checks = Some (rr_checks r),
      mr_missing_docs = Some (rr_missing_docs r), mr_exception_reasons = Some (rr_exception_reasons r),
      mr_reviewable = Some reviewable\<rparr>)"

text \<open>The transaction of the match: assembly and reconciliation commit together.\<close>

definition match_document ::
  "env \<Rightarrow> datetime \<Rightarrow> workflow_state \<Rightarrow> database \<Rightarrow> (match_result \<times> database) result" where
  "match_document env now s db =
     (let extraction = extraction_dict s in
      case get_document (ws_document_id s) db of
        None \<Rightarrow> Inr (no_match ''document_not_found'' None None, db)
      | Some document \<Rightarrow>
          (case upsert_shipment (load_number_of extraction) document extraction db of
             Inl e \<Rightarrow> Inl e
           | Inr (None, db) \<Rightarrow> Inr (no_match ''no_load_number'' (Some []) (Some [''no_load_number'']), db)
           | Inr (Some shipment, db) \<Rightarrow>
               (case reconcile_shipment shipment (Some (ws_run_id s)) now (sla_duration (env_settings env))
                       None None db of
                  Inl e \<Rightarrow> Inl e
                | Inr (r, shipment, db) \<Rightarrow> Inr (matched_result r shipment, db))))"

definition apply_match :: "match_result \<Rightarrow> workflow_state \<Rightarrow> workflow_state" where
  "apply_match m s =
     (if \<not> mr_requires_review m then
        step_update (''Reconciled shipment state for load number ''
                     @ py_str (dget (extraction_dict s) ''load_number'') @ ''.'')
          (s\<lparr>ws_match_result := Some m, ws_exception_reason := None, ws_status := ''matched'',
             ws_processing_status := Some ''running''\<rparr>)
      else
        (let reasons = (case mr_reviewable m of
               Some (r # rs) \<Rightarrow> r # rs
             | _ \<Rightarrow> (case mr_reason m of None \<Rightarrow> [] | Some r \<Rightarrow> [r]));
             checks = filter (\<lambda>c. case check_reason_code c of None \<Rightarrow> True | Some r \<Rightarrow> r \<notin> set SLA_REASON_CODES)
                        (case mr_checks m of None \<Rightarrow> [] | Some cs \<Rightarrow> cs);
             reason = reconciliation_exception_reason (filter (\<lambda>r. r \<noteq> []) reasons) checks in
         step_update (''Shipment reconciliation failed: '' @ reason @ ''.'')
           (s\<lparr>ws_match_result := Some m, ws_exception_reason := Some reason, ws_status := ''exception'',
              ws_processing_status := Some ''running''\<rparr>)))"

definition match_node :: "env \<Rightarrow> datetime \<Rightarrow> workflow_state \<Rightarrow> database \<Rightarrow> node_outcome \<times> database" where
  "match_node env now s db = (case match_document env now s db of
     Inl e \<Rightarrow> (Raised e, db)
   | Inr (m, db) \<Rightarrow> (Updated (apply_match m s), db))"

definition supervisor_node :: "env \<Rightarrow> workflow_state \<Rightarrow> database \<Rightarrow> node_outcome \<times> database" where
  "supervisor_node env s db =
     (case triage_exception (env_settings env) (env_pydantic env) (env_claude env) (ws_exception_reason s)
             (ws_extraction s) (map_option match_result_json (ws_match_result s)) of
        Inl e \<Rightarrow> (Raised e, db)
      | Inr t \<Rightarrow>
          (case log_audit_event (ws_run_id s) ''triaged''
                  (Some [(''route'', JStr (td_route t)), (''reasoning'', JStr (td_reasoning t)),
                         (''confidence'', JFloat (td_confidence t))]) ''system'' db of
             Inl e \<Rightarrow> (Raised e, db)
           | Inr db \<Rightarrow>
               (Updated (step_update (''Triage supervisor routed exception as '' @ td_route t @ ''.'')
                  (s\<lparr>ws_triage_route := Some (td_route t), ws_triage_reasoning := Some (td_reasoning t),
                     ws_triage_confidence := Some (td_confidence t)\<rparr>)), db)))"

definition review_payload :: "workflow_state \<Rightarrow> jdict" where
  "review_payload s = [(''reason'', jstr_opt (ws_exception_reason s)),
     (''extraction'', case ws_extraction s of None \<Rightarrow> JNull | Some e \<Rightarrow> JObj e),
     (''triage_route'', jstr_opt (ws_triage_route s)), (''triage_reasoning'', jstr_opt (ws_triage_reasoning s)),
     (''triage_confidence'', jfloat_opt (ws_triage_confidence s))]"

text \<open>\<open>interrupt()\<close> pauses the run, and returns the decision once one is given.\<close>

definition exception_node :: "string option \<Rightarrow> workflow_state \<Rightarrow> database \<Rightarrow> node_outcome \<times> database" where
  "exception_node resume s db =
     (case log_exception_raised_once (ws_run_id s) s db of
        Inl e \<Rightarrow> (Raised e, db)
      | Inr db \<Rightarrow>
          (case resume of
             None \<Rightarrow> (Interrupted (review_payload s), db)
           | Some decision \<Rightarrow>
               (Updated (step_update ''Paused for human review.''
                  (s\<lparr>ws_human_decision := Some decision, ws_status := ''awaiting_review'',
                     ws_processing_status := Some ''awaiting_review'', ws_review_disposition := Some decision\<rparr>)), db)))"

definition approve_node :: "workflow_state \<Rightarrow> workflow_state" where
  "approve_node s = step_update ''Human reviewer approved the exception.''
     (s\<lparr>ws_status := ''approved'', ws_review_disposition := Some ''approved''\<rparr>)"

definition reject_node :: "workflow_state \<Rightarrow> workflow_state" where
  "reject_node s = step_update ''Human reviewer rejected the exception.''
     (s\<lparr>ws_status := ''rejected'', ws_review_disposition := Some ''rejected''\<rparr>)"

definition is_decision :: "string option \<Rightarrow> bool" where
  "is_decision d \<longleftrightarrow> d = Some ''approved'' \<or> d = Some ''rejected''"

definition final_posting_status :: "workflow_state \<Rightarrow> string" where
  "final_posting_status s =
     (let decision = ws_human_decision s;
          status = (case ws_match_result s of None \<Rightarrow> None | Some m \<Rightarrow> mr_reconciliation_status m) in
      if decision = Some ''approved'' \<or> (decision = None \<and> status = Some ''reconciled'') then ''ready_for_posting''
      else if decision = Some ''rejected'' then ''blocked'' else ''not_ready'')"

definition complete_node :: "workflow_state \<Rightarrow> database \<Rightarrow> node_outcome \<times> database" where
  "complete_node s db =
     (let decision = ws_human_decision s in
      if text_set (ws_exception_reason s) \<and> \<not> is_decision decision then
        (case log_audit_event (ws_run_id s) ''failed''
                (Some [(''reason'', JStr ''unresolved_exception_circuit_breaker'')]) ''system'' db of
           Inl e \<Rightarrow> (Raised e, db)
         | Inr db \<Rightarrow>
             (Updated (step_update ''Workflow failed because an exception was not resolved.''
                (s\<lparr>ws_status := ''failed'', ws_processing_status := Some ''failed'',
                   ws_posting_status := Some ''not_ready''\<rparr>)), db))
      else
        (let legacy = (if is_decision decision then the decision else ''complete'');
             posting = final_posting_status s;
             done = Updated (step_update ''Workflow completed.''
                (s\<lparr>ws_status := legacy, ws_processing_status := Some ''complete'',
                   ws_posting_status := Some posting\<rparr>)) in
         if is_decision decision then (done, db)
         else
           (case log_audit_event (ws_run_id s) ''completed''
                   (Some [(''processing_status'', JStr ''complete''), (''posting_status'', JStr posting)])
                   ''system'' db of
              Inl e \<Rightarrow> (Raised e, db)
            | Inr db \<Rightarrow> (done, db))))"

section \<open>The graph\<close>

datatype node = Extract | Match | Supervisor | Exception | Approve | Reject | Complete

definition route_after_match :: "workflow_state \<Rightarrow> node" where
  "route_after_match s = (if ws_iteration_count s > 5 then Complete
     else if text_set (ws_exception_reason s) then Supervisor else Complete)"

definition route_after_exception :: "workflow_state \<Rightarrow> node" where
  "route_after_exception s = (if ws_iteration_count s > 5 then Complete
     else if ws_human_decision s = Some ''approved'' then Approve
     else if ws_human_decision s = Some ''rejected'' then Reject
     else Exception)"

text \<open>\<open>build_state_graph\<close>: the entry point and the edges; \<open>None\<close> is \<open>END\<close>.\<close>

definition entry_point :: node where "entry_point = Extract"

fun next_node :: "node \<Rightarrow> workflow_state \<Rightarrow> node option" where
  "next_node Extract s = Some Match"
| "next_node Match s = Some (route_after_match s)"
| "next_node Supervisor s = Some Exception"
| "next_node Exception s = Some (route_after_exception s)"
| "next_node Approve s = Some Complete"
| "next_node Reject s = Some Complete"
| "next_node Complete s = None"

fun run_node ::
  "env \<Rightarrow> datetime \<Rightarrow> node \<Rightarrow> string option \<Rightarrow> workflow_state \<Rightarrow> database \<Rightarrow> node_outcome \<times> database" where
  "run_node env now Extract resume s db = extract_node env s db"
| "run_node env now Match resume s db = match_node env now s db"
| "run_node env now Supervisor resume s db = supervisor_node env s db"
| "run_node env now Exception resume s db = exception_node resume s db"
| "run_node env now Approve resume s db = (Updated (approve_node s), db)"
| "run_node env now Reject resume s db = (Updated (reject_node s), db)"
| "run_node env now Complete resume s db = complete_node s db"

text \<open>A configuration of one thread: the node to run next, a resume value waiting for the
  paused \<open>interrupt()\<close>, the merged state, and the database. A node that updates moves the
  thread along its edge and consumes the resume value if it was the paused one; a node
  that raises or pauses leaves the thread where it is, with what it had committed; and a
  resume value can be supplied to a thread that has not ended.\<close>

record config =
  gc_next :: "node option"
  gc_resume :: "string option"
  gc_state :: workflow_state
  gc_db :: database

inductive graph_step :: "env \<Rightarrow> config \<Rightarrow> config \<Rightarrow> bool" for env where
  update: "gc_next c = Some n \<Longrightarrow> run_node env now n (gc_resume c) (gc_state c) (gc_db c) = (Updated s, db) \<Longrightarrow>
     graph_step env c \<lparr>gc_next = next_node n s, gc_resume = (if n = Exception then None else gc_resume c),
                       gc_state = s, gc_db = db\<rparr>"
| pause: "gc_next c = Some n \<Longrightarrow> run_node env now n (gc_resume c) (gc_state c) (gc_db c) = (Interrupted p, db) \<Longrightarrow>
     graph_step env c (c\<lparr>gc_db := db\<rparr>)"
| raise: "gc_next c = Some n \<Longrightarrow> run_node env now n (gc_resume c) (gc_state c) (gc_db c) = (Raised e, db) \<Longrightarrow>
     graph_step env c (c\<lparr>gc_db := db\<rparr>)"
| resume: "gc_next c \<noteq> None \<Longrightarrow> graph_step env c (c\<lparr>gc_resume := Some d\<rparr>)"

inductive_cases graph_stepE: "graph_step env c c'"

abbreviation graph_steps :: "env \<Rightarrow> config \<Rightarrow> config \<Rightarrow> bool" where
  "graph_steps env \<equiv> (graph_step env)\<^sup>*\<^sup>*"

definition start_config :: "workflow_state \<Rightarrow> database \<Rightarrow> config" where
  "start_config s db = \<lparr>gc_next = Some entry_point, gc_resume = None, gc_state = s, gc_db = db\<rparr>"

end
