(* ===== verification/Workflow_Safety.thy ===== *)
theory Workflow_Safety
  imports Workflow
begin

text \<open>
  What every run of the document workflow keeps, whatever the model answers, whatever the
  reviewer sends and however often a node is retried: the database invariants, the bound
  on the iteration counter, and the posting rule (nothing is ready for posting unless a
  reviewer approved it or it reconciled without an open exception).
\<close>

section \<open>Transactions of the nodes keep the tables\<close>

lemma insert_shipment_frame:
  "reconciliation_results (insert_shipment n db) = reconciliation_results db"
  "shipment_exceptions (insert_shipment n db) = shipment_exceptions db"
  "exception_events (insert_shipment n db) = exception_events db"
  "workflow_runs (insert_shipment n db) = workflow_runs db"
  "rate_confirmations (insert_shipment n db) = rate_confirmations db"
  "audit_logs (insert_shipment n db) = audit_logs db" "audit_seq (insert_shipment n db) = audit_seq db"
  "review_decisions (insert_shipment n db) = review_decisions db"
  "uuid4_at (insert_shipment n db) = uuid4_at db" "uuid_pos db \<le> uuid_pos (insert_shipment n db)"
  by (simp_all add: insert_shipment_def fresh_uuid_def add_shipment_def Let_def)

lemma same_but_documents_audit_seq: "same_but_documents db db' \<Longrightarrow> audit_seq db' = audit_seq db"
  by (rule same_but_documents_fields)

lemma upsert_shipment_frame:
  assumes "upsert_shipment lno d e db = Inr (Some s, db')" and "shipments_inv db"
  shows "reconciliation_results db' = reconciliation_results db" "shipment_exceptions db' = shipment_exceptions db"
    "exception_events db' = exception_events db" "workflow_runs db' = workflow_runs db"
    "rate_confirmations db' = rate_confirmations db" "audit_logs db' = audit_logs db" "audit_seq db' = audit_seq db"
    "review_decisions db' = review_decisions db" "uuid4_at db' = uuid4_at db" "uuid_pos db \<le> uuid_pos db'"
proof -
  from assms obtain n db2 and s0 s1 s2 :: shipment where
    s2: "attach_existing_rate_confirmation s1
       (put_document (d\<lparr>doc_shipment_id := Some (sh_id s0)\<rparr>) (insert_shipment n db)) = Inr (s2, db2)"
    and db': "db' = put_shipment s db2"
    by (rule upsert_shipment_SomeE) blast
  have "same_but_documents (insert_shipment n db) db2"
    using attach_frame [OF s2] by (simp add: same_but_documents_def put_document_def)
  note same = same_but_documents_fields [OF this]
  show "reconciliation_results db' = reconciliation_results db" "shipment_exceptions db' = shipment_exceptions db"
    "exception_events db' = exception_events db" "workflow_runs db' = workflow_runs db"
    "rate_confirmations db' = rate_confirmations db" "audit_logs db' = audit_logs db"
    "review_decisions db' = review_decisions db" "uuid4_at db' = uuid4_at db" "uuid_pos db \<le> uuid_pos db'"
    by (simp_all add: db' same insert_shipment_frame)
  show "audit_seq db' = audit_seq db" by (simp add: db' put_shipment_def same insert_shipment_frame)
qed

lemma upsert_shipment_db_inv:
  assumes up: "upsert_shipment lno d e db = Inr (Some s, db')" and inv: "db_inv db"
  shows "db_inv db'" "get_shipment (sh_id s) db' = Some s"
proof -
  note frame = upsert_shipment_frame [OF up db_invD(1) [OF inv]]
  have ships: "shipments_inv db'" using db_invD(1) [OF inv] up by (auto elim: upsert_shipment_core)
  have "exceptions_inv db'" using db_invD(2) [OF inv] frame by (rule_tac exceptions_inv_pool)
  moreover have "results_inv db'" using db_invD(3) [OF inv] frame by (rule_tac results_inv_pool)
  ultimately show "db_inv db'" using ships frame db_invD(4) [OF inv] by (simp add: db_inv_def)
  from up db_invD(1) [OF inv] show "get_shipment (sh_id s) db' = Some s"
  proof (rule upsert_shipment_core)
    fix s0 db1 assume "s0 \<in> set (shipments db1)" "extends_shipment s0 s" "shipments db' = set_row sh_id s (shipments db1)"
    then have "s \<in> set (shipments db')" by (auto simp: set_row_mem extends_shipment_def intro: rev_image_eqI [of s0])
    then show ?thesis using ships get_row_distinct [of sh_id "shipments db'" s]
      by (simp add: get_shipment_def shipments_inv_def)
  qed
qed

lemma put_document_frame_fields [simp]:
  "rate_confirmations (put_document d db) = rate_confirmations db"
  "reconciliation_results (put_document d db) = reconciliation_results db"
  "shipment_exceptions (put_document d db) = shipment_exceptions db"
  "exception_events (put_document d db) = exception_events db"
  "workflow_runs (put_document d db) = workflow_runs db" "audit_logs (put_document d db) = audit_logs db"
  "audit_seq (put_document d db) = audit_seq db" "review_decisions (put_document d db) = review_decisions db"
  by (simp_all add: put_document_def)

text \<open>What a thread needs of the database, and what every node keeps of it.\<close>

definition thread_inv :: "string \<Rightarrow> database \<Rightarrow> bool" where
  "thread_inv run_id db \<longleftrightarrow> db_inv db \<and> audit_inv db \<and> get_run run_id db \<noteq> None"

text \<open>The tables only the services around the graph write.\<close>

definition same_runs :: "database \<Rightarrow> database \<Rightarrow> bool" where
  "same_runs db db' \<longleftrightarrow> workflow_runs db' = workflow_runs db \<and> review_decisions db' = review_decisions db"

lemma same_runs_refl [simp]: "same_runs db db"
  by (simp add: same_runs_def)

lemma same_runs_trans: "same_runs db1 db2 \<Longrightarrow> same_runs db2 db3 \<Longrightarrow> same_runs db1 db3"
  by (simp add: same_runs_def)

lemma get_run_same_runs: "same_runs db db' \<Longrightarrow> get_run r db' = get_run r db"
  by (simp add: same_runs_def get_run_def)

definition keeps_thread :: "string \<Rightarrow> database \<Rightarrow> database \<Rightarrow> bool" where
  "keeps_thread run_id db db' \<longleftrightarrow> thread_inv run_id db' \<and> same_runs db db'"

lemma keeps_thread_refl: "thread_inv r db \<Longrightarrow> keeps_thread r db db"
  by (simp add: keeps_thread_def)

lemma keeps_thread_trans: "keeps_thread r db1 db2 \<Longrightarrow> keeps_thread r db2 db3 \<Longrightarrow> keeps_thread r db1 db3"
  by (auto simp: keeps_thread_def intro: same_runs_trans)

lemma keeps_thread_inv: "keeps_thread r db db' \<Longrightarrow> thread_inv r db'"
  by (simp add: keeps_thread_def)

lemma log_audit_event_keeps:
  assumes "log_audit_event r' t p a db = Inr db'" and "thread_inv r db"
  shows "keeps_thread r db db'"
proof -
  note frame = log_audit_event_frame [OF assms(1)]
  have "same_runs db db'" by (simp add: same_runs_def same_but_audit_fields [OF frame])
  with assms(2) show ?thesis
    using log_audit_event_inv [OF assms(1)] db_inv_same_but_audit [OF frame] get_run_same_runs [of db db' r]
    by (simp add: keeps_thread_def thread_inv_def)
qed

lemma log_audit_event_succeeds:
  "thread_inv r db \<Longrightarrow> \<exists>db'. log_audit_event r t p a db = Inr db'"
  unfolding thread_inv_def by (intro log_audit_event_returns) simp

lemma audit_inv_frame:
  "audit_inv db \<Longrightarrow> audit_logs db' = audit_logs db \<Longrightarrow> audit_seq db' = audit_seq db \<Longrightarrow>
   workflow_runs db' = workflow_runs db \<Longrightarrow> audit_inv db'"
  by (simp add: audit_inv_def get_run_def)

lemma put_document_keeps: "thread_inv r db \<Longrightarrow> keeps_thread r db (put_document d db)"
  unfolding keeps_thread_def thread_inv_def same_runs_def db_inv_def
  by (auto simp: get_run_def intro: audit_inv_frame [of db] shipments_inv_pool [of db] exceptions_inv_pool [of db]
      results_inv_pool [of db])

lemma reconcile_shipment_keeps:
  assumes inv: "thread_inv r db" and stored: "get_shipment (sh_id s) db = Some s"
    and run: "reconcile_shipment s (Some r) now sla src None db = Inr (x, t, db')"
  shows "keeps_thread r db db'"
proof -
  have dinv: "db_inv db" and ident: "evaluation_identity (Some r) None db"
    using inv by (auto simp: thread_inv_def evaluation_identity_def)
  from reconcile_shipment_effect [OF dinv ident stored, of now sla src] run have inv': "db_inv db'" by simp
  show ?thesis
  proof (cases rule: reconcile_shipment_steps [OF dinv ident, where s = s and now = now and sla = sla and src = src,
        case_names overflow stored])
    case overflow
    with run show ?thesis by simp
  next
    case (stored ev found r' db1 t')
    note f1 = same_but_results_fields [OF store_result_frame(1) [OF stored(3)]]
    have aseq: "audit_seq db1 = audit_seq db"
      using store_result_frame(1) [OF stored(3)] by (auto simp: same_but_results_def dest: arg_cong [where f = audit_seq])
    have "db' = snd (sync_missing_document_exception t' (evn_policy ev) (rr_id r') now (put_shipment t' db1))"
      using stored(6) run by simp
    then have "workflow_runs db' = workflow_runs db" "review_decisions db' = review_decisions db"
        "audit_logs db' = audit_logs db" "audit_seq db' = audit_seq db"
      by (simp_all add: f1 put_shipment_def aseq)
    with inv inv' show ?thesis
      by (auto simp: keeps_thread_def thread_inv_def same_runs_def get_run_def intro: audit_inv_frame [of db])
  qed
qed

lemma upsert_shipment_keeps:
  assumes inv: "thread_inv r db" and up: "upsert_shipment lno d e db = Inr (Some s, db')"
  shows "keeps_thread r db db'"
proof -
  have dinv: "db_inv db" using inv by (simp add: thread_inv_def)
  note frame = upsert_shipment_frame [OF up db_invD(1) [OF dinv]]
  show ?thesis
    using upsert_shipment_db_inv(1) [OF up dinv] frame inv
    by (auto simp: keeps_thread_def thread_inv_def same_runs_def get_run_def intro: audit_inv_frame [of db])
qed

lemma upsert_shipment_None: "upsert_shipment lno d e db = Inr (None, db') \<Longrightarrow> db' = db"
  by (auto simp: upsert_shipment_def Let_def split: sum.splits option.splits prod.splits)

lemma match_document_cases:
  assumes "match_document env now s db = Inr (m, db')"
  obtains (missing) "get_document (ws_document_id s) db = None" "m = no_match ''document_not_found'' None None" "db' = db"
  | (unnumbered) d where "get_document (ws_document_id s) db = Some d"
      "upsert_shipment (load_number_of (extraction_dict s)) d (extraction_dict s) db = Inr (None, db')"
      "m = no_match ''no_load_number'' (Some []) (Some [''no_load_number''])"
  | (reconciled) d t db1 r t' where "get_document (ws_document_id s) db = Some d"
      "upsert_shipment (load_number_of (extraction_dict s)) d (extraction_dict s) db = Inr (Some t, db1)"
      "reconcile_shipment t (Some (ws_run_id s)) now (sla_duration (env_settings env)) None None db1 = Inr (r, t', db')"
      "m = matched_result r t'"
proof (cases "get_document (ws_document_id s) db")
  case None
  with assms show thesis by (intro missing) (simp_all add: match_document_def)
next
  case (Some d)
  let ?up = "upsert_shipment (load_number_of (extraction_dict s)) d (extraction_dict s) db"
  show thesis
  proof (cases ?up)
    case (Inl e)
    with Some assms show thesis by (simp add: match_document_def)
  next
    case (Inr p)
    obtain sh db1 where p: "p = (sh, db1)" by fastforce
    show thesis
    proof (cases sh)
      case None
      with Some Inr p assms show thesis by (intro unnumbered [of d]) (simp_all add: match_document_def)
    next
      case (Some t)
      let ?rec = "reconcile_shipment t (Some (ws_run_id s)) now (sla_duration (env_settings env)) None None db1"
      obtain q where q: "?rec = Inr q"
        using assms Some Inr p \<open>get_document (ws_document_id s) db = Some d\<close>
        by (cases ?rec) (simp_all add: match_document_def)
      obtain r t' db2 where q': "q = (r, t', db2)" by (cases q)
      show thesis
        using assms Some Inr p q q' \<open>get_document (ws_document_id s) db = Some d\<close>
        by (intro reconciled [of d t db1 r t']) (simp_all add: match_document_def)
    qed
  qed
qed

lemma match_document_keeps:
  assumes inv: "thread_inv (ws_run_id s) db" and run: "match_document env now s db = Inr (m, db')"
  shows "keeps_thread (ws_run_id s) db db'"
  using run
proof (cases rule: match_document_cases)
  case missing
  with inv show ?thesis by (simp add: keeps_thread_refl)
next
  case (unnumbered d)
  with inv show ?thesis using upsert_shipment_None keeps_thread_refl by metis
next
  case (reconciled d t db1 r t')
  have k1: "keeps_thread (ws_run_id s) db db1" using inv reconciled(2) by (rule upsert_shipment_keeps)
  have "db_inv db" using inv by (simp add: thread_inv_def)
  then have "get_shipment (sh_id t) db1 = Some t" using reconciled(2) by (rule upsert_shipment_db_inv(2) [rotated])
  then have "keeps_thread (ws_run_id s) db1 db'"
    using keeps_thread_inv [OF k1] reconciled(3) by (intro reconcile_shipment_keeps)
  with k1 show ?thesis by (rule keeps_thread_trans)
qed

lemma extract_document_keeps:
  assumes "thread_inv r db" and "extract_document cfg pd cl b f (Some i) db = Inr (e, db')"
  shows "get_document i db \<noteq> None \<Longrightarrow> keeps_thread r db db'"
  using extract_document_cases(4) [OF assms(2)] put_document_keeps [OF assms(1)] by auto

section \<open>Every node keeps the thread\<close>

lemma step_update_simps [simp]:
  "ws_run_id (step_update m s) = ws_run_id s" "ws_document_id (step_update m s) = ws_document_id s"
  "ws_extraction (step_update m s) = ws_extraction s" "ws_match_result (step_update m s) = ws_match_result s"
  "ws_exception_reason (step_update m s) = ws_exception_reason s"
  "ws_human_decision (step_update m s) = ws_human_decision s"
  "ws_status (step_update m s) = ws_status s" "ws_processing_status (step_update m s) = ws_processing_status s"
  "ws_posting_status (step_update m s) = ws_posting_status s"
  "ws_messages (step_update m s) = ws_messages s @ [m]"
  "ws_iteration_count (step_update m s) = Suc (ws_iteration_count s)"
  by (simp_all add: step_update_def next_iteration_def)

lemma apply_match_simps [simp]:
  "ws_run_id (apply_match m s) = ws_run_id s" "ws_match_result (apply_match m s) = Some m"
  "ws_human_decision (apply_match m s) = ws_human_decision s"
  "ws_posting_status (apply_match m s) = ws_posting_status s"
  "ws_processing_status (apply_match m s) = Some ''running''"
  "ws_iteration_count (apply_match m s) = Suc (ws_iteration_count s)"
  by (simp_all add: apply_match_def Let_def)

lemma extract_document_db:
  assumes "thread_inv r db" and run: "extract_document cfg pd cl b f (Some i) db = Inr (e, db')"
  shows "keeps_thread r db db'"
proof (cases "get_document i db")
  case (Some d)
  then show ?thesis using extract_document_keeps [OF assms] by simp
next
  case None
  have "db' = db\<lparr>documents := documents db', doc_seq := doc_seq db'\<rparr>"
    using extract_document_cases(4) [OF run] None by (simp add: add_document_def)
  then obtain ds k where db': "db' = db\<lparr>documents := ds, doc_seq := k\<rparr>" by blast
  from assms(1) show ?thesis
    unfolding keeps_thread_def thread_inv_def same_runs_def db_inv_def db'
    by (auto simp: get_run_def intro: audit_inv_frame [of db] shipments_inv_pool [of db]
        exceptions_inv_pool [of db] results_inv_pool [of db])
qed

lemma run_node_keeps:
  assumes inv: "thread_inv (ws_run_id s) db" and run: "run_node env now n resume s db = (out, db')"
  shows "keeps_thread (ws_run_id s) db db'"
proof (cases n)
  case Extract
  with run inv show ?thesis
    by (auto simp: extract_node_def keeps_thread_refl split: sum.splits prod.splits
        dest!: extract_document_db [OF inv] intro: keeps_thread_trans log_audit_event_keeps [OF _ keeps_thread_inv])
next
  case Match
  with run inv show ?thesis
    by (auto simp: match_node_def keeps_thread_refl match_document_keeps split: sum.splits prod.splits)
next
  case Supervisor
  with run inv show ?thesis
    by (auto simp: supervisor_node_def keeps_thread_refl split: sum.splits intro: log_audit_event_keeps)
next
  case Exception
  with run inv show ?thesis
    by (auto simp: exception_node_def log_exception_raised_once_def keeps_thread_refl
        split: sum.splits option.splits if_splits intro: log_audit_event_keeps)
next
  case Complete
  with run inv show ?thesis
    by (auto simp: complete_node_def Let_def keeps_thread_refl
        split: sum.splits option.splits if_splits intro: log_audit_event_keeps)
qed (use run inv in \<open>auto simp: keeps_thread_refl\<close>)

lemma run_node_run_id:
  assumes "run_node env now n resume s db = (Updated s', db')"
  shows "ws_run_id s' = ws_run_id s"
  using assms
  by (cases n)
    (auto simp: extract_node_def match_node_def supervisor_node_def exception_node_def
      approve_node_def reject_node_def complete_node_def Let_def
      split: sum.splits prod.splits option.splits if_splits)

lemma graph_step_keeps:
  "graph_step env c c' \<Longrightarrow> thread_inv (ws_run_id (gc_state c)) (gc_db c) \<Longrightarrow>
   ws_run_id (gc_state c') = ws_run_id (gc_state c) \<and> keeps_thread (ws_run_id (gc_state c)) (gc_db c) (gc_db c')"
  by (induction rule: graph_step.induct) (auto simp: run_node_run_id keeps_thread_refl dest: run_node_keeps)

lemma graph_steps_keep:
  assumes "graph_steps env c c'" and "thread_inv (ws_run_id (gc_state c)) (gc_db c)"
  shows "ws_run_id (gc_state c') = ws_run_id (gc_state c) \<and> keeps_thread (ws_run_id (gc_state c)) (gc_db c) (gc_db c')"
  using assms
proof (induction rule: rtranclp_induct)
  case base
  then show ?case by (simp add: keeps_thread_refl)
next
  case (step c1 c2)
  then show ?case
    using graph_step_keeps [OF step.hyps(2)] keeps_thread_inv keeps_thread_trans by metis
qed

text \<open>C8: along every run of a thread, retries, crashes and reviews included, the table
  invariants and the audit trail stay consistent, and the graph itself never writes a
  workflow run or a review decision.\<close>

theorem workflow_keeps_database:
  assumes "graph_steps env c c'" and "thread_inv (ws_run_id (gc_state c)) (gc_db c)"
  shows "db_inv (gc_db c') \<and> audit_inv (gc_db c') \<and> workflow_runs (gc_db c') = workflow_runs (gc_db c)
    \<and> review_decisions (gc_db c') = review_decisions (gc_db c)"
  using graph_steps_keep [OF assms] by (simp add: keeps_thread_def thread_inv_def same_runs_def)

section \<open>Reasons\<close>

definition CONTENT_REASONS :: "string list" where
  "CONTENT_REASONS = [''amount_variance'', ''carrier_mismatch'', ''bol_pickup_date_mismatch'', ''pod_incomplete'']"

lemma CONTENT_REASONS_nonempty: "x \<in> set CONTENT_REASONS \<Longrightarrow> x \<noteq> []"
proof
  assume "x \<in> set CONTENT_REASONS" "x = []"
  then show False by (simp add: CONTENT_REASONS_def)
qed

lemma add_check_reason:
  assumes "x \<in> set CONTENT_REASONS"
  shows "set (snd (add_check n out d (Some x) acc)) \<subseteq> set (snd acc) \<union> set CONTENT_REASONS"
proof (cases "out = Failed")
  case True
  have "x \<noteq> []" using assms by (rule CONTENT_REASONS_nonempty)
  then have "snd (add_check n out d (Some x) acc) = snd acc @ [x]" by (simp add: add_check_def True)
  with assms show ?thesis by simp
next
  case False
  then show ?thesis by (simp add: add_check_def)
qed

lemma add_check_no_reason: "snd (add_check n NotEvaluated d r acc) = snd acc"
  by (simp add: add_check_def)

lemma content_check_reasons:
  "set (snd (amount_check i r acc)) \<subseteq> set (snd acc) \<union> set CONTENT_REASONS"
  "set (snd (carrier_check x y acc)) \<subseteq> set (snd acc) \<union> set CONTENT_REASONS"
  "set (snd (pickup_check p q acc)) \<subseteq> set (snd acc) \<union> set CONTENT_REASONS"
  "set (snd (delivery_check h pod acc)) \<subseteq> set (snd acc) \<union> set CONTENT_REASONS"
proof -
  have m: "''amount_variance'' \<in> set CONTENT_REASONS" "''carrier_mismatch'' \<in> set CONTENT_REASONS"
      "''bol_pickup_date_mismatch'' \<in> set CONTENT_REASONS" "''pod_incomplete'' \<in> set CONTENT_REASONS"
    by (simp_all add: CONTENT_REASONS_def)
  show "set (snd (amount_check i r acc)) \<subseteq> set (snd acc) \<union> set CONTENT_REASONS"
    using add_check_reason [OF m(1)] by (cases i; cases r) (simp_all add: amount_check_def add_check_no_reason)
  show "set (snd (carrier_check x y acc)) \<subseteq> set (snd acc) \<union> set CONTENT_REASONS"
    using add_check_reason [OF m(2)] by (simp add: carrier_check_def add_check_no_reason)
  show "set (snd (pickup_check p q acc)) \<subseteq> set (snd acc) \<union> set CONTENT_REASONS"
    using add_check_reason [OF m(3)] by (cases p; cases q) (simp_all add: pickup_check_def add_check_no_reason)
  show "set (snd (delivery_check h pod acc)) \<subseteq> set (snd acc) \<union> set CONTENT_REASONS"
    using add_check_reason [OF m(4)] by (simp add: delivery_check_def add_check_no_reason)
qed

lemma summary_check_reasons:
  "snd (add_check n (if b then NotEvaluated else Passed) d r acc) = snd acc"
  by (simp add: add_check_def)

lemma evaluate_shipment_reasons:
  assumes "evaluate_shipment s i r b p now sla = Inr ev"
  shows "set (evn_exception_reasons ev) \<subseteq> set CONTENT_REASONS \<union> set SLA_REASON_CODES"
proof -
  have chain: "set (snd (delivery_check h pod (pickup_check x y (carrier_check c c' (amount_check a a' ([], []))))))
      \<subseteq> set CONTENT_REASONS" for h pod x y c c' a a'
    using content_check_reasons(1) [of a a' "([], [])"]
      content_check_reasons(2) [of c c' "amount_check a a' ([], [])"]
      content_check_reasons(3) [of x y "carrier_check c c' (amount_check a a' ([], []))"]
      content_check_reasons(4) [of h pod "pickup_check x y (carrier_check c c' (amount_check a a' ([], [])))"]
    by auto
  from assms obtain a a' where am: "amount_from i [''total_amount'', ''invoice_total''] = Inr a"
      "amount_from r [''agreed_rate'', ''total_amount'', ''rate''] = Inr a'"
    by (auto simp: evaluate_shipment_def split: sum.splits)
  let ?reasons = "snd (delivery_check (sh_has_pod s) p (pickup_check
      (parse_date (py_or (dget b ''pickup_date'') (dget b ''shipment_date'')))
      (parse_date (py_or (dget r ''shipment_date'') (dget r ''invoice_date'')))
      (carrier_check (normalize_carrier (dget i ''carrier_name'')) (normalize_carrier (dget r ''carrier_name''))
        (amount_check a a' ([], [])))))"
  have "map_sum id evn_exception_reasons (evaluate_shipment s i r b p now sla) =
      Inr (?reasons @ pol_reason_codes (evaluate_missing_document_policy s now sla))"
    by (simp add: evaluate_shipment_def Let_def am summary_check_reasons)
  with assms have "evn_exception_reasons ev = ?reasons @ pol_reason_codes (evaluate_missing_document_policy s now sla)"
    by simp
  moreover have "set ?reasons \<subseteq> set CONTENT_REASONS" by (rule chain)
  ultimately show ?thesis using policy_reasons_sla [of s now sla] by auto
qed

lemma reconcile_shipment_reasons:
  assumes inv: "db_inv db" and ident: "evaluation_identity run_id ekey db"
    and run: "reconcile_shipment s run_id now sla src ekey db = Inr (r, t, db')"
  shows "set (rr_exception_reasons r) \<subseteq> set CONTENT_REASONS \<union> set SLA_REASON_CODES"
proof (cases rule: reconcile_shipment_steps [OF inv ident, where s = s and now = now and sla = sla and src = src,
      case_names overflow stored])
  case overflow
  with run show ?thesis by simp
next
  case (stored ev found r' db1 t')
  have "rr_exception_reasons r' = evn_exception_reasons ev"
    using store_result_row(7) [OF db_invD(3) [OF inv] stored(2,3)] .
  with stored(1,6) run show ?thesis
    using evaluate_shipment_reasons by (auto simp: evaluation_of_def)
qed

lemma py_join_nonempty: "xs \<noteq> [] \<Longrightarrow> \<forall>x \<in> set xs. x \<noteq> [] \<Longrightarrow> py_join sep xs \<noteq> []"
  by (cases "(sep, xs)" rule: py_join.cases) auto

lemma exception_reason_text:
  "xs \<noteq> [] \<Longrightarrow> \<forall>x \<in> set xs. x \<noteq> [] \<Longrightarrow> reconciliation_exception_reason xs cs \<noteq> []"
  by (simp add: reconciliation_exception_reason_def Let_def py_join_nonempty)

lemma match_document_reviewable:
  assumes inv: "thread_inv (ws_run_id s) db" and run: "match_document env now s db = Inr (m, db')"
  shows "(\<exists>x. mr_reason m = Some x \<and> x \<noteq> [] \<and> mr_reviewable m = None \<and> mr_requires_review m)
    \<or> (\<exists>xs. mr_reviewable m = Some xs \<and> (\<forall>x \<in> set xs. x \<noteq> []) \<and> (mr_requires_review m \<longleftrightarrow> xs \<noteq> []))"
  using run
proof (cases rule: match_document_cases)
  case (reconciled d t db1 r t')
  have k1: "keeps_thread (ws_run_id s) db db1" using inv reconciled(2) by (rule upsert_shipment_keeps)
  then have "db_inv db1" "evaluation_identity (Some (ws_run_id s)) None db1"
    by (auto simp: keeps_thread_def thread_inv_def evaluation_identity_def)
  from reconcile_shipment_reasons [OF this reconciled(3)]
  have "\<forall>x \<in> set (filter (\<lambda>x. x \<notin> set SLA_REASON_CODES) (rr_exception_reasons r)). x \<noteq> []"
    using CONTENT_REASONS_nonempty by auto
  with reconciled(4) show ?thesis by (simp add: matched_result_def Let_def)
qed (simp_all add: no_match_def)

lemma text_set_simps [simp]: "\<not> text_set None" "text_set (Some x) \<longleftrightarrow> x \<noteq> []"
  by (simp_all add: text_set_def)

text \<open>A match that needs review leaves a non-empty reason, and only such a match does.\<close>

lemma apply_match_exception:
  assumes "thread_inv (ws_run_id s) db" and "match_document env now s db = Inr (m, db')"
  shows "text_set (ws_exception_reason (apply_match m s)) \<longleftrightarrow> mr_requires_review m"
proof (cases "mr_requires_review m")
  case False
  then show ?thesis by (simp add: apply_match_def)
next
  case True
  let ?reasons = "case mr_reviewable m of Some (r # rs) \<Rightarrow> r # rs
      | _ \<Rightarrow> (case mr_reason m of None \<Rightarrow> [] | Some r \<Rightarrow> [r])"
  from match_document_reviewable [OF assms] True
  have "?reasons \<noteq> [] \<and> (\<forall>x \<in> set ?reasons. x \<noteq> [])" by (auto split: list.splits)
  then have "filter (\<lambda>r. r \<noteq> []) ?reasons \<noteq> []" by (auto simp: filter_empty_conv)
  then have "reconciliation_exception_reason (filter (\<lambda>r. r \<noteq> []) ?reasons) cs \<noteq> []" for cs
    by (rule exception_reason_text) simp
  with True show ?thesis by (simp add: apply_match_def Let_def)
qed

section \<open>The posting rule\<close>

definition initial_state :: "workflow_state \<Rightarrow> bool" where
  "initial_state s \<longleftrightarrow> ws_iteration_count s = 0 \<and> ws_extraction s = None \<and> ws_match_result s = None
     \<and> ws_exception_reason s = None \<and> ws_human_decision s = None
     \<and> ws_processing_status s = Some ''running'' \<and> ws_posting_status s = Some ''not_ready''"

definition unfinished :: "workflow_state \<Rightarrow> bool" where
  "unfinished s \<longleftrightarrow> ws_posting_status s = Some ''not_ready'' \<and> ws_processing_status s \<noteq> Some ''complete''"

definition reconciled_clean :: "workflow_state \<Rightarrow> bool" where
  "reconciled_clean s \<longleftrightarrow> \<not> text_set (ws_exception_reason s)
     \<and> (\<exists>m. ws_match_result s = Some m \<and> \<not> mr_requires_review m \<and> mr_reconciliation_status m = Some ''reconciled'')"

definition finished_ok :: "workflow_state \<Rightarrow> bool" where
  "finished_ok s \<longleftrightarrow>
     (ws_posting_status s = Some ''ready_for_posting'' \<longleftrightarrow>
        ws_human_decision s = Some ''approved'' \<or> (ws_human_decision s = None \<and> reconciled_clean s))
   \<and> (ws_posting_status s = Some ''blocked'' \<longleftrightarrow> ws_human_decision s = Some ''rejected'')
   \<and> (ws_processing_status s = Some ''failed'' \<longleftrightarrow>
        text_set (ws_exception_reason s) \<and> \<not> is_decision (ws_human_decision s))
   \<and> (ws_processing_status s = Some ''failed'' \<or> ws_processing_status s = Some ''complete'')"

definition matched_clean :: "workflow_state \<Rightarrow> bool" where
  "matched_clean s \<longleftrightarrow> (\<exists>m. ws_match_result s = Some m \<and> (text_set (ws_exception_reason s) \<longleftrightarrow> mr_requires_review m))"

fun node_inv :: "node option \<Rightarrow> workflow_state \<Rightarrow> bool" where
  "node_inv (Some Extract) s \<longleftrightarrow> ws_iteration_count s = 0 \<and> \<not> text_set (ws_exception_reason s)
     \<and> ws_human_decision s = None \<and> unfinished s"
| "node_inv (Some Match) s \<longleftrightarrow> ws_iteration_count s = 1 \<and> \<not> text_set (ws_exception_reason s)
     \<and> ws_human_decision s = None \<and> unfinished s"
| "node_inv (Some Supervisor) s \<longleftrightarrow> ws_iteration_count s = 2 \<and> text_set (ws_exception_reason s)
     \<and> ws_human_decision s = None \<and> unfinished s \<and> matched_clean s"
| "node_inv (Some Exception) s \<longleftrightarrow> ws_iteration_count s \<le> 5 \<and> text_set (ws_exception_reason s)
     \<and> \<not> is_decision (ws_human_decision s) \<and> unfinished s \<and> matched_clean s"
| "node_inv (Some Approve) s \<longleftrightarrow> ws_iteration_count s \<le> 5 \<and> text_set (ws_exception_reason s)
     \<and> ws_human_decision s = Some ''approved'' \<and> unfinished s \<and> matched_clean s"
| "node_inv (Some Reject) s \<longleftrightarrow> ws_iteration_count s \<le> 5 \<and> text_set (ws_exception_reason s)
     \<and> ws_human_decision s = Some ''rejected'' \<and> unfinished s \<and> matched_clean s"
| "node_inv (Some Complete) s \<longleftrightarrow> ws_iteration_count s \<le> 6
     \<and> (text_set (ws_exception_reason s) \<or> ws_human_decision s = None) \<and> unfinished s \<and> matched_clean s"
| "node_inv None s \<longleftrightarrow> ws_iteration_count s \<le> 7 \<and> finished_ok s"


lemma unfinished_step [simp]: "unfinished (step_update m s) = unfinished s"
  by (simp add: unfinished_def)

lemma matched_clean_step [simp]: "matched_clean (step_update m s) = matched_clean s"
  by (simp add: matched_clean_def)

lemma Match_node_inv:
  assumes inv: "thread_inv (ws_run_id s) db" and n: "node_inv (Some Match) s"
    and run: "match_node env now s db = (Updated s', db')"
  shows "node_inv (Some (route_after_match s')) s'"
proof -
  from run obtain m where m: "match_document env now s db = Inr (m, db')" and s': "s' = apply_match m s"
    by (auto simp: match_node_def split: sum.splits prod.splits)
  have "unfinished s'" "matched_clean s'"
    using n apply_match_exception [OF inv m] by (simp_all add: s' unfinished_def matched_clean_def)
  with n show ?thesis by (simp add: s' route_after_match_def)
qed

lemma Exception_node_inv:
  assumes n: "node_inv (Some Exception) s" and run: "exception_node r s db = (Updated s', db')"
  shows "node_inv (Some (route_after_exception s')) s'"
proof -
  from run obtain d where s': "s' = step_update ''Paused for human review.''
        (s\<lparr>ws_human_decision := Some d, ws_status := ''awaiting_review'',
           ws_processing_status := Some ''awaiting_review'', ws_review_disposition := Some d\<rparr>)"
    by (auto simp: exception_node_def split: sum.splits option.splits)
  have "unfinished s'" "matched_clean s'" using n by (auto simp: s' unfinished_def matched_clean_def)
  with n show ?thesis by (auto simp: s' route_after_exception_def is_decision_def)
qed

lemma complete_node_cases:
  assumes "complete_node s db = (Updated s', db')"
  shows "s' = (if text_set (ws_exception_reason s) \<and> \<not> is_decision (ws_human_decision s) then
      step_update ''Workflow failed because an exception was not resolved.''
        (s\<lparr>ws_status := ''failed'', ws_processing_status := Some ''failed'', ws_posting_status := Some ''not_ready''\<rparr>)
    else step_update ''Workflow completed.''
        (s\<lparr>ws_status := (if is_decision (ws_human_decision s) then the (ws_human_decision s) else ''complete''),
           ws_processing_status := Some ''complete'', ws_posting_status := Some (final_posting_status s)\<rparr>))"
  using assms by (auto simp: complete_node_def Let_def is_decision_def split: sum.splits if_splits)

lemma final_posting_cases:
  "final_posting_status s = ''ready_for_posting'' \<longleftrightarrow> ws_human_decision s = Some ''approved''
     \<or> (ws_human_decision s = None \<and> (\<exists>m. ws_match_result s = Some m \<and> mr_reconciliation_status m = Some ''reconciled''))"
  "final_posting_status s = ''blocked'' \<longleftrightarrow> ws_human_decision s = Some ''rejected''"
  by (auto simp: final_posting_status_def Let_def split: option.splits)

lemma Complete_node_inv:
  assumes n: "node_inv (Some Complete) s" and run: "complete_node s db = (Updated s', db')"
  shows "node_inv None s'"
proof (cases "text_set (ws_exception_reason s) \<and> \<not> is_decision (ws_human_decision s)")
  case True
  with n show ?thesis
    by (simp add: complete_node_cases [OF run] finished_ok_def is_decision_def reconciled_clean_def)
next
  case False
  have "finished_ok s'" unfolding finished_ok_def
    using False n final_posting_cases [of s]
    by (auto simp add: complete_node_cases [OF run] is_decision_def reconciled_clean_def matched_clean_def)
  with n False show ?thesis by (simp add: complete_node_cases [OF run])
qed

lemma run_node_node_inv:
  assumes inv: "thread_inv (ws_run_id s) db" and n: "node_inv (Some n) s"
    and run: "run_node env now n r s db = (Updated s', db')"
  shows "node_inv (next_node n s') s'"
proof (cases n)
  case Extract
  with run n show ?thesis
    by (auto simp: extract_node_def unfinished_def split: sum.splits prod.splits)
next
  case Match
  with run n show ?thesis using Match_node_inv [OF inv] by simp
next
  case Supervisor
  with run n show ?thesis
    by (auto simp: supervisor_node_def unfinished_def matched_clean_def is_decision_def split: sum.splits)
next
  case Exception
  with run n show ?thesis using Exception_node_inv by simp
next
  case Approve
  with run n show ?thesis by (auto simp: approve_node_def unfinished_def matched_clean_def)
next
  case Reject
  with run n show ?thesis by (auto simp: reject_node_def unfinished_def matched_clean_def)
next
  case Complete
  with run n show ?thesis using Complete_node_inv by simp
qed

lemma graph_step_node_inv:
  "graph_step env c c' \<Longrightarrow> thread_inv (ws_run_id (gc_state c)) (gc_db c) \<Longrightarrow>
   node_inv (gc_next c) (gc_state c) \<Longrightarrow> node_inv (gc_next c') (gc_state c')"
  by (induction rule: graph_step.induct) (simp_all add: run_node_node_inv)

lemma graph_steps_node_inv:
  assumes "graph_steps env c c'" and inv: "thread_inv (ws_run_id (gc_state c)) (gc_db c)"
    and "node_inv (gc_next c) (gc_state c)"
  shows "node_inv (gc_next c') (gc_state c')"
  using assms(1)
proof (induction rule: rtranclp_induct)
  case (step c1 c2)
  have "thread_inv (ws_run_id (gc_state c1)) (gc_db c1)"
    using graph_steps_keep [OF step.hyps(1) inv] keeps_thread_inv by metis
  with step show ?case using graph_step_node_inv by blast
qed (use assms in simp)

lemma initial_state_inv: "initial_state s \<Longrightarrow> node_inv (Some entry_point) s"
  by (simp add: initial_state_def entry_point_def unfinished_def)

lemma node_inv_running: "node_inv (Some n) s \<Longrightarrow> unfinished s \<and> ws_iteration_count s \<le> 6"
  by (cases n) simp_all

text \<open>C7: the posting rule. Whatever the model answers, whatever decisions are sent and
  however often nodes are retried, a thread started from a fresh state counts at most
  seven nodes; while it runs it is neither complete nor ready for posting; and when it has
  ended it is ready for posting exactly if a reviewer approved it, or nobody reviewed it
  and it reconciled without an open exception, blocked exactly if a reviewer rejected it,
  and failed exactly if an exception was left without a decision.\<close>

theorem posting_rule:
  assumes start: "initial_state s" "thread_inv (ws_run_id s) db"
    and run: "graph_steps env (start_config s db) c"
  shows "ws_iteration_count (gc_state c) \<le> 7
    \<and> (gc_next c \<noteq> None \<longrightarrow> unfinished (gc_state c))
    \<and> (gc_next c = None \<longrightarrow> finished_ok (gc_state c))"
proof -
  have "node_inv (gc_next c) (gc_state c)"
    using graph_steps_node_inv [OF run] start initial_state_inv by (simp add: start_config_def)
  then show ?thesis
    using node_inv_running [of _ "gc_state c"] by (cases "gc_next c") (auto intro: le_SucI [of _ 6, simplified])
qed

end
