(* ===== verification/Workflow_Runner.thy ===== *)
theory Workflow_Runner
  imports Workflow_Safety
begin

text \<open>
  Driving the graph: \<open>run_graph\<close> runs nodes until the thread ends, pauses at \<open>interrupt()\<close>
  or raises, within a budget of nodes. It is the instance of the engine contract (theory
  \<open>Graph_Engine\<close>), every run of it is a run of \<open>graph_step\<close>, and seven nodes are always
  enough, well below the engine's default recursion limit of 25.
\<close>

datatype run_end = Finished | Paused jdict | Crashed py_error | Recursion_Limit

fun run_graph :: "env \<Rightarrow> datetime \<Rightarrow> nat \<Rightarrow> config \<Rightarrow> run_end \<times> config" where
  "run_graph env now fuel c = (case gc_next c of
     None \<Rightarrow> (Finished, c)
   | Some n \<Rightarrow> (case fuel of
       0 \<Rightarrow> (Recursion_Limit, c)
     | Suc k \<Rightarrow> (case run_node env now n (gc_resume c) (gc_state c) (gc_db c) of
         (Updated s, db) \<Rightarrow> run_graph env now k \<lparr>gc_next = next_node n s,
            gc_resume = (if n = Exception then None else gc_resume c), gc_state = s, gc_db = db\<rparr>
       | (Interrupted p, db) \<Rightarrow> (Paused p, c\<lparr>gc_db := db\<rparr>)
       | (Raised e, db) \<Rightarrow> (Crashed e, c\<lparr>gc_db := db\<rparr>))))"

declare run_graph.simps [simp del]

definition moved :: "config \<Rightarrow> node \<Rightarrow> workflow_state \<Rightarrow> database \<Rightarrow> config" where
  "moved c n s db = \<lparr>gc_next = next_node n s, gc_resume = (if n = Exception then None else gc_resume c),
     gc_state = s, gc_db = db\<rparr>"

lemma run_graph_one:
  "gc_next c = Some n \<Longrightarrow> run_node env now n (gc_resume c) (gc_state c) (gc_db c) = (out, db) \<Longrightarrow>
   run_graph env now (Suc j) c = (case out of Updated s \<Rightarrow> run_graph env now j (moved c n s db)
     | Interrupted p \<Rightarrow> (Paused p, c\<lparr>gc_db := db\<rparr>) | Raised e \<Rightarrow> (Crashed e, c\<lparr>gc_db := db\<rparr>))"
  by (subst run_graph.simps) (simp add: moved_def cong: node_outcome.case_cong)

lemma run_graph_stop: "gc_next c = None \<Longrightarrow> run_graph env now k c = (Finished, c)"
  "gc_next c = Some n \<Longrightarrow> run_graph env now 0 c = (Recursion_Limit, c)"
  by (simp_all add: run_graph.simps)

text \<open>Induction over a run: the places where it stops, and one node at a time.\<close>

lemma run_graph_induct [case_names ended limit updated interrupted raised]:
  assumes ended: "\<And>k c. gc_next c = None \<Longrightarrow> P k c (Finished, c)"
    and limit: "\<And>c n. gc_next c = Some n \<Longrightarrow> P 0 c (Recursion_Limit, c)"
    and updated: "\<And>j c n s db. gc_next c = Some n \<Longrightarrow>
        run_node env now n (gc_resume c) (gc_state c) (gc_db c) = (Updated s, db) \<Longrightarrow>
        P j (moved c n s db) (run_graph env now j (moved c n s db)) \<Longrightarrow>
        P (Suc j) c (run_graph env now j (moved c n s db))"
    and interrupted: "\<And>j c n p db. gc_next c = Some n \<Longrightarrow>
        run_node env now n (gc_resume c) (gc_state c) (gc_db c) = (Interrupted p, db) \<Longrightarrow>
        P (Suc j) c (Paused p, c\<lparr>gc_db := db\<rparr>)"
    and raised: "\<And>j c n x db. gc_next c = Some n \<Longrightarrow>
        run_node env now n (gc_resume c) (gc_state c) (gc_db c) = (Raised x, db) \<Longrightarrow>
        P (Suc j) c (Crashed x, c\<lparr>gc_db := db\<rparr>)"
  shows "P k c (run_graph env now k c)"
proof (induction k arbitrary: c)
  case 0
  show ?case by (cases "gc_next c") (simp_all add: run_graph_stop ended limit)
next
  case (Suc j)
  show ?case
  proof (cases "gc_next c")
    case None
    then show ?thesis by (simp add: run_graph_stop ended)
  next
    case (Some n)
    obtain out db where out: "run_node env now n (gc_resume c) (gc_state c) (gc_db c) = (out, db)" by fastforce
    show ?thesis
      by (cases out) (use Some out Suc.IH in \<open>auto simp: run_graph_one [OF Some out] intro: updated interrupted raised\<close>)
  qed
qed

lemma run_graph_steps: "run_graph env now k c = (e, c') \<Longrightarrow> graph_steps env c c'"
proof -
  have "graph_steps env c (snd (run_graph env now k c))"
  proof (rule run_graph_induct [where P = "\<lambda>k c r. graph_steps env c (snd r)"], goal_cases)
    case updated: (3 j c n s db)
    from graph_step.update [OF updated(1,2)] updated(3) show ?case
      unfolding moved_def by (rule converse_rtranclp_into_rtranclp)
  qed (auto intro: graph_step.pause graph_step.raise)
  then show "run_graph env now k c = (e, c') \<Longrightarrow> graph_steps env c c'" by simp
qed

lemma run_graph_end:
  assumes "run_graph env now k c = (e, c')"
  shows "(e = Finished) = (gc_next c' = None)"
proof -
  have "(fst (run_graph env now k c) = Finished) = (gc_next (snd (run_graph env now k c)) = None)"
    by (rule run_graph_induct [where P = "\<lambda>k c r. (fst r = Finished) = (gc_next (snd r) = None)"]) simp_all
  with assms show ?thesis by simp
qed

section \<open>Seven nodes are enough\<close>

lemma run_node_counts:
  assumes "run_node env now n r s db = (Updated s', db')"
  shows "ws_iteration_count s' = Suc (ws_iteration_count s)"
  using assms
  by (cases n)
    (auto simp: extract_node_def match_node_def supervisor_node_def exception_node_def
      approve_node_def reject_node_def complete_node_def Let_def
      split: sum.splits prod.splits option.splits if_splits)

definition config_inv :: "config \<Rightarrow> bool" where
  "config_inv c \<longleftrightarrow> thread_inv (ws_run_id (gc_state c)) (gc_db c) \<and> node_inv (gc_next c) (gc_state c)"

lemma config_inv_step: "graph_step env c c' \<Longrightarrow> config_inv c \<Longrightarrow> config_inv c'"
  unfolding config_inv_def using graph_step_keeps graph_step_node_inv keeps_thread_inv by metis

lemma config_inv_steps: "graph_steps env c c' \<Longrightarrow> config_inv c \<Longrightarrow> config_inv c'"
  by (induction rule: rtranclp_induct) (auto intro: config_inv_step)

lemma config_inv_start: "initial_state s \<Longrightarrow> thread_inv (ws_run_id s) db \<Longrightarrow> config_inv (start_config s db)"
  using initial_state_inv by (simp add: config_inv_def start_config_def)

lemma run_graph_enough:
  "config_inv c \<longrightarrow> 7 \<le> k + ws_iteration_count (gc_state c) \<longrightarrow> fst (run_graph env now k c) \<noteq> Recursion_Limit"
proof (rule run_graph_induct [where P = "\<lambda>k c r. config_inv c \<longrightarrow> 7 \<le> k + ws_iteration_count (gc_state c)
      \<longrightarrow> fst r \<noteq> Recursion_Limit"], goal_cases)
  case limit: (2 c n)
  then show ?case using node_inv_running [of n "gc_state c"] by (auto simp: config_inv_def)
next
  case updated: (3 j c n s db)
  have "config_inv c \<Longrightarrow> config_inv (moved c n s db)"
    using config_inv_step [OF graph_step.update [OF updated(1,2)]] by (simp add: moved_def)
  then show ?case
    using updated(3) run_node_counts [OF updated(2)] by (simp add: moved_def)
qed simp_all

text \<open>C10: the graph always stops by itself. From any point of a thread that started from a
  fresh state, running nodes ends, pauses for review or raises within seven nodes, so the
  engine's recursion limit is never what stops it.\<close>

theorem run_graph_stops:
  assumes "initial_state s" and "thread_inv (ws_run_id s) db" and "graph_steps env (start_config s db) c"
  shows "\<exists>e c'. run_graph env now 7 c = (e, c') \<and> graph_steps env c c'
    \<and> (case e of Finished \<Rightarrow> gc_next c' = None \<and> finished_ok (gc_state c')
       | Paused p \<Rightarrow> gc_next c' \<noteq> None \<and> unfinished (gc_state c')
       | Crashed x \<Rightarrow> gc_next c' \<noteq> None \<and> unfinished (gc_state c')
       | Recursion_Limit \<Rightarrow> False)"
proof -
  have c: "config_inv c" using config_inv_steps [OF assms(3)] config_inv_start [OF assms(1,2)] by simp
  obtain e c' where run: "run_graph env now 7 c = (e, c')" by fastforce
  note steps = run_graph_steps [OF run]
  have "config_inv c'" using steps c by (rule config_inv_steps)
  then have n: "node_inv (gc_next c') (gc_state c')" by (simp add: config_inv_def)
  have "e \<noteq> Recursion_Limit" using run_graph_enough [of c 7 env now] c run by simp
  with run_graph_end [OF run] n node_inv_running [of _ "gc_state c'"]
  have "case e of Finished \<Rightarrow> gc_next c' = None \<and> finished_ok (gc_state c')
       | Paused p \<Rightarrow> gc_next c' \<noteq> None \<and> unfinished (gc_state c')
       | Crashed x \<Rightarrow> gc_next c' \<noteq> None \<and> unfinished (gc_state c')
       | Recursion_Limit \<Rightarrow> False"
    by (cases e) auto
  with run steps show ?thesis by blast
qed

section \<open>A decision ends a paused thread\<close>

lemma log_audit_event_state:
  "thread_inv r db \<Longrightarrow> \<exists>db'. log_audit_event r t p a db = Inr db' \<and> thread_inv r db'"
  using log_audit_event_succeeds log_audit_event_keeps keeps_thread_inv by metis

lemma exception_node_resumed:
  assumes "thread_inv (ws_run_id s) db"
  shows "\<exists>db'. exception_node (Some d) s db = (Updated (step_update ''Paused for human review.''
        (s\<lparr>ws_human_decision := Some d, ws_status := ''awaiting_review'',
           ws_processing_status := Some ''awaiting_review'', ws_review_disposition := Some d\<rparr>)), db')"
proof -
  have "\<exists>db'. log_exception_raised_once (ws_run_id s) s db = Inr db'"
    using log_audit_event_succeeds [OF assms] by (simp add: log_exception_raised_once_def)
  then obtain db' where "log_exception_raised_once (ws_run_id s) s db = Inr db'" ..
  then show ?thesis by (simp add: exception_node_def)
qed

lemma complete_node_decided:
  "is_decision (ws_human_decision s) \<Longrightarrow> complete_node s db = (Updated (step_update ''Workflow completed.''
     (s\<lparr>ws_status := the (ws_human_decision s), ws_processing_status := Some ''complete'',
        ws_posting_status := Some (final_posting_status s)\<rparr>)), db)"
  by (auto simp: complete_node_def Let_def is_decision_def)

definition decided :: "string \<Rightarrow> workflow_state \<Rightarrow> bool" where
  "decided d s \<longleftrightarrow> ws_human_decision s = Some d \<and> ws_status s = d \<and> ws_processing_status s = Some ''complete''
     \<and> ws_posting_status s = Some (if d = ''approved'' then ''ready_for_posting'' else ''blocked'')"

lemma run_complete_decided:
  assumes "gc_next c = Some Complete" and "ws_human_decision (gc_state c) = Some d"
    and d: "d = ''approved'' \<or> d = ''rejected''"
  shows "\<exists>c'. run_graph env now (Suc k) c = (Finished, c') \<and> decided d (gc_state c')"
proof -
  have dec: "is_decision (ws_human_decision (gc_state c))" using assms by (auto simp: is_decision_def)
  show ?thesis
    using assms complete_node_decided [OF dec, of "gc_db c"]
    by (auto simp: run_graph_one [where n = Complete] run_graph_stop moved_def decided_def final_posting_status_def)
qed

lemma review_decision_finishes:
  assumes inv: "config_inv c" and next_: "gc_next c = Some Exception"
    and d: "d = ''approved'' \<or> d = ''rejected''"
  shows "\<exists>c'. run_graph env now 7 (c\<lparr>gc_resume := Some d\<rparr>) = (Finished, c') \<and> decided d (gc_state c')"
proof -
  let ?c = "c\<lparr>gc_resume := Some d\<rparr>"
  let ?s = "step_update ''Paused for human review.''
     (gc_state c\<lparr>ws_human_decision := Some d, ws_status := ''awaiting_review'',
        ws_processing_status := Some ''awaiting_review'', ws_review_disposition := Some d\<rparr>)"
  from inv obtain db where out: "exception_node (Some d) (gc_state c) (gc_db c) = (Updated ?s, db)"
    using exception_node_resumed [of "gc_state c" "gc_db c" d] by (auto simp: config_inv_def)
  let ?m = "moved ?c Exception ?s db"
  have m: "run_graph env now (Suc k) ?c = run_graph env now k ?m" for k
    using next_ out by (simp add: run_graph_one [where n = Exception])
  have dec: "ws_human_decision (gc_state ?m) = Some d" by (simp add: moved_def)
  have "gc_next ?m \<in> {Some Complete, Some Approve, Some Reject}"
    using d by (auto simp: moved_def route_after_exception_def)
  then show ?thesis
  proof (elim insertE emptyE)
    assume "gc_next ?m = Some Complete"
    from run_complete_decided [OF this dec d, of env now 5] show ?thesis using m [of 6] by simp
  next
    assume n: "gc_next ?m = Some Approve"
    let ?m' = "moved ?m Approve (approve_node (gc_state ?m)) (gc_db ?m)"
    have "gc_next ?m' = Some Complete" "ws_human_decision (gc_state ?m') = Some d"
      using dec by (simp_all add: moved_def approve_node_def)
    from run_complete_decided [OF this d, of env now 4] show ?thesis
      using m [of 6] n run_graph_one [of ?m Approve env now _ _ 5] by simp
  next
    assume n: "gc_next ?m = Some Reject"
    let ?m' = "moved ?m Reject (reject_node (gc_state ?m)) (gc_db ?m)"
    have "gc_next ?m' = Some Complete" "ws_human_decision (gc_state ?m') = Some d"
      using dec by (simp_all add: moved_def reject_node_def)
    from run_complete_decided [OF this d, of env now 4] show ?thesis
      using m [of 6] n run_graph_one [of ?m Reject env now _ _ 5] by simp
  qed
qed

lemma run_graph_more:
  "run_graph env now k c = (Finished, c') \<Longrightarrow> run_graph env now (j + k) c = (Finished, c')"
proof -
  have "fst (run_graph env now k c) = Finished \<longrightarrow> (\<forall>j. run_graph env now (j + k) c = run_graph env now k c)"
  proof (rule run_graph_induct [where P = "\<lambda>k c r. fst r = Finished \<longrightarrow> (\<forall>j. run_graph env now (j + k) c = r)"], goal_cases)
    case (1 k c)
    then show ?case by (simp add: run_graph_stop)
  next
    case (3 j c n s db)
    then show ?case by (simp add: run_graph_one [OF 3(1,2)])
  qed simp_all
  then show "run_graph env now k c = (Finished, c') \<Longrightarrow> run_graph env now (j + k) c = (Finished, c')" by simp
qed

text \<open>C9: a paused review always ends with the decision it is given. When a paused thread is
  resumed with \<open>approved\<close> or \<open>rejected\<close>, the graph runs to its end without pausing
  again, failing or exhausting its budget, and the final state carries that decision,
  complete, ready for posting exactly if it was approved.\<close>

theorem review_decision_ends_thread:
  assumes "initial_state s" and "thread_inv (ws_run_id s) db" and "graph_steps env (start_config s db) c"
    and "gc_next c = Some Exception" and "d = ''approved'' \<or> d = ''rejected''"
  shows "\<exists>c'. run_graph env now 7 (c\<lparr>gc_resume := Some d\<rparr>) = (Finished, c') \<and> decided d (gc_state c')"
  using config_inv_steps [OF assms(3) config_inv_start [OF assms(1,2)]] assms(4,5) by (rule review_decision_finishes)

section \<open>A concrete thread\<close>

text \<open>An invoice without a load number: it cannot be matched, is triaged, pauses, and a
  reviewer approves it.\<close>

definition sample_invoice :: jdict where
  "sample_invoice = [(''invoice_number'', JStr ''I1''), (''carrier_name'', JStr ''acme ''), (''load_number'', JNull),
     (''invoice_date'', JStr ''2026-07-01''), (''total_amount'', JInt 900), (''line_items'', JArr []),
     (''doc_type'', JStr ''invoice''), (''confidence'', JInt 1)]"

definition sample_env :: env where
  "sample_env = \<lparr>env_settings = sample_settings, env_pydantic = sample_pydantic,
     env_claude = sample_claude\<lparr>cl_classify := (\<lambda>_. Inr [text_block ''invoice'']),
       cl_extract := (\<lambda>_ _. Inr [text_block (json_dumps '','' '':'' (JObj sample_invoice))])\<rparr>\<rparr>"

definition sample_state :: workflow_state where
  "sample_state = \<lparr>ws_run_id = ''run-1'', ws_document_id = 1, ws_file_bytes = ''raw'', ws_filename = ''inv.pdf'',
     ws_extraction = None, ws_match_result = None, ws_exception_reason = None, ws_triage_route = None,
     ws_triage_reasoning = None, ws_triage_confidence = None, ws_human_decision = None, ws_status = ''running'',
     ws_processing_status = Some ''running'', ws_posting_status = Some ''not_ready'', ws_review_disposition = None,
     ws_messages = [], ws_iteration_count = 0\<rparr>"

definition sample_run_db :: database where
  "sample_run_db = sample_documents_db\<lparr>workflow_runs := [sample_run]\<rparr>"

lemma sample_run_db_inv: "thread_inv (ws_run_id sample_state) sample_run_db"
proof -
  have "db_inv sample_run_db"
    by (simp add: db_inv_def shipments_inv_def exceptions_inv_def results_inv_def results_constraints_def
        partial_unique_def sample_run_db_def sample_documents_db_def new_document_def add_document_def
        fresh_database_def inj_replicate Let_def)
  then show ?thesis
    by (simp add: thread_inv_def audit_inv_def get_run_def sample_run_db_def sample_run_def sample_state_def
        sample_documents_db_def new_document_def add_document_def fresh_database_def Let_def)
qed

lemma sample_initial: "initial_state sample_state"
  by (simp add: initial_state_def sample_state_def)

lemma sample_extracted:
  "\<exists>s db. extract_node sample_env sample_state sample_run_db = (Updated s, db)
     \<and> load_number_of (extraction_dict s) = None \<and> get_document (ws_document_id s) db \<noteq> None"
proof -
  have "case extract_node sample_env sample_state sample_run_db of
      (Updated s, db) \<Rightarrow> load_number_of (extraction_dict s) = None \<and> get_document (ws_document_id s) db \<noteq> None
    | _ \<Rightarrow> False"
    by code_simp
  then show ?thesis by (auto split: prod.splits node_outcome.splits)
qed

lemma match_document_unnumbered:
  assumes "load_number_of (extraction_dict s) = None" and "get_document (ws_document_id s) db \<noteq> None"
  shows "match_document env now s db = Inr (no_match ''no_load_number'' (Some []) (Some [''no_load_number'']), db)"
  using assms by (auto simp: match_document_def upsert_shipment_def normalize_load_number_def)

lemma sample_triage:
  "\<exists>t. triage_exception (env_settings sample_env) (env_pydantic sample_env) (env_claude sample_env) r e m = Inr t"
proof -
  have "case validate_triage_json sample_pydantic (extract_response_text
     [text_block (json_dumps '','' '':'' (JObj [(''route'', JStr ''escalate_standard''),
        (''reasoning'', JStr ''amounts differ''), (''confidence'', JInt 1)]))]) of Inl _ \<Rightarrow> False | Inr _ \<Rightarrow> True"
    by code_simp
  then show ?thesis
    by (simp add: triage_exception_def sample_env_def sample_claude_def sample_settings_def default_settings_def
        split: sum.splits)
qed

lemma sample_thread:
  "\<exists>c. graph_steps sample_env (start_config sample_state sample_run_db) c \<and> gc_next c = Some Exception"
proof -
  let ?c0 = "start_config sample_state sample_run_db"
  have i0: "config_inv ?c0" using config_inv_start [OF sample_initial sample_run_db_inv] .
  from sample_extracted obtain s db where x: "extract_node sample_env sample_state sample_run_db = (Updated s, db)"
      "load_number_of (extraction_dict s) = None" "get_document (ws_document_id s) db \<noteq> None" by blast
  let ?c1 = "moved ?c0 Extract s db"
  have st1: "graph_step sample_env ?c0 ?c1"
    using graph_step.update [of ?c0 Extract sample_env 0 s db] x(1) by (simp add: moved_def start_config_def entry_point_def)
  have i1: "config_inv ?c1" using st1 i0 by (rule config_inv_step)
  let ?m = "no_match ''no_load_number'' (Some []) (Some [''no_load_number''])"
  note md = match_document_unnumbered [OF x(2,3), of sample_env 0]
  let ?c2 = "moved ?c1 Match (apply_match ?m s) db"
  have st2: "graph_step sample_env ?c1 ?c2"
    using graph_step.update [of ?c1 Match sample_env 0 "apply_match ?m s" db] md
    by (simp add: moved_def match_node_def)
  have i2: "config_inv ?c2" using st2 i1 by (rule config_inv_step)
  have n2: "gc_next ?c2 = Some Supervisor"
    using apply_match_exception [OF _ md] i1
    by (simp add: moved_def config_inv_def route_after_match_def no_match_def)
  obtain t where t: "triage_exception (env_settings sample_env) (env_pydantic sample_env) (env_claude sample_env)
      (ws_exception_reason (apply_match ?m s)) (ws_extraction (apply_match ?m s))
      (map_option match_result_json (ws_match_result (apply_match ?m s))) = Inr t"
    using sample_triage by blast
  have "thread_inv (ws_run_id (apply_match ?m s)) db" using i2 by (simp add: config_inv_def moved_def)
  then obtain db3 where "log_audit_event (ws_run_id (apply_match ?m s)) ''triaged''
      (Some [(''route'', JStr (td_route t)), (''reasoning'', JStr (td_reasoning t)),
             (''confidence'', JFloat (td_confidence t))]) ''system'' db = Inr db3"
    using log_audit_event_succeeds by blast
  then obtain s3 where "supervisor_node sample_env (apply_match ?m s) db = (Updated s3, db3)"
    using t by (simp add: supervisor_node_def)
  then have "graph_step sample_env ?c2 (moved ?c2 Supervisor s3 db3)"
    using graph_step.update [OF n2, of sample_env 0 s3 db3] by (simp add: moved_def)
  then show ?thesis using st1 st2
    by (intro exI [of _ "moved ?c2 Supervisor s3 db3"]) (auto simp: moved_def)
qed

lemma sample_paused:
  obtains c where "graph_steps sample_env (start_config sample_state sample_run_db) c" "gc_next c = Some Exception"
    "config_inv c"
  using sample_thread config_inv_steps config_inv_start [OF sample_initial sample_run_db_inv] by blast

theorem workflow_keeps_database_witness:
  "\<exists>c. gc_next c = Some Exception \<and> graph_steps sample_env (start_config sample_state sample_run_db) c
     \<and> db_inv (gc_db c) \<and> workflow_runs (gc_db c) = [sample_run]"
proof (rule sample_paused)
  fix c assume c: "graph_steps sample_env (start_config sample_state sample_run_db) c" "gc_next c = Some Exception"
  show ?thesis
    using c workflow_keeps_database [OF c(1)] sample_run_db_inv
    by (intro exI [of _ c]) (simp add: start_config_def sample_run_db_def)
qed

theorem review_decision_ends_thread_witness:
  "\<exists>c c'. graph_steps sample_env (start_config sample_state sample_run_db) c
     \<and> run_graph sample_env 0 7 (c\<lparr>gc_resume := Some ''approved''\<rparr>) = (Finished, c') \<and> decided ''approved'' (gc_state c')"
proof (rule sample_paused)
  fix c assume c: "graph_steps sample_env (start_config sample_state sample_run_db) c" "gc_next c = Some Exception" "config_inv c"
  show ?thesis using c(1) review_decision_ends_thread [OF sample_initial sample_run_db_inv c(1,2), of "''approved''" 0] by blast
qed

theorem posting_rule_witness:
  "\<exists>c. graph_steps sample_env (start_config sample_state sample_run_db) c
     \<and> gc_next c \<noteq> None \<and> unfinished (gc_state c)"
proof (rule sample_paused)
  fix c assume c: "graph_steps sample_env (start_config sample_state sample_run_db) c" "gc_next c = Some Exception"
  show ?thesis
    using c posting_rule [OF sample_initial sample_run_db_inv c(1)] by (intro exI [of _ c]) simp
qed

theorem run_graph_stops_witness:
  "\<exists>c e c'. graph_steps sample_env (start_config sample_state sample_run_db) c \<and> gc_next c = Some Exception
    \<and> run_graph sample_env 0 7 c = (e, c') \<and> e \<noteq> Recursion_Limit"
proof (rule sample_paused)
  fix c assume c: "graph_steps sample_env (start_config sample_state sample_run_db) c" "gc_next c = Some Exception"
  from run_graph_stops [OF sample_initial sample_run_db_inv c(1), of 0] obtain e c' where
    run: "run_graph sample_env 0 7 c = (e, c')" and e: "e = Recursion_Limit \<Longrightarrow> False"
    by (cases "fst (run_graph sample_env 0 7 c)") auto
  with c show ?thesis by blast
qed

end
