(* ===== verification/Graph_Engine.thy ===== *)
theory Graph_Engine
  imports Workflow_Runner
begin

text \<open>
  The contract of the LangGraph engine that \<open>app/workflow/graph.py\<close> compiles the graph
  for. The engine and its PostgreSQL checkpointer are a library: \<open>engine\<close> is a parameter of
  every service that calls \<open>workflow_graph\<close>. \<open>graph_engine\<close> states what the services rely on
  (a call runs the declared graph from the checkpoint of its thread and of no other,
  stores where it got, and \<open>aget_state\<close> reads that back), \<open>exact_engine\<close> adds that nothing
  but the graph stops it. Both are interpreted on \<open>model_engine\<close>, the runner of
  \<open>Workflow_Runner\<close> over a map of checkpoints, with the default recursion limit of 25.
\<close>

section \<open>Interface\<close>

text \<open>The position of a thread: what a checkpoint holds.\<close>

record thread_pos =
  tp_next :: "node option"
  tp_resume :: "string option"
  tp_state :: workflow_state

text \<open>\<open>ainvoke\<close> takes an initial state, \<open>None\<close> (go on from the checkpoint) or
  \<open>Command(resume=...)\<close>.\<close>

datatype graph_input = Fresh workflow_state | Continue | Resume string

text \<open>The returned dict: the state, and \<open>__interrupt__\<close> when the run paused.\<close>

record graph_result =
  gr_state :: workflow_state
  gr_interrupt :: "jdict option"

text \<open>\<open>aget_state\<close>: \<open>values\<close> (empty when the thread has no checkpoint) and whether
  \<open>next\<close> holds a node.\<close>

record snapshot =
  sn_values :: "workflow_state option"
  sn_next :: bool

record 'c engine =
  eg_get_state :: "string \<Rightarrow> 'c \<Rightarrow> snapshot"
  eg_invoke :: "graph_input \<Rightarrow> string \<Rightarrow> 'c \<Rightarrow> database \<Rightarrow> graph_result result \<times> 'c \<times> database"

definition interrupt_payload :: "graph_result \<Rightarrow> jdict option" where
  "interrupt_payload r = gr_interrupt r"

section \<open>Contract\<close>

definition pos_config :: "thread_pos \<Rightarrow> database \<Rightarrow> config" where
  "pos_config p db = \<lparr>gc_next = tp_next p, gc_resume = tp_resume p, gc_state = tp_state p, gc_db = db\<rparr>"

definition config_pos :: "config \<Rightarrow> thread_pos" where
  "config_pos c = \<lparr>tp_next = gc_next c, tp_resume = gc_resume c, tp_state = gc_state c\<rparr>"

text \<open>Where a call starts. The services pass a fresh state to a new thread, a resume value
  or nothing to an unfinished one.\<close>

fun call_config :: "graph_input \<Rightarrow> thread_pos option \<Rightarrow> database \<Rightarrow> config option" where
  "call_config (Fresh s) None db = Some (start_config s db)"
| "call_config Continue (Some p) db = Some (pos_config p db)"
| "call_config (Resume d) (Some p) db =
     (if tp_next p \<noteq> None then Some (pos_config p db\<lparr>gc_resume := Some d\<rparr>) else None)"
| "call_config _ _ _ = None"

text \<open>How an ended run is reported.\<close>

fun reports :: "run_end \<Rightarrow> config \<Rightarrow> graph_result result \<Rightarrow> bool" where
  "reports Finished c r \<longleftrightarrow> r = Inr \<lparr>gr_state = gc_state c, gr_interrupt = None\<rparr>"
| "reports (Paused p) c r \<longleftrightarrow> r = Inr \<lparr>gr_state = gc_state c, gr_interrupt = Some p\<rparr>"
| "reports (Crashed e) c r \<longleftrightarrow> r = Inl e"
| "reports Recursion_Limit c r \<longleftrightarrow> isl r"

text \<open>Every stored position belongs to a thread of a fresh state that ran the graph.\<close>

definition positions_ok :: "(string \<Rightarrow> 'c \<Rightarrow> thread_pos option) \<Rightarrow> 'c \<Rightarrow> database \<Rightarrow> bool" where
  "positions_ok pos cp db \<longleftrightarrow> (\<forall>t p. pos t cp = Some p \<longrightarrow>
     ws_run_id (tp_state p) = t \<and> node_inv (tp_next p) (tp_state p) \<and> get_run t db \<noteq> None)"

lemma positions_ok_mono:
  "positions_ok pos cp db \<Longrightarrow> (\<And>t. get_run t db \<noteq> None \<Longrightarrow> get_run t db' \<noteq> None) \<Longrightarrow> positions_ok pos cp db'"
  by (auto simp: positions_ok_def)

locale graph_engine =
  fixes env :: env and eg :: "'c engine" and pos :: "string \<Rightarrow> 'c \<Rightarrow> thread_pos option"
  assumes get_state: "eg_get_state eg t cp = (case pos t cp of
        None \<Rightarrow> \<lparr>sn_values = None, sn_next = False\<rparr>
      | Some p \<Rightarrow> \<lparr>sn_values = Some (tp_state p), sn_next = (tp_next p \<noteq> None)\<rparr>)"
    and invoke_runs: "call_config inp (pos t cp) db = Some c0 \<Longrightarrow> eg_invoke eg inp t cp db = (r, cp', db') \<Longrightarrow>
      \<exists>c. graph_steps env c0 c \<and> gc_db c = db' \<and> pos t cp' = Some (config_pos c)
        \<and> (\<forall>x. r = Inr x \<longrightarrow> gr_state x = gc_state c \<and> (gr_interrupt x = None \<longleftrightarrow> gc_next c = None))"
    and invoke_others: "eg_invoke eg inp t cp db = (r, cp', db') \<Longrightarrow> t' \<noteq> t \<Longrightarrow> pos t' cp' = pos t' cp"
begin

lemma call_start:
  assumes "call_config inp (pos t cp) db = Some c0" and ok: "positions_ok pos cp db"
    and inv: "db_inv db" "audit_inv db" "get_run t db \<noteq> None"
    and fresh: "\<And>s. inp = Fresh s \<Longrightarrow> initial_state s \<and> ws_run_id s = t"
  shows "config_inv c0" "ws_run_id (gc_state c0) = t" "gc_db c0 = db"
proof -
  have "config_inv c0 \<and> ws_run_id (gc_state c0) = t \<and> gc_db c0 = db"
  proof (cases "pos t cp")
    case None
    with assms(1) obtain s where "inp = Fresh s" and c0: "c0 = start_config s db" by (cases inp) auto
    with fresh inv show ?thesis
      by (auto simp: config_inv_start thread_inv_def) (simp_all add: start_config_def)
  next
    case (Some p)
    with ok have p: "ws_run_id (tp_state p) = t" "node_inv (tp_next p) (tp_state p)"
      by (auto simp: positions_ok_def)
    from Some assms(1) have "gc_next c0 = tp_next p" "gc_state c0 = tp_state p" "gc_db c0 = db"
      by (cases inp; auto simp: pos_config_def split: if_splits)+
    with p inv show ?thesis by (simp add: config_inv_def thread_inv_def)
  qed
  then show "config_inv c0" "ws_run_id (gc_state c0) = t" "gc_db c0 = db" by simp_all
qed

text \<open>A call keeps everything the services need: the tables, the runs and decisions, and
  the positions of all threads.\<close>

lemma invoke_keeps:
  assumes call: "call_config inp (pos t cp) db \<noteq> None" and run: "eg_invoke eg inp t cp db = (r, cp', db')"
    and ok: "positions_ok pos cp db" and inv: "db_inv db" "audit_inv db" "get_run t db \<noteq> None"
    and fresh: "\<And>s. inp = Fresh s \<Longrightarrow> initial_state s \<and> ws_run_id s = t"
  shows "db_inv db'" "audit_inv db'" "same_runs db db'" "positions_ok pos cp' db'"
    "r = Inr x \<Longrightarrow> gr_interrupt x = None \<Longrightarrow> finished_ok (gr_state x)"
    "r = Inr x \<Longrightarrow> gr_interrupt x \<noteq> None \<Longrightarrow> unfinished (gr_state x)"
proof -
  from call obtain c0 where c0: "call_config inp (pos t cp) db = Some c0" by blast
  note start = call_start [OF c0 ok inv fresh]
  from invoke_runs [OF c0 run] obtain c where steps: "graph_steps env c0 c" and c: "gc_db c = db'"
      "pos t cp' = Some (config_pos c)"
      "\<And>x. r = Inr x \<Longrightarrow> gr_state x = gc_state c \<and> (gr_interrupt x = None \<longleftrightarrow> gc_next c = None)"
    by blast
  have ci: "config_inv c" using steps start(1) by (rule config_inv_steps)
  have "thread_inv (ws_run_id (gc_state c0)) (gc_db c0)" using start(1) by (simp add: config_inv_def)
  from graph_steps_keep [OF steps this] have id: "ws_run_id (gc_state c) = t"
      and keep: "keeps_thread t db db'" by (simp_all add: start c)
  then show "db_inv db'" "audit_inv db'" and same: "same_runs db db'" by (auto simp: keeps_thread_def thread_inv_def)
  show "positions_ok pos cp' db'"
    unfolding positions_ok_def
  proof (intro allI impI)
    fix t' p assume p: "pos t' cp' = Some p"
    show "ws_run_id (tp_state p) = t' \<and> node_inv (tp_next p) (tp_state p) \<and> get_run t' db' \<noteq> None"
    proof (cases "t' = t")
      case True
      with p c(2) ci id inv(3) get_run_same_runs [OF same] show ?thesis
        by (auto simp: config_pos_def config_inv_def)
    next
      case False
      with p ok invoke_others [OF run] get_run_same_runs [OF same] show ?thesis by (auto simp: positions_ok_def)
    qed
  qed
  have n: "node_inv (gc_next c) (gc_state c)" using ci by (simp add: config_inv_def)
  show "finished_ok (gr_state x)" if "r = Inr x" "gr_interrupt x = None"
    using c(3) [OF that(1)] that(2) n by auto
  show "unfinished (gr_state x)" if "r = Inr x" "gr_interrupt x \<noteq> None"
    using c(3) [OF that(1)] that(2) n node_inv_running by auto
qed

end

locale exact_engine = graph_engine +
  fixes now :: datetime
  assumes invoke_exact: "call_config inp (pos t cp) db = Some c0 \<Longrightarrow>
      eg_invoke eg inp t cp db = (r, cp', db') \<Longrightarrow>
      \<exists>e c. run_graph env now 25 c0 = (e, c) \<and> pos t cp' = Some (config_pos c) \<and> gc_db c = db' \<and> reports e c r"
begin

text \<open>A thread paused for review finishes with the decision it is given.\<close>

lemma resume_finishes:
  assumes p: "pos t cp = Some p" "tp_next p = Some Exception" and ok: "positions_ok pos cp db"
    and inv: "db_inv db" "audit_inv db" "get_run t db \<noteq> None"
    and d: "d = ''approved'' \<or> d = ''rejected''" and run: "eg_invoke eg (Resume d) t cp db = (r, cp', db')"
  obtains x where "r = Inr x" "gr_interrupt x = None" "decided d (gr_state x)"
proof -
  let ?c = "pos_config p db"
  have call: "call_config (Resume d) (pos t cp) db = Some (?c\<lparr>gc_resume := Some d\<rparr>)" using p by simp
  have "config_inv ?c"
    using p(1) ok inv by (auto simp: positions_ok_def config_inv_def thread_inv_def pos_config_def)
  moreover have "gc_next ?c = Some Exception" using p by (simp add: pos_config_def)
  ultimately obtain c where "run_graph env now 7 (?c\<lparr>gc_resume := Some d\<rparr>) = (Finished, c)" "decided d (gc_state c)"
    using review_decision_finishes [OF _ _ d] by blast
  moreover from this have "run_graph env now 25 (?c\<lparr>gc_resume := Some d\<rparr>) = (Finished, c)"
    using run_graph_more [of env now 7 _ c 18] by simp
  ultimately show thesis using invoke_exact [OF call run] that by auto
qed

end

section \<open>The model's engine\<close>

type_synonym checkpoints = "string \<Rightarrow> thread_pos option"

definition report :: "run_end \<Rightarrow> config \<Rightarrow> graph_result result" where
  "report e c = (case e of Finished \<Rightarrow> Inr \<lparr>gr_state = gc_state c, gr_interrupt = None\<rparr>
     | Paused p \<Rightarrow> Inr \<lparr>gr_state = gc_state c, gr_interrupt = Some p\<rparr>
     | Crashed x \<Rightarrow> Inl x | Recursion_Limit \<Rightarrow> Inl (RuntimeError ''GraphRecursionError''))"

definition model_engine :: "env \<Rightarrow> datetime \<Rightarrow> checkpoints engine" where
  "model_engine env now = \<lparr>
     eg_get_state = (\<lambda>t cp. case cp t of None \<Rightarrow> \<lparr>sn_values = None, sn_next = False\<rparr>
        | Some p \<Rightarrow> \<lparr>sn_values = Some (tp_state p), sn_next = (tp_next p \<noteq> None)\<rparr>),
     eg_invoke = (\<lambda>inp t cp db. case call_config inp (cp t) db of
          None \<Rightarrow> (Inl (RuntimeError ''EmptyInputError''), cp, db)
        | Some c0 \<Rightarrow> (case run_graph env now 25 c0 of
            (e, c) \<Rightarrow> (report e c, cp(t \<mapsto> config_pos c), gc_db c)))\<rparr>"

definition model_pos :: "string \<Rightarrow> checkpoints \<Rightarrow> thread_pos option" where
  "model_pos t cp = cp t"

lemma model_exact_engine: "exact_engine env (model_engine env now) model_pos now"
proof (unfold_locales, goal_cases)
  case (1 t cp)
  then show ?case by (simp add: model_engine_def model_pos_def)
next
  case (2 inp t cp db c0 r cp' db')
  obtain e c where run: "run_graph env now 25 c0 = (e, c)" by fastforce
  with 2 have *: "r = report e c" "pos = config_pos c \<Longrightarrow> cp' = cp(t \<mapsto> pos)" "db' = gc_db c" for pos
    by (auto simp: model_engine_def model_pos_def)
  with run_graph_steps [OF run] run_graph_end [OF run] show ?case
    by (intro exI [of _ c]) (auto simp: model_pos_def report_def split: run_end.splits)
next
  case (3 inp t cp db r cp' db' t')
  then show ?case by (auto simp: model_engine_def model_pos_def split: option.splits prod.splits)
next
  case (4 inp t cp db c0 r cp' db')
  obtain e c where run: "run_graph env now 25 c0 = (e, c)" by fastforce
  with 4 show ?case
    by (intro exI [of _ e] exI [of _ c]) (cases e; auto simp: model_engine_def model_pos_def report_def)
qed

interpretation model: exact_engine env "model_engine env now" model_pos now for env now
  by (rule model_exact_engine)

end
