(* ===== verification/Business_State.thy ===== *)
theory Business_State
  imports Graph_Engine
begin

text \<open>
  The business-state dimensions of a run and the review decision
  (\<open>app/services/business_state.py\<close>, \<open>app/schemas/business_state.py\<close>). The services take
  the LangGraph engine as the parameter \<open>eg\<close> with its checkpoint store \<open>cp\<close>. A decision
  is immutable: the lemmas show that the first one is recorded exactly once with the run
  and the audit event, that a repeated request changes nothing, that a different one is a
  conflict, and that no failing request records anything.
\<close>

section \<open>Projections of a run\<close>

definition ProcessingStatus :: "string list" where
  "ProcessingStatus = [''pending'', ''running'', ''retrying'', ''awaiting_review'', ''complete'', ''failed'']"

definition ReviewDisposition :: "string list" where
  "ReviewDisposition = [''not_required'', ''pending'', ''approved'', ''rejected'', ''unknown'']"

definition PostingStatus :: "string list" where
  "PostingStatus = [''not_ready'', ''ready_for_posting'', ''posting'', ''posted'', ''payment_scheduled'', ''paid'',
     ''blocked'', ''failed'']"

definition payload_set :: "jdict option \<Rightarrow> bool" where
  "payload_set p \<longleftrightarrow> (case p of None \<Rightarrow> False | Some d \<Rightarrow> d \<noteq> [])"

definition processing_status :: "workflow_run \<Rightarrow> string" where
  "processing_status run =
     (if wr_processing_status run \<noteq> [] then wr_processing_status run
      else if wr_status run \<in> set [''approved'', ''rejected'', ''partial'', ''reconciled''] then ''complete''
      else if wr_status run = ''exception'' then
        (if payload_set (wr_interrupt_payload run) then ''awaiting_review'' else ''failed'')
      else wr_status run)"

definition legacy_status :: "string \<Rightarrow> review_decision option \<Rightarrow> string" where
  "legacy_status processing decision = (case decision of Some d \<Rightarrow> rd_disposition d | None \<Rightarrow> processing)"

definition review_disposition :: "workflow_run \<Rightarrow> review_decision option \<Rightarrow> string option \<Rightarrow> string" where
  "review_disposition run decision reconciliation_status = (case decision of
     Some d \<Rightarrow> rd_disposition d
   | None \<Rightarrow> (let current = processing_status run in
       if current = ''awaiting_review'' then ''pending''
       else if current = ''complete'' \<and> reconciliation_status = Some ''exception'' then ''unknown''
       else ''not_required''))"

text \<open>\<open>ORDER BY created_at DESC LIMIT 1\<close>: a latest row, the first of several.\<close>

definition latest :: "('r \<Rightarrow> datetime) \<Rightarrow> 'r list \<Rightarrow> 'r option" where
  "latest key rs = (case rs of [] \<Rightarrow> None
     | r # rs \<Rightarrow> Some (foldl (\<lambda>a x. if key a < key x then x else a) r rs))"

definition reconciliation_status_for_run :: "database \<Rightarrow> string \<Rightarrow> string option" where
  "reconciliation_status_for_run db run_id =
     (let rows = filter (\<lambda>r. rr_run_id r = Some run_id \<and> get_shipment (rr_shipment_id r) db \<noteq> None)
                   (reconciliation_results db) in
      case latest rr_created_at rows of None \<Rightarrow> None
      | Some r \<Rightarrow> map_option sh_reconciliation_status (get_shipment (rr_shipment_id r) db))"

record state_view =
  sv_run_id :: string
  sv_status :: string
  sv_processing_status :: string
  sv_reconciliation_status :: "string option"
  sv_review_disposition :: string
  sv_posting_status :: string
  sv_reviewed_at :: "datetime option"
  sv_reviewer_id :: "string option"

definition state_payload :: "workflow_run \<Rightarrow> review_decision option \<Rightarrow> string option \<Rightarrow> state_view" where
  "state_payload run decision reconciliation_status =
     (let current = processing_status run in
      \<lparr>sv_run_id = wr_run_id run, sv_status = legacy_status current decision, sv_processing_status = current,
       sv_reconciliation_status = reconciliation_status,
       sv_review_disposition = review_disposition run decision reconciliation_status,
       sv_posting_status = wr_posting_status run, sv_reviewed_at = map_option rd_decided_at decision,
       sv_reviewer_id = (case decision of None \<Rightarrow> None | Some d \<Rightarrow> rd_reviewer_id d)\<rparr>)"

section \<open>Deciding a review\<close>

datatype review_error = BusinessStateConflict string string jdict | Unhandled py_error

definition locked_run :: "database \<Rightarrow> string \<Rightarrow> (workflow_run option \<times> review_decision option) result" where
  "locked_run db run_id =
     (case scalar_one_or_none (filter (\<lambda>r. wr_run_id r = run_id) (workflow_runs db)) of
        Inl e \<Rightarrow> Inl e
      | Inr None \<Rightarrow> Inr (None, None)
      | Inr (Some run) \<Rightarrow>
          (case scalar_one_or_none (filter (\<lambda>d. rd_run_id d = run_id) (review_decisions db)) of
             Inl e \<Rightarrow> Inl e | Inr d \<Rightarrow> Inr (Some run, d)))"

definition decision_conflict :: "string \<Rightarrow> string \<Rightarrow> string \<Rightarrow> review_error" where
  "decision_conflict message existing requested = BusinessStateConflict ''review_decision_conflict'' message
     [(''existing_decision'', JStr existing), (''requested_decision'', JStr requested)]"

text \<open>The state the decision is taken on: the checkpoint when it already holds the decision
  (a request that died after the graph ran), otherwise the resumed graph.\<close>

definition resumed_result ::
  "'c engine \<Rightarrow> string \<Rightarrow> string \<Rightarrow> 'c \<Rightarrow> database \<Rightarrow> (review_error + graph_result) \<times> 'c \<times> database" where
  "resumed_result eg run_id requested cp db =
     (let snapshot = eg_get_state eg run_id cp;
          checkpoint_decision = (case sn_values snapshot of None \<Rightarrow> None | Some s \<Rightarrow> ws_human_decision s) in
      if is_decision checkpoint_decision then
        (if checkpoint_decision \<noteq> Some requested
         then (Inl (decision_conflict ''The checkpoint contains a different review decision''
                      (the checkpoint_decision) requested), cp, db)
         else (Inr \<lparr>gr_state = the (sn_values snapshot), gr_interrupt = None\<rparr>, cp, db))
      else if sn_values snapshot = None \<or> \<not> sn_next snapshot
      then (Inl (BusinessStateConflict ''checkpoint_state_conflict''
                   ''The workflow checkpoint is not paused for review'' []), cp, db)
      else (case eg_invoke eg (Resume requested) run_id cp db of
          (Inl e, cp, db) \<Rightarrow> (Inl (Unhandled e), cp, db)
        | (Inr r, cp, db) \<Rightarrow> (Inr r, cp, db)))"

definition check_result :: "graph_result \<Rightarrow> string \<Rightarrow> review_error option" where
  "check_result r requested =
     (if interrupt_payload r \<noteq> None
      then Some (BusinessStateConflict ''checkpoint_state_conflict''
                   ''The workflow remained interrupted after the decision'' [])
      else if ws_human_decision (gr_state r) \<noteq> Some requested
      then Some (BusinessStateConflict ''checkpoint_state_conflict''
                   ''The completed checkpoint does not contain the requested decision''
                   [(''checkpoint_decision'', jstr_opt (ws_human_decision (gr_state r)))])
      else None)"

definition decided_run :: "string \<Rightarrow> workflow_run \<Rightarrow> workflow_run" where
  "decided_run d run = run\<lparr>wr_processing_status := ''complete'',
     wr_posting_status := (if d = ''approved'' then ''ready_for_posting'' else ''blocked''), wr_status := d\<rparr>"

definition store_decision ::
  "workflow_run \<Rightarrow> string \<Rightarrow> string \<Rightarrow> database \<Rightarrow> (workflow_run \<times> review_decision \<times> database) result" where
  "store_decision run run_id requested db =
     (if requested \<notin> set [''approved'', ''rejected''] then Inl IntegrityError
      else
        (let (i, db) = fresh_uuid db;
             decision = \<lparr>rd_id = i, rd_run_id = run_id, rd_disposition = requested,
                         rd_decided_at = pg_now db, rd_reviewer_id = None\<rparr>;
             db = db\<lparr>review_decisions := review_decisions db @ [decision]\<rparr>;
             run = touch_run (decided_run requested run) db;
             db = put_run run db in
         (case log_audit_event run_id requested
                 (Some [(''decision_id'', JStr i), (''human_decision'', JStr requested),
                        (''decided_at'', JStr (isoformat (rd_decided_at decision))), (''reviewer_id'', JNull)])
                 ''human'' db of
            Inl e \<Rightarrow> Inl e
          | Inr db \<Rightarrow> Inr (run, decision, db))))"

text \<open>The whole request. What the graph committed in its own transactions stays when the
  request fails; the request's own transaction is rolled back.\<close>

definition decide_review ::
  "'c engine \<Rightarrow> string \<Rightarrow> string \<Rightarrow> 'c \<Rightarrow> database
   \<Rightarrow> (review_error + workflow_run option \<times> review_decision option \<times> bool) \<times> 'c \<times> database" where
  "decide_review eg run_id requested cp db =
     (case locked_run db run_id of
        Inl e \<Rightarrow> (Inl (Unhandled e), cp, db)
      | Inr (None, _) \<Rightarrow> (Inr (None, None, False), cp, db)
      | Inr (Some run, Some existing) \<Rightarrow>
          (if rd_disposition existing \<noteq> requested
           then (Inl (decision_conflict ''A different review decision already exists''
                        (rd_disposition existing) requested), cp, db)
           else (Inr (Some run, Some existing, True), cp, db))
      | Inr (Some run, None) \<Rightarrow>
          (if processing_status run \<noteq> ''awaiting_review''
           then (Inl (BusinessStateConflict ''workflow_not_awaiting_review''
                        ''Only an awaiting_review workflow can receive its first decision''
                        [(''processing_status'', JStr (processing_status run))]), cp, db)
           else (case resumed_result eg run_id requested cp db of
               (Inl e, cp, db) \<Rightarrow> (Inl e, cp, db)
             | (Inr r, cp, db) \<Rightarrow>
                 (case check_result r requested of
                    Some e \<Rightarrow> (Inl e, cp, db)
                  | None \<Rightarrow>
                      (case store_decision run run_id requested db of
                         Inl e \<Rightarrow> (Inl (Unhandled e), cp, db)
                       | Inr (run, decision, db) \<Rightarrow> (Inr (Some run, Some decision, False), cp, db))))))"

section \<open>The invariant of runs and decisions\<close>

definition get_decision :: "string \<Rightarrow> database \<Rightarrow> review_decision option" where
  "get_decision i db = get_row rd_run_id i (review_decisions db)"

definition decided_ok :: "review_decision \<Rightarrow> workflow_run \<Rightarrow> bool" where
  "decided_ok d run \<longleftrightarrow> rd_disposition d \<in> {''approved'', ''rejected''} \<and> wr_status run = rd_disposition d
     \<and> wr_processing_status run = ''complete''
     \<and> wr_posting_status run = (if rd_disposition d = ''approved'' then ''ready_for_posting'' else ''blocked'')"

definition runs_inv :: "database \<Rightarrow> bool" where
  "runs_inv db \<longleftrightarrow> distinct (map wr_run_id (workflow_runs db)) \<and> distinct (map rd_run_id (review_decisions db))
     \<and> (\<forall>d \<in> set (review_decisions db). \<exists>run. get_run (rd_run_id d) db = Some run \<and> decided_ok d run)"

definition service_inv :: "database \<Rightarrow> bool" where
  "service_inv db \<longleftrightarrow> db_inv db \<and> audit_inv db \<and> runs_inv db"

lemma service_invD:
  assumes "service_inv db"
  shows "db_inv db" "audit_inv db" "runs_inv db"
  using assms by (simp_all add: service_inv_def)

lemma runs_inv_decision:
  assumes "runs_inv db" and "get_decision i db = Some d"
  obtains run where "get_run i db = Some run" "decided_ok d run" "rd_run_id d = i"
proof -
  from assms(2) have "rd_run_id d = i" "d \<in> set (review_decisions db)"
    unfolding get_decision_def by (auto dest: get_row_key)
  with assms(1) that show thesis by (auto simp: runs_inv_def)
qed

lemma locked_run_eq:
  assumes "runs_inv db"
  shows "locked_run db i = Inr (get_run i db, get_decision i db)"
proof -
  have "get_run i db = None \<Longrightarrow> get_decision i db = None"
    using assms runs_inv_decision by (metis option.distinct(1) option.exhaust)
  with assms show ?thesis
    by (auto simp: locked_run_def runs_inv_def scalar_one_or_none_unique get_run_def get_decision_def
        split: option.splits)
qed

lemma get_run_put_run:
  "get_run i (put_run r db) = (if i = wr_run_id r \<and> get_run i db \<noteq> None then Some r else get_run i db)"
  by (rule run_store.look_store)

lemma put_run_frame [simp]:
  "documents (put_run r db) = documents db" "shipments (put_run r db) = shipments db"
  "rate_confirmations (put_run r db) = rate_confirmations db"
  "reconciliation_results (put_run r db) = reconciliation_results db"
  "shipment_exceptions (put_run r db) = shipment_exceptions db"
  "exception_events (put_run r db) = exception_events db"
  "review_decisions (put_run r db) = review_decisions db" "audit_logs (put_run r db) = audit_logs db"
  "audit_seq (put_run r db) = audit_seq db" "uuid4_at (put_run r db) = uuid4_at db"
  "uuid_pos (put_run r db) = uuid_pos db" "pg_now (put_run r db) = pg_now db"
  "workflow_runs (put_run r db) = set_row wr_run_id r (workflow_runs db)"
  by (simp_all add: put_run_def)

text \<open>Writes outside the tables of the shipment services, that never drop a run.\<close>

definition same_tables :: "database \<Rightarrow> database \<Rightarrow> bool" where
  "same_tables db db' \<longleftrightarrow> shipments db' = shipments db \<and> rate_confirmations db' = rate_confirmations db
     \<and> reconciliation_results db' = reconciliation_results db \<and> shipment_exceptions db' = shipment_exceptions db
     \<and> exception_events db' = exception_events db \<and> uuid4_at db' = uuid4_at db \<and> uuid_pos db \<le> uuid_pos db'
     \<and> (\<forall>r. get_run r db \<noteq> None \<longrightarrow> get_run r db' \<noteq> None)"

lemma db_inv_same_tables:
  assumes "db_inv db" and "same_tables db db'"
  shows "db_inv db'"
proof -
  from assms have "shipments_inv db'" by (auto simp: db_inv_def same_tables_def intro: shipments_inv_pool [of db])
  moreover from assms have "exceptions_inv db'" by (auto simp: db_inv_def same_tables_def intro: exceptions_inv_pool [of db])
  moreover have "results_inv db'"
  proof -
    have res: "results_inv db" and same: "reconciliation_results db' = reconciliation_results db"
        "uuid4_at db' = uuid4_at db" "uuid_pos db \<le> uuid_pos db'"
      and run: "\<And>r. get_run r db \<noteq> None \<Longrightarrow> get_run r db' \<noteq> None"
      using assms by (auto simp: db_inv_def same_tables_def)
    have "case rr_run_id x of None \<Rightarrow> True | Some r \<Rightarrow> get_run r db' \<noteq> None"
      if "x \<in> set (reconciliation_results db)" for x
      using res that run by (cases "rr_run_id x") (auto simp: results_inv_def results_constraints_def list_all_iff)
    with res same show ?thesis
      by (auto simp add: results_inv_def results_constraints_def list_all_iff)
  qed
  ultimately show ?thesis using assms by (simp add: db_inv_def same_tables_def)
qed

lemma audit_inv_same_rows:
  assumes "audit_inv db" and "same_tables db db'" and "audit_logs db' = audit_logs db" "audit_seq db' = audit_seq db"
  shows "audit_inv db'"
  using assms by (auto simp: audit_inv_def same_tables_def)

section \<open>Storing the decision\<close>

lemma touch_run_simps [simp]:
  "wr_run_id (touch_run r db) = wr_run_id r" "wr_status (touch_run r db) = wr_status r"
  "wr_processing_status (touch_run r db) = wr_processing_status r"
  "wr_posting_status (touch_run r db) = wr_posting_status r"
  "wr_document_id (touch_run r db) = wr_document_id r"
  "wr_interrupt_payload (touch_run r db) = wr_interrupt_payload r"
  by (simp_all add: touch_run_def)

lemma decided_run_simps [simp]:
  "wr_run_id (decided_run d r) = wr_run_id r" "wr_status (decided_run d r) = d"
  "wr_processing_status (decided_run d r) = ''complete''"
  "wr_posting_status (decided_run d r) = (if d = ''approved'' then ''ready_for_posting'' else ''blocked'')"
  "wr_interrupt_payload (decided_run d r) = wr_interrupt_payload r"
  by (simp_all add: decided_run_def)

text \<open>The database after the flush of the decision and of the run, before the audit event.\<close>

definition with_decision :: "review_decision \<Rightarrow> workflow_run \<Rightarrow> database \<Rightarrow> database" where
  "with_decision dec run db = put_run run
     (db\<lparr>uuid_pos := Suc (uuid_pos db), review_decisions := review_decisions db @ [dec]\<rparr>)"

lemma with_decision_rows:
  assumes "wr_run_id run = i"
  shows "get_run j (with_decision dec run db) = (if j = i \<and> get_run j db \<noteq> None then Some run else get_run j db)"
    "review_decisions (with_decision dec run db) = review_decisions db @ [dec]"
    "audit_logs (with_decision dec run db) = audit_logs db" "audit_seq (with_decision dec run db) = audit_seq db"
    "same_tables db (with_decision dec run db)"
proof -
  have r: "get_run j (db\<lparr>uuid_pos := p, review_decisions := x\<rparr>) = get_run j db" for j p x
    by (simp add: get_run_def)
  show runs: "get_run j (with_decision dec run db) = (if j = i \<and> get_run j db \<noteq> None then Some run else get_run j db)" for j
    by (auto simp add: with_decision_def get_run_put_run r assms)
  have "get_run r db \<noteq> None \<longrightarrow> get_run r (with_decision dec run db) \<noteq> None" for r
    using runs [of r] by (cases "r = i") simp_all
  then show "same_tables db (with_decision dec run db)"
    unfolding same_tables_def by (simp add: with_decision_def)
  show "review_decisions (with_decision dec run db) = review_decisions db @ [dec]"
    "audit_logs (with_decision dec run db) = audit_logs db" "audit_seq (with_decision dec run db) = audit_seq db"
    by (simp_all add: with_decision_def)
qed

lemma with_decision_inv:
  assumes inv: "service_inv db" and run: "get_run i db = Some r" and none: "get_decision i db = None"
    and dec: "rd_run_id dec = i" "wr_run_id run = i" "decided_ok dec run"
  shows "service_inv (with_decision dec run db)"
proof -
  note rows = with_decision_rows [OF dec(2), where dec = dec and db = db]
  note inv = service_invD [OF inv]
  have "db_inv (with_decision dec run db)" using inv(1) rows(5) by (rule db_inv_same_tables)
  moreover have "audit_inv (with_decision dec run db)" using inv(2) rows(5,3,4) by (rule audit_inv_same_rows)
  moreover have "runs_inv (with_decision dec run db)"
  proof -
    have ids: "map wr_run_id (workflow_runs (with_decision dec run db)) = map wr_run_id (workflow_runs db)"
      by (simp add: with_decision_def)
    have new: "i \<notin> rd_run_id ` set (review_decisions db)" using none by (simp add: get_decision_def get_row_None_iff)
    then have "rd_run_id d \<noteq> i" if "d \<in> set (review_decisions db)" for d using that by auto
    with inv(3) dec run new show ?thesis by (auto simp: runs_inv_def rows ids)
  qed
  ultimately show ?thesis by (simp add: service_inv_def)
qed

lemma log_audit_event_service:
  assumes inv: "service_inv db" and "log_audit_event r t p a db = Inr db'"
  shows "service_inv db'" "same_runs db db'"
proof -
  note same = same_but_audit_fields [OF log_audit_event_frame [OF assms(2)]]
  show "same_runs db db'" by (simp add: same_runs_def same)
  have "get_run j db' = get_run j db" for j by (simp add: get_run_def same)
  then have "runs_inv db'" using inv by (simp add: service_inv_def runs_inv_def same)
  with inv show "service_inv db'"
    using log_audit_event_inv [OF assms(2)] db_inv_same_but_audit [OF log_audit_event_frame [OF assms(2)]]
    by (simp add: service_inv_def)
qed

lemma store_decision_stores:
  assumes inv: "service_inv db" and run: "get_run i db = Some run" and none: "get_decision i db = None"
    and d: "d = ''approved'' \<or> d = ''rejected''"
  obtains run' dec db' where "store_decision run i d db = Inr (run', dec, db')" "service_inv db'"
    "get_run i db' = Some run'" "decided_ok dec run'" "rd_disposition dec = d" "rd_run_id dec = i"
    "wr_interrupt_payload run' = wr_interrupt_payload run"
    "review_decisions db' = review_decisions db @ [dec]" "logged i d db'"
    "\<And>j. j \<noteq> i \<Longrightarrow> get_run j db' = get_run j db"
proof -
  let ?dec = "\<lparr>rd_id = uuid4_at db (uuid_pos db), rd_run_id = i, rd_disposition = d,
      rd_decided_at = pg_now db, rd_reviewer_id = None\<rparr>"
  let ?db1 = "db\<lparr>uuid_pos := Suc (uuid_pos db), review_decisions := review_decisions db @ [?dec]\<rparr>"
  let ?run = "touch_run (decided_run d run) ?db1"
  have id: "wr_run_id run = i" using run by (rule run_store.look_rkey)
  then have rid: "wr_run_id ?run = i" by simp
  have ok: "decided_ok ?dec ?run" using d by (auto simp: decided_ok_def)
  let ?db2 = "with_decision ?dec ?run db"
  have inv2: "service_inv ?db2" by (rule with_decision_inv [OF inv run none]) (simp_all add: ok id)
  note rows = with_decision_rows [OF rid, where dec = ?dec and db = db]
  have "get_run i ?db2 \<noteq> None" using rows(1) run by simp
  from log_audit_event_returns [OF this] obtain db' where
    log: "log_audit_event i d (Some [(''decision_id'', JStr (uuid4_at db (uuid_pos db))), (''human_decision'', JStr d),
       (''decided_at'', JStr (isoformat (pg_now db))), (''reviewer_id'', JNull)]) ''human'' ?db2 = Inr db'" by blast
  have "store_decision run i d db = Inr (?run, ?dec, db')"
    using d log by (auto simp: store_decision_def fresh_uuid_def Let_def with_decision_def)
  moreover note log_audit_event_service [OF inv2 log]
  moreover from this(2) have "get_run j db' = get_run j ?db2" "review_decisions db' = review_decisions ?db2" for j
    by (auto simp: get_run_same_runs) (simp add: same_runs_def)
  moreover have "logged i d db'" using log_audit_event_logged [OF log] by simp
  ultimately show thesis using that [of ?run ?dec db'] ok rows run by simp
qed

section \<open>Requests\<close>

text \<open>What every request keeps, whatever it answers.\<close>

lemma resumed_result_cases:
  assumes eng: "graph_engine env eg pos" and res: "resumed_result eg i d cp db = (r, cp', db')"
  obtains (refused) e where "r = Inl e" "cp' = cp" "db' = db"
  | (checkpoint) p where "pos i cp = Some p" "is_decision (Some d)" "ws_human_decision (tp_state p) = Some d"
      "r = Inr \<lparr>gr_state = tp_state p, gr_interrupt = None\<rparr>" "cp' = cp" "db' = db"
  | (invoked) p x where "pos i cp = Some p" "tp_next p \<noteq> None" "eg_invoke eg (Resume d) i cp db = (x, cp', db')"
      "r = (case x of Inl e \<Rightarrow> Inl (Unhandled e) | Inr g \<Rightarrow> Inr g)"
proof (cases "pos i cp")
  case None
  with res graph_engine.get_state [OF eng, of i cp] show thesis
    by (intro refused) (auto simp: resumed_result_def is_decision_def)
next
  case (Some p)
  note get = graph_engine.get_state [OF eng, of i cp, unfolded Some option.case]
  show thesis
  proof (cases "is_decision (ws_human_decision (tp_state p))")
    case True
    then obtain e where e: "ws_human_decision (tp_state p) = Some e" by (auto simp: is_decision_def)
    show thesis
    proof (cases "e = d")
      case True
      with res get e \<open>is_decision _\<close> Some show thesis
        by (intro checkpoint) (auto simp: resumed_result_def Let_def)
    next
      case False
      with res get e \<open>is_decision _\<close> show thesis by (intro refused) (auto simp: resumed_result_def Let_def)
    qed
  next
    case nodec: False
    show thesis
    proof (cases "tp_next p = None")
      case True
      with res get nodec show thesis by (intro refused) (auto simp: resumed_result_def Let_def)
    next
      case False
      obtain x cp1 db1 where call: "eg_invoke eg (Resume d) i cp db = (x, cp1, db1)" by (metis prod_cases3)
      with res get nodec False have "r = (case x of Inl e \<Rightarrow> Inl (Unhandled e) | Inr g \<Rightarrow> Inr g) \<and> cp' = cp1 \<and> db' = db1"
        by (auto simp: resumed_result_def Let_def split: sum.splits)
      with Some False call show thesis by (intro invoked) simp_all
    qed
  qed
qed

lemma service_inv_same_runs:
  "service_inv db \<Longrightarrow> db_inv db' \<Longrightarrow> audit_inv db' \<Longrightarrow> same_runs db db' \<Longrightarrow> service_inv db'"
  by (simp add: service_inv_def runs_inv_def same_runs_def get_run_def)

lemma resumed_result_keeps:
  assumes eng: "graph_engine env eg pos" and ok: "positions_ok pos cp db"
    and inv: "service_inv db" and run: "get_run i db \<noteq> None" and res: "resumed_result eg i d cp db = (r, cp', db')"
  shows "service_inv db' \<and> same_runs db db' \<and> positions_ok pos cp' db'"
  using eng res
proof (cases rule: resumed_result_cases)
  case (invoked p x)
  have call: "call_config (Resume d) (pos i cp) db \<noteq> None" using invoked(1,2) by simp
  note keeps = graph_engine.invoke_keeps [OF eng call invoked(3) ok service_invD(1,2) [OF inv] run, simplified]
  then show ?thesis using service_inv_same_runs [OF inv] by blast
qed (use ok inv in simp_all)

lemma store_decision_bad: "d \<noteq> ''approved'' \<Longrightarrow> d \<noteq> ''rejected'' \<Longrightarrow> store_decision run i d db = Inl IntegrityError"
  by (simp add: store_decision_def)

text \<open>The ways a request ends.\<close>

lemma decide_review_cases:
  assumes eng: "graph_engine env eg pos" and ok: "positions_ok pos cp db" and inv: "service_inv db"
    and req: "decide_review eg i d cp db = (r, cp', db')"
  obtains (unknown) "get_run i db = None" "r = Inr (None, None, False)" "cp' = cp" "db' = db"
  | (again) run dec where "get_run i db = Some run" "get_decision i db = Some dec" "rd_disposition dec = d"
      "r = Inr (Some run, Some dec, True)" "cp' = cp" "db' = db"
  | (refused) e where "r = Inl e" "service_inv db'" "same_runs db db'" "positions_ok pos cp' db'"
  | (first) run run' dec where "get_run i db = Some run" "processing_status run = ''awaiting_review''"
      "get_decision i db = None" "r = Inr (Some run', Some dec, False)" "service_inv db'" "positions_ok pos cp' db'"
      "get_run i db' = Some run'" "decided_ok dec run'" "rd_disposition dec = d" "rd_run_id dec = i"
      "review_decisions db' = review_decisions db @ [dec]" "logged i d db'"
      "\<And>j. j \<noteq> i \<Longrightarrow> get_run j db' = get_run j db"
proof (cases "get_run i db")
  case None
  with req service_invD(3) [OF inv] show thesis by (intro unknown) (simp_all add: decide_review_def locked_run_eq)
next
  case run: (Some run)
  note req = req [unfolded decide_review_def locked_run_eq [OF service_invD(3) [OF inv]] run, simplified]
  show thesis
  proof (cases "get_decision i db")
    case (Some dec)
    show thesis
    proof (cases "rd_disposition dec = d")
      case True
      with Some run req show thesis by (intro again) auto
    next
      case False
      with Some req inv ok show thesis by (intro refused) auto
    qed
  next
    case None
    show thesis
    proof (cases "processing_status run = ''awaiting_review''")
      case False
      with None req inv ok show thesis by (intro refused) auto
    next
      case True
      obtain x cp1 db1 where res: "resumed_result eg i d cp db = (x, cp1, db1)" by (metis prod_cases3)
      have "get_run i db \<noteq> None" using run by simp
      note keeps = resumed_result_keeps [OF eng ok inv this res]
      then have run1: "get_run i db1 = Some run" and none1: "get_decision i db1 = None"
        using run None get_run_same_runs by (auto simp: get_decision_def same_runs_def get_run_def)
      show thesis
      proof (cases "\<exists>g. x = Inr g \<and> check_result g d = None \<and> (d = ''approved'' \<or> d = ''rejected'')")
        case False
        then have "(\<exists>e. r = Inl e) \<and> cp' = cp1 \<and> db' = db1"
          using None True req res by (auto simp: store_decision_bad split: sum.splits option.splits)
        with keeps refused show thesis by auto
      next
        case stores: True
        from keeps have inv1: "service_inv db1" by simp
        from stores obtain g where g: "x = Inr g" "check_result g d = None" "d = ''approved'' \<or> d = ''rejected''" by blast
        show thesis
        proof (rule store_decision_stores [OF inv1 run1 none1 g(3)])
          fix run' dec db2
          assume st: "store_decision run i d db1 = Inr (run', dec, db2)" "service_inv db2"
            "get_run i db2 = Some run'" "decided_ok dec run'" "rd_disposition dec = d" "rd_run_id dec = i"
            "review_decisions db2 = review_decisions db1 @ [dec]" "logged i d db2"
            "\<And>j. j \<noteq> i \<Longrightarrow> get_run j db2 = get_run j db1"
          have r: "r = Inr (Some run', Some dec, False)" "cp' = cp1" "db' = db2"
            using None True req res g st(1) by auto
          have run2: "get_run j db2 = get_run j db" if "j \<noteq> i" for j
            using st(9) [OF that] keeps get_run_same_runs by auto
          then have "positions_ok pos cp1 db2"
            using keeps st(3) get_run_same_runs by (auto intro!: positions_ok_mono [of pos cp1 db1]) metis
          with st r run True None keeps run2 show thesis
            by (intro first [of run run' dec]) (auto simp: same_runs_def)
        qed
      qed
    qed
  qed
qed

lemma again_same:
  assumes "runs_inv db" and "get_decision i db = Some dec" and "get_run i db = Some run"
  shows "decide_review eg i d cp db =
     (if rd_disposition dec \<noteq> d
      then (Inl (decision_conflict ''A different review decision already exists'' (rd_disposition dec) d), cp, db)
      else (Inr (Some run, Some dec, True), cp, db))"
  using assms by (simp add: decide_review_def locked_run_eq)

text \<open>C13: the first accepted decision is recorded once and for all. It adds exactly one
  decision row, sets the run to complete and to ready for posting or blocked accordingly,
  writes the audit event and leaves every other run alone; afterwards the same request,
  on any engine and checkpoint, answers the same decision and changes nothing, and a
  different one is a conflict and changes nothing.\<close>

theorem decide_review_once:
  assumes "graph_engine env (eg :: 'c engine) pos" and "positions_ok pos cp db" and "service_inv db"
    and "decide_review eg i d cp db = (Inr (Some run, Some dec, False), cp', db')"
  shows "service_inv db' \<and> get_run i db' = Some run \<and> decided_ok dec run \<and> rd_disposition dec = d
    \<and> review_decisions db' = review_decisions db @ [dec] \<and> logged i d db'
    \<and> (\<forall>j. j \<noteq> i \<longrightarrow> get_run j db' = get_run j db)
    \<and> (\<forall>(eg'' :: 'c engine) cp'' d''. decide_review eg'' i d'' cp'' db' =
         (if d'' = d then (Inr (Some run, Some dec, True), cp'', db')
          else (Inl (decision_conflict ''A different review decision already exists'' d d''), cp'', db')))"
  using assms
proof (cases rule: decide_review_cases)
  case (first run0 run' dec')
  then have eq: "run' = run" "dec' = dec" by simp_all
  have "get_decision i db = None" by (rule first(3))
  then have "get_decision i db' = Some dec"
    using first(10,11) eq by (simp add: get_decision_def get_row_append)
  note again = again_same [OF service_invD(3) [OF first(5)] this first(7) [unfolded eq]]
  have same: "decide_review eg'' i d'' cp'' db' = (if d'' = d then (Inr (Some run, Some dec, True), cp'', db')
          else (Inl (decision_conflict ''A different review decision already exists'' d d''), cp'', db'))" for eg'' d'' cp''
    using first(9) eq by (auto simp: again)
  show ?thesis using first eq by (simp add: same)
qed simp_all

text \<open>C14: a refused request records nothing. Whatever made it fail (an unknown or decided
  run, a conflicting checkpoint, an engine error), no run and no decision changed and the
  invariants hold.\<close>

theorem decide_review_refused:
  assumes "graph_engine env eg pos" and "positions_ok pos cp db" and "service_inv db"
    and "decide_review eg i d cp db = (Inl e, cp', db')"
  shows "workflow_runs db' = workflow_runs db \<and> review_decisions db' = review_decisions db
    \<and> service_inv db' \<and> positions_ok pos cp' db'"
  using assms by (cases rule: decide_review_cases) (simp_all add: same_runs_def)

lemma decide_review_accepts:
  assumes eng: "exact_engine env eg pos now" and ok: "positions_ok pos cp db" and inv: "service_inv db"
    and run: "get_run i db = Some run" "processing_status run = ''awaiting_review''" "get_decision i db = None"
    and p: "pos i cp = Some p" "tp_next p = Some Exception"
    and d: "d = ''approved'' \<or> d = ''rejected''"
  shows "\<exists>run' dec cp' db'. decide_review eg i d cp db = (Inr (Some run', Some dec, False), cp', db')
    \<and> rd_disposition dec = d \<and> wr_posting_status run' = (if d = ''approved'' then ''ready_for_posting'' else ''blocked'')"
proof -
  have eng': "graph_engine env eg pos" using eng by (simp add: exact_engine_def)
  have some: "get_run i db \<noteq> None" using run by simp
  obtain x cp1 db1 where call: "eg_invoke eg (Resume d) i cp db = (x, cp1, db1)" by (metis prod_cases3)
  obtain g where g: "x = Inr g" "gr_interrupt g = None" "decided d (gr_state g)"
    using exact_engine.resume_finishes [OF eng p ok service_invD(1,2) [OF inv] some d call] by blast
  have "\<not> is_decision (ws_human_decision (tp_state p))"
    using ok [unfolded positions_ok_def, rule_format, OF p(1)] p(2) by simp
  then have res: "resumed_result eg i d cp db = (Inr g, cp1, db1)"
    using graph_engine.get_state [OF eng', of i cp] p call g(1) by (simp add: resumed_result_def Let_def)
  note keeps = resumed_result_keeps [OF eng' ok inv some res]
  have "get_run i db1 = Some run" "get_decision i db1 = None"
    using keeps run get_run_same_runs by (auto simp: get_decision_def same_runs_def get_run_def)
  moreover from keeps have "service_inv db1" by simp
  ultimately obtain run' dec db2 where "store_decision run i d db1 = Inr (run', dec, db2)" "decided_ok dec run'"
      "rd_disposition dec = d"
    using store_decision_stores [OF _ _ _ d] by metis
  moreover have "check_result g d = None"
    using g by (simp add: check_result_def interrupt_payload_def decided_def)
  ultimately show ?thesis
    using run res by (auto simp: decide_review_def locked_run_eq [OF service_invD(3) [OF inv]] decided_ok_def)
qed

text \<open>C15: a review can always be decided. For a run that awaits review, whose thread is paused
  at the exception node, both decisions are accepted.\<close>

theorem decide_review_succeeds:
  assumes eng: "exact_engine env eg pos now" and ok: "positions_ok pos cp db" and inv: "service_inv db"
    and run: "get_run i db = Some run" "processing_status run = ''awaiting_review''" "get_decision i db = None"
    and p: "pos i cp = Some p" "tp_next p = Some Exception"
    and d: "d = ''approved'' \<or> d = ''rejected''"
  shows "\<exists>run' dec cp' db'. decide_review eg i d cp db = (Inr (Some run', Some dec, False), cp', db')
    \<and> rd_disposition dec = d \<and> wr_posting_status run' = (if d = ''approved'' then ''ready_for_posting'' else ''blocked'')"
  using assms by (rule decide_review_accepts)

section \<open>A concrete review\<close>

definition sample_awaiting :: workflow_run where
  "sample_awaiting = sample_run\<lparr>wr_status := ''awaiting_review'', wr_processing_status := ''awaiting_review''\<rparr>"

lemma sample_review:
  obtains cp db p where "positions_ok model_pos cp db" "service_inv db" "get_run ''run-1'' db = Some sample_awaiting"
    "get_decision ''run-1'' db = None" "model_pos ''run-1'' cp = Some p" "tp_next p = Some Exception"
proof (rule sample_paused)
  fix c assume c: "graph_steps sample_env (start_config sample_state sample_run_db) c" "gc_next c = Some Exception"
      "config_inv c"
  let ?cp = "[''run-1'' \<mapsto> config_pos c] :: checkpoints"
  let ?db = "put_run sample_awaiting (gc_db c)"
  have "thread_inv (ws_run_id (gc_state (start_config sample_state sample_run_db)))
      (gc_db (start_config sample_state sample_run_db))"
    using sample_run_db_inv by (simp add: start_config_def)
  from graph_steps_keep [OF c(1) this] have id: "ws_run_id (gc_state c) = ''run-1''"
      and k: "keeps_thread ''run-1'' sample_run_db (gc_db c)"
    by (simp_all add: start_config_def sample_state_def)
  from k have rows: "workflow_runs (gc_db c) = [sample_run]" "review_decisions (gc_db c) = []"
    by (simp_all add: keeps_thread_def same_runs_def sample_run_db_def sample_documents_db_def new_document_def
        add_document_def fresh_database_def Let_def)
  have runs: "get_run i ?db = (if i = ''run-1'' then Some sample_awaiting else None)" for i
    by (simp add: get_run_def rows set_row_def sample_awaiting_def sample_run_def)
  have same: "same_tables (gc_db c) ?db"
    by (auto simp: same_tables_def runs) (simp add: get_run_def rows sample_run_def split: if_splits)
  from k have "db_inv (gc_db c)" "audit_inv (gc_db c)" by (auto simp: keeps_thread_def thread_inv_def)
  then have "db_inv ?db" "audit_inv ?db"
    using same by (auto intro: db_inv_same_tables audit_inv_same_rows)
  moreover have "runs_inv ?db" by (simp add: runs_inv_def rows)
  ultimately have "service_inv ?db" by (simp add: service_inv_def)
  moreover have "positions_ok model_pos ?cp ?db"
    using c(3) id by (auto simp: positions_ok_def model_pos_def config_pos_def config_inv_def runs)
  ultimately show thesis
    using that [of ?cp ?db "config_pos c"] c(2) rows by (simp add: runs get_decision_def model_pos_def config_pos_def)
qed

lemmas model_graph_engine = model_exact_engine [THEN exact_engine.axioms(1)]

theorem decide_review_succeeds_witness:
  "\<exists>cp db run dec cp' db'. get_run ''run-1'' db = Some sample_awaiting
     \<and> decide_review (model_engine sample_env 0) ''run-1'' ''rejected'' cp db = (Inr (Some run, Some dec, False), cp', db')
     \<and> wr_posting_status run = ''blocked''"
proof (rule sample_review)
  fix cp db p
  assume s: "positions_ok model_pos cp db" "service_inv db" "get_run ''run-1'' db = Some sample_awaiting"
    "get_decision ''run-1'' db = None" "model_pos ''run-1'' cp = Some p" "tp_next p = Some Exception"
  have "processing_status sample_awaiting = ''awaiting_review''" by code_simp
  from decide_review_succeeds [OF model_exact_engine, OF s(1,2,3) this s(4,5,6) disjI2 [OF refl], of sample_env 0]
  obtain run dec cp' db' where "decide_review (model_engine sample_env 0) ''run-1'' ''rejected'' cp db
       = (Inr (Some run, Some dec, False), cp', db')"
      "wr_posting_status run = (if ''rejected'' = ''approved'' then ''ready_for_posting'' else ''blocked'')"
    by (elim exE conjE)
  moreover from this(2) have "wr_posting_status run = ''blocked''" by simp
  ultimately show ?thesis using s(3) by blast
qed

theorem decide_review_once_witness:
  "\<exists>cp db run dec cp' db'. decide_review (model_engine sample_env 0) ''run-1'' ''approved'' cp db
       = (Inr (Some run, Some dec, False), cp', db')
     \<and> wr_posting_status run = ''ready_for_posting''
     \<and> decide_review (model_engine sample_env 0) ''run-1'' ''approved'' cp' db' = (Inr (Some run, Some dec, True), cp', db')"
proof (rule sample_review)
  fix cp db p
  assume s: "positions_ok model_pos cp db" "service_inv db" "get_run ''run-1'' db = Some sample_awaiting"
    "get_decision ''run-1'' db = None" "model_pos ''run-1'' cp = Some p" "tp_next p = Some Exception"
  have "processing_status sample_awaiting = ''awaiting_review''" by code_simp
  from decide_review_accepts [OF model_exact_engine, OF s(1,2,3) this s(4,5,6) disjI1 [OF refl], of sample_env 0]
  obtain run dec cp' db' where req: "decide_review (model_engine sample_env 0) ''run-1'' ''approved'' cp db
       = (Inr (Some run, Some dec, False), cp', db')" by (elim exE conjE)
  note once = decide_review_once [OF model_graph_engine, OF s(1,2) req]
  from once have "decided_ok dec run \<and> rd_disposition dec = ''approved''" by (elim conjE) (intro conjI)
  then have "wr_posting_status run = ''ready_for_posting''" by (simp add: decided_ok_def)
  moreover from once have "decide_review (model_engine sample_env 0) ''run-1'' ''approved'' cp' db'
      = (Inr (Some run, Some dec, True), cp', db')" by simp
  ultimately show ?thesis using req by blast
qed

theorem decide_review_refused_witness:
  "\<exists>cp db e. decide_review (model_engine sample_env 0) ''run-1'' ''maybe'' cp db = (Inl e, cp, db) \<and> service_inv db
     \<and> cp = Map.empty"
proof (rule sample_review)
  fix cp db p
  assume s: "positions_ok model_pos cp db" "service_inv db" "get_run ''run-1'' db = Some sample_awaiting"
    "get_decision ''run-1'' db = None" "model_pos ''run-1'' cp = Some p" "tp_next p = Some Exception"
  have aw: "processing_status sample_awaiting = ''awaiting_review''" by code_simp
  have req: "decide_review (model_engine sample_env 0) ''run-1'' ''maybe'' Map.empty db
      = (Inl (BusinessStateConflict ''checkpoint_state_conflict''
                   ''The workflow checkpoint is not paused for review'' []), Map.empty, db)"
    using s(3,4) aw
    by (simp add: decide_review_def locked_run_eq [OF service_invD(3) [OF s(2)]] resumed_result_def model_engine_def
        is_decision_def)
  have "positions_ok model_pos Map.empty db" by (simp add: positions_ok_def model_pos_def)
  from decide_review_refused [OF model_graph_engine, OF this s(2) req] have "service_inv db" by (elim conjE)
  with req show ?thesis by (intro exI conjI) (assumption | rule refl)+
qed

end
