(* ===== verification/Redis_Store.thy ===== *)
theory Redis_Store
  imports Prelude
begin

text \<open>
  The Redis keyspace the queue services work on, and the commands they send, as operations
  on an explicit state, in the way the tables of theory \<open>Database\<close> stand for PostgreSQL. A
  command returns a reply or the error Redis answers, with the keyspace after it. The
  server's clock \<open>rs_now\<close> (milliseconds) is part of the state and only moves between
  commands; stream IDs, expiry and idle times are computed from it as Redis documents
  (\<open>XADD *\<close> takes the clock, or one more than the last ID). A Lua script runs its commands
  without interleaving, and keeps the writes made before a command that fails.
\<close>

section \<open>Keyspace\<close>

type_synonym stream_id = "int \<times> int"
type_synonym fields = "(string \<times> string) list"

definition sid_less :: "stream_id \<Rightarrow> stream_id \<Rightarrow> bool" where
  "sid_less a b \<longleftrightarrow> fst a < fst b \<or> (fst a = fst b \<and> snd a < snd b)"

definition sid_le :: "stream_id \<Rightarrow> stream_id \<Rightarrow> bool" where
  "sid_le a b \<longleftrightarrow> a = b \<or> sid_less a b"

definition show_sid :: "stream_id \<Rightarrow> string" where
  "show_sid i = show_int (fst i) @ ''-'' @ show_int (snd i)"

text \<open>A delivered, not yet acknowledged entry of a consumer group.\<close>

record pending =
  pe_id :: stream_id
  pe_consumer :: string
  pe_delivered_at :: int
  pe_count :: nat

record group =
  gp_last :: stream_id
  gp_pending :: "pending list"

record stream =
  st_entries :: "(stream_id \<times> fields) list"
  st_last :: stream_id
  st_groups :: "(string \<times> group) list"

datatype rvalue = RString string "int option" | RStream stream | RHash fields

record redis =
  rs_keys :: "string \<Rightarrow> rvalue option"
  rs_now :: int

type_synonym 'a cmd = "redis \<Rightarrow> 'a result \<times> redis"

definition rpure :: "'a \<Rightarrow> 'a cmd" where
  "rpure x r = (Inr x, r)"

definition rfail :: "string \<Rightarrow> 'a cmd" where
  "rfail msg r = (Inl (ResponseError msg), r)"

definition rbind :: "'a cmd \<Rightarrow> ('a \<Rightarrow> 'b cmd) \<Rightarrow> 'b cmd" where
  "rbind m f r = (case m r of (Inl e, r) \<Rightarrow> (Inl e, r) | (Inr x, r) \<Rightarrow> f x r)"

definition rthen :: "'a cmd \<Rightarrow> 'b cmd \<Rightarrow> 'b cmd" where
  "rthen m n = rbind m (\<lambda>_. n)"

text \<open>An expired string is gone.\<close>

definition rs_look :: "string \<Rightarrow> redis \<Rightarrow> rvalue option" where
  "rs_look k r = (case rs_keys r k of
     Some (RString s (Some t)) \<Rightarrow> if t \<le> rs_now r then None else Some (RString s (Some t))
   | v \<Rightarrow> v)"

definition rs_put :: "string \<Rightarrow> rvalue \<Rightarrow> redis \<Rightarrow> redis" where
  "rs_put k v r = r\<lparr>rs_keys := (rs_keys r)(k := Some v)\<rparr>"

definition wrong_type :: string where
  "wrong_type = ''WRONGTYPE Operation against a key holding the wrong kind of value''"

definition key_type :: "string \<Rightarrow> redis \<Rightarrow> string" where
  "key_type k r = (case rs_look k r of None \<Rightarrow> ''none'' | Some (RString _ _) \<Rightarrow> ''string''
     | Some (RStream _) \<Rightarrow> ''stream'' | Some (RHash _) \<Rightarrow> ''hash'')"

definition type_cmd :: "string \<Rightarrow> string cmd" where
  "type_cmd k r = (Inr (key_type k r), r)"

definition del_key :: "string \<Rightarrow> unit cmd" where
  "del_key k r = (Inr (), r\<lparr>rs_keys := (rs_keys r)(k := None)\<rparr>)"

section \<open>Strings\<close>

definition get_key :: "string \<Rightarrow> string option cmd" where
  "get_key k r = (case rs_look k r of None \<Rightarrow> (Inr None, r) | Some (RString s _) \<Rightarrow> (Inr (Some s), r)
     | Some _ \<Rightarrow> rfail wrong_type r)"

definition set_ex :: "string \<Rightarrow> string \<Rightarrow> int \<Rightarrow> unit cmd" where
  "set_ex k v ttl r = (if ttl \<le> 0 then rfail ''ERR invalid expire time in 'set' command'' r
     else (Inr (), rs_put k (RString v (Some (rs_now r + 1000 * ttl))) r))"

section \<open>Hashes\<close>

fun aset :: "string \<Rightarrow> string \<Rightarrow> fields \<Rightarrow> fields" where
  "aset k v [] = [(k, v)]"
| "aset k v ((k', v') # d) = (if k = k' then (k, v) # d else (k', v') # aset k v d)"

definition hash_at :: "string \<Rightarrow> redis \<Rightarrow> fields result" where
  "hash_at k r = (case rs_look k r of None \<Rightarrow> Inr [] | Some (RHash h) \<Rightarrow> Inr h
     | Some _ \<Rightarrow> Inl (ResponseError wrong_type))"

definition hset :: "string \<Rightarrow> fields \<Rightarrow> unit cmd" where
  "hset k kvs r = (case hash_at k r of Inl e \<Rightarrow> (Inl e, r)
     | Inr h \<Rightarrow> (Inr (), rs_put k (RHash (foldl (\<lambda>h (f, v). aset f v h) h kvs)) r))"

definition hget :: "string \<Rightarrow> string \<Rightarrow> string option cmd" where
  "hget k f r = (case hash_at k r of Inl e \<Rightarrow> (Inl e, r) | Inr h \<Rightarrow> (Inr (map_of h f), r))"

definition hgetall :: "string \<Rightarrow> fields cmd" where
  "hgetall k r = (hash_at k r, r)"

definition parse_int :: "string \<Rightarrow> int option" where
  "parse_int s = (case s of
     [] \<Rightarrow> None
   | c # cs \<Rightarrow> if c = CHR ''-'' then (if cs \<noteq> [] \<and> list_all is_digit cs then Some (- digits_val cs) else None)
               else if list_all is_digit s then Some (digits_val s) else None)"

definition hincrby :: "string \<Rightarrow> string \<Rightarrow> int \<Rightarrow> int cmd" where
  "hincrby k f n r = (case hash_at k r of Inl e \<Rightarrow> (Inl e, r)
     | Inr h \<Rightarrow> (case (case map_of h f of None \<Rightarrow> Some 0 | Some s \<Rightarrow> parse_int s) of
           None \<Rightarrow> rfail ''ERR hash value is not an integer'' r
         | Some i \<Rightarrow> (Inr (i + n), rs_put k (RHash (aset f (show_int (i + n)) h)) r)))"

section \<open>Streams\<close>

definition empty_stream :: stream where
  "empty_stream = \<lparr>st_entries = [], st_last = (0, 0), st_groups = []\<rparr>"

definition next_sid :: "int \<Rightarrow> stream_id \<Rightarrow> stream_id" where
  "next_sid now i = (if fst i < now then (now, 0) else (fst i, snd i + 1))"

definition stream_add :: "int \<Rightarrow> fields \<Rightarrow> stream \<Rightarrow> stream_id \<times> stream" where
  "stream_add now fs s = (let i = next_sid now (st_last s) in
     (i, s\<lparr>st_entries := st_entries s @ [(i, fs)], st_last := i\<rparr>))"

definition stream_del :: "stream_id \<Rightarrow> stream \<Rightarrow> stream" where
  "stream_del i s = s\<lparr>st_entries := filter (\<lambda>e. fst e \<noteq> i) (st_entries s)\<rparr>"

definition stream_at :: "string \<Rightarrow> redis \<Rightarrow> stream option result" where
  "stream_at k r = (case rs_look k r of None \<Rightarrow> Inr None | Some (RStream s) \<Rightarrow> Inr (Some s)
     | Some _ \<Rightarrow> Inl (ResponseError wrong_type))"

definition xadd :: "string \<Rightarrow> fields \<Rightarrow> stream_id cmd" where
  "xadd k fs r = (case stream_at k r of Inl e \<Rightarrow> (Inl e, r)
     | Inr s \<Rightarrow> (case stream_add (rs_now r) fs (case s of None \<Rightarrow> empty_stream | Some s \<Rightarrow> s) of
         (i, s) \<Rightarrow> (Inr i, rs_put k (RStream s) r)))"

definition xdel :: "string \<Rightarrow> stream_id \<Rightarrow> unit cmd" where
  "xdel k i r = (case stream_at k r of Inl e \<Rightarrow> (Inl e, r) | Inr None \<Rightarrow> (Inr (), r)
     | Inr (Some s) \<Rightarrow> (Inr (), rs_put k (RStream (stream_del i s)) r))"

text \<open>\<open>XRANGE\<close>: the entries within bounds, oldest first, at most \<open>count\<close> of them.\<close>

definition xrange :: "string \<Rightarrow> (stream_id \<Rightarrow> bool) \<Rightarrow> nat option \<Rightarrow> (stream_id \<times> fields) list cmd" where
  "xrange k bounds count r = (case stream_at k r of Inl e \<Rightarrow> (Inl e, r) | Inr None \<Rightarrow> (Inr [], r)
     | Inr (Some s) \<Rightarrow> (let rows = filter (\<lambda>e. bounds (fst e)) (st_entries s) in
         (Inr (case count of None \<Rightarrow> rows | Some n \<Rightarrow> take n rows), r)))"

definition xrevrange :: "string \<Rightarrow> (stream_id \<Rightarrow> bool) \<Rightarrow> nat \<Rightarrow> (stream_id \<times> fields) list cmd" where
  "xrevrange k bounds count r = (case stream_at k r of Inl e \<Rightarrow> (Inl e, r) | Inr None \<Rightarrow> (Inr [], r)
     | Inr (Some s) \<Rightarrow> (Inr (take count (rev (filter (\<lambda>e. bounds (fst e)) (st_entries s)))), r))"

definition xlen :: "string \<Rightarrow> nat cmd" where
  "xlen k r = (case stream_at k r of Inl e \<Rightarrow> (Inl e, r) | Inr None \<Rightarrow> (Inr 0, r)
     | Inr (Some s) \<Rightarrow> (Inr (length (st_entries s)), r))"

section \<open>Consumer groups\<close>

fun gset :: "string \<Rightarrow> group \<Rightarrow> (string \<times> group) list \<Rightarrow> (string \<times> group) list" where
  "gset g x [] = [(g, x)]"
| "gset g x ((g', x') # d) = (if g = g' then (g, x) # d else (g', x') # gset g x d)"

definition set_group :: "string \<Rightarrow> group \<Rightarrow> stream \<Rightarrow> stream" where
  "set_group g x s = s\<lparr>st_groups := gset g x (st_groups s)\<rparr>"

definition xgroup_create :: "string \<Rightarrow> string \<Rightarrow> unit cmd" where
  "xgroup_create k g r = (case stream_at k r of Inl e \<Rightarrow> (Inl e, r)
     | Inr s \<Rightarrow> (let s = (case s of None \<Rightarrow> empty_stream | Some s \<Rightarrow> s) in
         if map_of (st_groups s) g \<noteq> None then rfail ''BUSYGROUP Consumer Group name already exists'' r
         else (Inr (), rs_put k (RStream (set_group g \<lparr>gp_last = (0, 0), gp_pending = []\<rparr> s)) r)))"

definition no_group :: string where
  "no_group = ''NOGROUP No such key or consumer group''"

definition group_at :: "string \<Rightarrow> string \<Rightarrow> redis \<Rightarrow> (stream \<times> group) result" where
  "group_at k g r = (case stream_at k r of Inl e \<Rightarrow> Inl e | Inr None \<Rightarrow> Inl (ResponseError no_group)
     | Inr (Some s) \<Rightarrow> (case map_of (st_groups s) g of None \<Rightarrow> Inl (ResponseError no_group)
                        | Some x \<Rightarrow> Inr (s, x)))"

text \<open>\<open>XREADGROUP ... >\<close>: entries never delivered to the group, now pending for the consumer.\<close>

definition xreadgroup :: "string \<Rightarrow> string \<Rightarrow> string \<Rightarrow> nat \<Rightarrow> (stream_id \<times> fields) list cmd" where
  "xreadgroup g consumer k count r = (case group_at k g r of Inl e \<Rightarrow> (Inl e, r)
     | Inr (s, x) \<Rightarrow>
         (let rows = take count (filter (\<lambda>e. sid_less (gp_last x) (fst e)) (st_entries s));
              delivered = map (\<lambda>e. \<lparr>pe_id = fst e, pe_consumer = consumer, pe_delivered_at = rs_now r, pe_count = 1\<rparr>) rows;
              x' = (if rows = [] then x else \<lparr>gp_last = fst (last rows), gp_pending = gp_pending x @ delivered\<rparr>) in
          (Inr rows, rs_put k (RStream (set_group g x' s)) r)))"

text \<open>\<open>XAUTOCLAIM ... 0-0 COUNT n\<close>: of the first \<open>10 n\<close> pending entries, those idle long
  enough are claimed, at most \<open>n\<close>; one whose entry was deleted is dropped.\<close>

fun autoclaim :: "nat \<Rightarrow> (stream_id \<Rightarrow> fields option) \<Rightarrow> string \<Rightarrow> int \<Rightarrow> int \<Rightarrow> pending list
    \<Rightarrow> (stream_id \<times> fields) list \<times> pending list" where
  "autoclaim n entry consumer min_idle now [] = ([], [])"
| "autoclaim n entry consumer min_idle now (p # ps) =
     (if n = 0 then ([], p # ps)
      else case entry (pe_id p) of
        None \<Rightarrow> autoclaim (n - 1) entry consumer min_idle now ps
      | Some fs \<Rightarrow>
          if now - pe_delivered_at p < min_idle then
            (case autoclaim n entry consumer min_idle now ps of (cs, qs) \<Rightarrow> (cs, p # qs))
          else
            (case autoclaim (n - 1) entry consumer min_idle now ps of
               (cs, qs) \<Rightarrow> ((pe_id p, fs) # cs,
                  p\<lparr>pe_consumer := consumer, pe_delivered_at := now, pe_count := Suc (pe_count p)\<rparr> # qs)))"

definition xautoclaim :: "string \<Rightarrow> string \<Rightarrow> string \<Rightarrow> int \<Rightarrow> nat \<Rightarrow> (stream_id \<times> fields) list cmd" where
  "xautoclaim k g consumer min_idle count r = (case group_at k g r of Inl e \<Rightarrow> (Inl e, r)
     | Inr (s, x) \<Rightarrow>
         (case autoclaim count (map_of (st_entries s)) consumer min_idle (rs_now r) (take (10 * count) (gp_pending x)) of
            (rows, ps) \<Rightarrow>
              (Inr rows, rs_put k (RStream (set_group g (x\<lparr>gp_pending := ps @ drop (10 * count) (gp_pending x)\<rparr>) s)) r)))"

definition xpending_one :: "string \<Rightarrow> string \<Rightarrow> stream_id \<Rightarrow> pending option cmd" where
  "xpending_one k g i r = (case group_at k g r of Inl e \<Rightarrow> (Inl e, r)
     | Inr (s, x) \<Rightarrow> (Inr (List.find (\<lambda>p. pe_id p = i) (gp_pending x)), r))"

definition xack :: "string \<Rightarrow> string \<Rightarrow> stream_id \<Rightarrow> unit cmd" where
  "xack k g i r = (case stream_at k r of Inl e \<Rightarrow> (Inl e, r) | Inr None \<Rightarrow> (Inr (), r)
     | Inr (Some s) \<Rightarrow> (case map_of (st_groups s) g of None \<Rightarrow> (Inr (), r)
         | Some x \<Rightarrow> (Inr (), rs_put k (RStream (set_group g
             (x\<lparr>gp_pending := filter (\<lambda>p. pe_id p \<noteq> i) (gp_pending x)\<rparr>) s)) r)))"

text \<open>\<open>XCLAIM ... 0 id RETRYCOUNT n JUSTID\<close>, the heartbeat of a worker.\<close>

definition xclaim_justid :: "string \<Rightarrow> string \<Rightarrow> string \<Rightarrow> stream_id \<Rightarrow> nat \<Rightarrow> unit cmd" where
  "xclaim_justid k g consumer i count r = (case group_at k g r of Inl e \<Rightarrow> (Inl e, r)
     | Inr (s, x) \<Rightarrow>
         (let ps = (if map_of (st_entries s) i = None then filter (\<lambda>p. pe_id p \<noteq> i) (gp_pending x)
                    else map (\<lambda>p. if pe_id p = i then p\<lparr>pe_consumer := consumer, pe_delivered_at := rs_now r,
                                                         pe_count := count\<rparr> else p) (gp_pending x)) in
          (Inr (), rs_put k (RStream (set_group g (x\<lparr>gp_pending := ps\<rparr>) s)) r)))"

definition xinfo_groups :: "string \<Rightarrow> string list cmd" where
  "xinfo_groups k r = (case stream_at k r of Inl e \<Rightarrow> (Inl e, r) | Inr None \<Rightarrow> rfail ''ERR no such key'' r
     | Inr (Some s) \<Rightarrow> (Inr (map fst (st_groups s)), r))"

definition xpending_summary :: "string \<Rightarrow> string \<Rightarrow> (nat \<times> stream_id option) cmd" where
  "xpending_summary k g r = (case group_at k g r of Inl e \<Rightarrow> (Inl e, r)
     | Inr (s, x) \<Rightarrow> (Inr (length (gp_pending x), (case gp_pending x of [] \<Rightarrow> None | p # _ \<Rightarrow> Some (pe_id p))), r))"

section \<open>Laws\<close>

lemma map_of_filter_key: "map_of (filter (\<lambda>x. fst x \<noteq> i) xs) j = (if j = i then None else map_of xs j)"
  by (induction xs) auto

text \<open>The log contract: entries are appended under fresh identifiers and removed by
  identifier.\<close>

locale append_log =
  fixes entries :: "'s \<Rightarrow> ('i \<times> 'e) list"
    and append_entry :: "'e \<Rightarrow> 's \<Rightarrow> 'i \<times> 's"
    and remove :: "'i \<Rightarrow> 's \<Rightarrow> 's"
    and ok :: "'s \<Rightarrow> bool"
  assumes append_entries: "append_entry e s = (i, s') \<Longrightarrow> entries s' = entries s @ [(i, e)]"
    and append_fresh: "ok s \<Longrightarrow> append_entry e s = (i, s') \<Longrightarrow> i \<notin> fst ` set (entries s)"
    and append_ok: "ok s \<Longrightarrow> append_entry e s = (i, s') \<Longrightarrow> ok s'"
    and remove_entries: "entries (remove i s) = filter (\<lambda>x. fst x \<noteq> i) (entries s)"
    and remove_ok: "ok s \<Longrightarrow> ok (remove i s)"
    and ok_distinct: "ok s \<Longrightarrow> distinct (map fst (entries s))"
begin

lemma find_appended:
  assumes "ok s" and "append_entry e s = (i, s')"
  shows "map_of (entries s') i = Some e"
proof -
  have "map_of (entries s) i = None" using append_fresh [OF assms] by (simp add: map_of_eq_None_iff)
  then show ?thesis by (simp add: append_entries [OF assms(2)] map_add_def)
qed

lemma find_kept: "append_entry e s = (i, s') \<Longrightarrow> map_of (entries s) j = Some x \<Longrightarrow> ok s \<Longrightarrow> map_of (entries s') j = Some x"
  using append_fresh [of s e i s'] by (auto simp: append_entries map_add_def dest: map_of_SomeD)

lemma find_removed: "map_of (entries (remove i s)) j = (if j = i then None else map_of (entries s) j)"
  by (simp add: remove_entries map_of_filter_key)

lemma remove_twice: "entries (remove i (remove i s)) = entries (remove i s)"
  by (simp add: remove_entries)

end

lemma sid_less_trans: "sid_less a b \<Longrightarrow> sid_less b c \<Longrightarrow> sid_less a c"
  by (auto simp: sid_less_def)

lemma sid_less_irrefl [simp]: "\<not> sid_less a a"
  by (simp add: sid_less_def)

lemma sid_linear: "sid_less a b \<or> a = b \<or> sid_less b a"
  by (auto simp: sid_less_def prod_eq_iff)

lemma sid_le_less_trans: "sid_le a b \<Longrightarrow> sid_less b c \<Longrightarrow> sid_less a c"
  by (auto simp: sid_le_def intro: sid_less_trans)

lemma next_sid_less: "sid_less i (next_sid now i)"
  by (auto simp: next_sid_def sid_less_def)

definition stream_ok :: "stream \<Rightarrow> bool" where
  "stream_ok s \<longleftrightarrow> sorted_wrt sid_less (map fst (st_entries s)) \<and> (\<forall>e \<in> set (st_entries s). sid_le (fst e) (st_last s))"

lemma sorted_sid_distinct: "sorted_wrt sid_less xs \<Longrightarrow> distinct xs"
  by (induction xs) auto

lemma stream_ok_empty [simp]: "stream_ok empty_stream"
  by (simp add: stream_ok_def empty_stream_def)

lemma stream_log: "append_log st_entries (stream_add now) stream_del stream_ok"
proof (unfold_locales, goal_cases)
  case (1 e s i s')
  then show ?case by (auto simp: stream_add_def Let_def)
next
  case (2 s e i s')
  then have "i = next_sid now (st_last s)" by (auto simp: stream_add_def Let_def)
  with 2(1) next_sid_less [of "st_last s" now] have "sid_less (fst x) i" if "x \<in> set (st_entries s)" for x
    using that by (auto simp: stream_ok_def intro: sid_le_less_trans)
  then show ?case by fastforce
next
  case (3 s e i s')
  then have s': "s' = s\<lparr>st_entries := st_entries s @ [(i, e)], st_last := i\<rparr>" "i = next_sid now (st_last s)"
    by (auto simp: stream_add_def Let_def)
  have "sid_less (fst x) i" if "x \<in> set (st_entries s)" for x
    using that 3(1) next_sid_less [of "st_last s" now] s'(2) by (auto simp: stream_ok_def intro: sid_le_less_trans)
  with 3(1) show ?case by (auto simp: s'(1) stream_ok_def sorted_wrt_append sid_le_def)
next
  case (4 i s)
  then show ?case by (simp add: stream_del_def)
next
  case (5 s i)
  then show ?case
    by (auto simp: stream_ok_def stream_del_def sorted_wrt_map intro: sorted_wrt_filter)
next
  case (6 s)
  then show ?case by (simp add: stream_ok_def sorted_sid_distinct)
qed

interpretation slog: append_log st_entries "stream_add now" stream_del stream_ok for now
  by (rule stream_log)

lemma map_of_aset: "map_of (aset k v d) = (map_of d)(k \<mapsto> v)"
  by (induction d rule: aset.induct) auto

lemma map_of_gset: "map_of (gset k v d) = (map_of d)(k \<mapsto> v)"
  by (induction d rule: gset.induct) auto

lemma map_of_asets: "map_of (foldl (\<lambda>h (f, v). aset f v h) h kvs) = map_of h ++ map_of (rev kvs)"
proof (induction kvs arbitrary: h)
  case (Cons p kvs)
  obtain f v where p: "p = (f, v)" by fastforce
  show ?case
    by (simp add: p Cons.IH map_of_aset map_add_def fun_eq_iff split: option.splits)
qed simp

lemma rs_look_put [simp]:
  "rs_look k (rs_put k' v r) = (if k = k' then (case v of RString s (Some t) \<Rightarrow> if t \<le> rs_now r then None else Some v | _ \<Rightarrow> Some v)
      else rs_look k r)"
  by (simp add: rs_look_def rs_put_def split: rvalue.split option.split)

lemma rs_now_put [simp]: "rs_now (rs_put k v r) = rs_now r"
  by (simp add: rs_put_def)

end
