(* ===== verification/Invoice_Queue.thy ===== *)
theory Invoice_Queue
  imports Redis_Store Pydantic Encoding Config "HOL-Library.Char_ord" "HOL-Library.List_Lexorder"
begin

text \<open>
  The invoice queue (\<open>app/services/invoice_queue.py\<close>) and its job envelope
  (\<open>app/schemas/invoice_job.py\<close>). Every queue operation is one definition over the keyspace
  of \<open>Redis_Store\<close>; the enqueue script is translated command by command. The lemmas show
  the envelope's round trip through the queue, that enqueueing a key twice adds one entry,
  and that a delivery is never lost: it leaves the live stream only as acknowledged or with
  its fields in the dead-letter stream.
\<close>

section \<open>The job envelope\<close>

record envelope =
  jb_idempotency_key :: string
  jb_gmail_account :: string
  jb_message_id :: string
  jb_gmail_thread_id :: string
  jb_mime_part_id :: string
  jb_filename :: string
  jb_file_bytes :: string
  jb_content_sha256 :: string
  jb_enqueued_at :: datetime

definition envelope_keys :: "string list" where
  "envelope_keys = [''schema_version'', ''idempotency_key'', ''gmail_account'', ''message_id'', ''gmail_thread_id'',
     ''mime_part_id'', ''filename'', ''file_bytes'', ''content_sha256'', ''enqueued_at'']"

definition hex64 :: "string \<Rightarrow> bool" where
  "hex64 s \<longleftrightarrow> length s = 64 \<and> list_all lower_hex s"

definition pattern_value :: "json \<Rightarrow> string option" where
  "pattern_value v = do { s \<leftarrow> str_value v; check (hex64 s); Some s }"

definition nonempty_value :: "json \<Rightarrow> string option" where
  "nonempty_value v = do { s \<leftarrow> str_value v; check (s \<noteq> []); Some s }"

definition ATTACHMENT_SUFFIXES :: "string list" where
  "ATTACHMENT_SUFFIXES = [''.pdf'', ''.png'', ''.jpg'', ''.jpeg'']"

text \<open>\<open>validate_content\<close>; \<open>aware\<close> tells whether the timestamp carried a time zone.\<close>

definition validate_content :: "bool \<Rightarrow> envelope \<Rightarrow> bool" where
  "validate_content aware job \<longleftrightarrow>
     py_lower (path_suffix (jb_filename job)) \<in> set ATTACHMENT_SUFFIXES \<and> aware
     \<and> (case b64decode (jb_file_bytes job) of None \<Rightarrow> False
        | Some decoded \<Rightarrow> sha256_hex decoded = jb_content_sha256 job)"

definition InvoiceJobEnvelope :: "pydantic \<Rightarrow> json \<Rightarrow> envelope option" where
  "InvoiceJobEnvelope pd v = (case v of JObj d \<Rightarrow> do {
       check (list_all (\<lambda>kv. fst kv \<in> set envelope_keys) d);
       field_default d ''schema_version'' (\<lambda>v. check (v = JInt 1)) ();
       idempotency_key \<leftarrow> field d ''idempotency_key'' pattern_value;
       gmail_account \<leftarrow> field d ''gmail_account'' nonempty_value;
       message_id \<leftarrow> field d ''message_id'' nonempty_value;
       gmail_thread_id \<leftarrow> field_default d ''gmail_thread_id'' str_value [];
       mime_part_id \<leftarrow> field d ''mime_part_id'' nonempty_value;
       filename \<leftarrow> field d ''filename'' nonempty_value;
       file_bytes \<leftarrow> field d ''file_bytes'' nonempty_value;
       check (int (length file_bytes) \<le> 35000000);
       content_sha256 \<leftarrow> field d ''content_sha256'' pattern_value;
       (enqueued_at, aware) \<leftarrow> field d ''enqueued_at'' (pd_datetime pd);
       let job = \<lparr>jb_idempotency_key = idempotency_key, jb_gmail_account = gmail_account, jb_message_id = message_id,
              jb_gmail_thread_id = gmail_thread_id, jb_mime_part_id = mime_part_id, jb_filename = filename,
              jb_file_bytes = file_bytes, jb_content_sha256 = content_sha256, jb_enqueued_at = enqueued_at\<rparr>;
       check (validate_content aware job);
       Some job }
     | _ \<Rightarrow> None)"

definition job_json :: "pydantic \<Rightarrow> envelope \<Rightarrow> json" where
  "job_json pd job = JObj [(''schema_version'', JInt 1), (''idempotency_key'', JStr (jb_idempotency_key job)),
     (''gmail_account'', JStr (jb_gmail_account job)), (''message_id'', JStr (jb_message_id job)),
     (''gmail_thread_id'', JStr (jb_gmail_thread_id job)), (''mime_part_id'', JStr (jb_mime_part_id job)),
     (''filename'', JStr (jb_filename job)), (''file_bytes'', JStr (jb_file_bytes job)),
     (''content_sha256'', JStr (jb_content_sha256 job)),
     (''enqueued_at'', JStr (pd_datetime_str pd (jb_enqueued_at job)))]"

definition model_dump_json :: "pydantic \<Rightarrow> envelope \<Rightarrow> string" where
  "model_dump_json pd job = json_dumps '','' '':'' (job_json pd job)"

definition decoded_file_bytes :: "envelope \<Rightarrow> string result" where
  "decoded_file_bytes job = (case b64decode (jb_file_bytes job) of
     None \<Rightarrow> Inl (ValueError ''Incorrect padding'') | Some b \<Rightarrow> Inr b)"

section \<open>Deliveries\<close>

record delivery =
  dv_id :: stream_id
  dv_fields :: fields
  dv_attempt :: nat

definition replay_context :: "delivery \<Rightarrow> (string \<times> string) option" where
  "replay_context d = (case (map_of (dv_fields d) ''replay_dlq_id'', map_of (dv_fields d) ''replay_request_id'') of
     (Some dlq_id, Some request_id) \<Rightarrow> if dlq_id \<noteq> [] \<and> request_id \<noteq> [] then Some (dlq_id, request_id) else None
   | _ \<Rightarrow> None)"

definition replay_metadata_key :: "string \<Rightarrow> delivery \<Rightarrow> string option" where
  "replay_metadata_key replay_prefix d =
     map_option (\<lambda>c. replay_prefix @ '':'' @ fst c) (replay_context d)"

definition action_prefix :: "string \<Rightarrow> string" where
  "action_prefix request_id = ''action:'' @ request_id @ '':''"

definition replay_action_fields :: "datetime \<Rightarrow> delivery \<Rightarrow> string \<Rightarrow> string option \<Rightarrow> fields" where
  "replay_action_fields now d state workflow_processing_status = (case replay_context d of
     None \<Rightarrow> []
   | Some c \<Rightarrow>
       [(action_prefix (snd c) @ ''state'', state),
        (action_prefix (snd c) @ ''processing_updated_at'', isoformat now)]
       @ (case workflow_processing_status of None \<Rightarrow> []
          | Some s \<Rightarrow> [(action_prefix (snd c) @ ''workflow_processing_status'', s)]))"

definition parse_delivery :: "pydantic \<Rightarrow> delivery \<Rightarrow> envelope result" where
  "parse_delivery pd d = (case map_of (dv_fields d) ''payload'' of
     None \<Rightarrow> Inl (PermanentJobError ''missing payload field'')
   | Some raw_payload \<Rightarrow>
       (case json_loads raw_payload of
          None \<Rightarrow> Inl (PermanentJobError (''payload is not valid JSON: '' @ pd_json_error pd raw_payload))
        | Some payload \<Rightarrow>
            if \<not> (\<exists>x. payload = JObj x) then Inl (PermanentJobError ''payload must be a JSON object'')
            else (case InvoiceJobEnvelope pd payload of
                None \<Rightarrow> Inl (PermanentJobError (''payload validation failed: '' @ pd_error pd payload))
              | Some job \<Rightarrow> Inr job)))"

section \<open>Queue operations\<close>

definition ensure_consumer_group :: "string \<Rightarrow> string \<Rightarrow> unit cmd" where
  "ensure_consumer_group stream grp r = (case xgroup_create stream grp r of
     (Inl (ResponseError msg), r) \<Rightarrow>
       (if contains ''BUSYGROUP'' msg then Inr () else Inl (ResponseError msg), r)
   | x \<Rightarrow> x)"

text \<open>\<open>ENQUEUE_SCRIPT\<close>.\<close>

definition enqueue_script :: "string \<Rightarrow> string \<Rightarrow> string \<Rightarrow> int \<Rightarrow> string cmd" where
  "enqueue_script stream dedupe payload ttl =
     rbind (get_key dedupe) (\<lambda>existing. case existing of
         Some stream_id \<Rightarrow> rpure stream_id
       | None \<Rightarrow> rbind (xadd stream [(''payload'', payload)]) (\<lambda>stream_id.
           rthen (set_ex dedupe (show_sid stream_id) ttl) (rpure (show_sid stream_id))))"

definition enqueue_job :: "pydantic \<Rightarrow> string \<Rightarrow> string \<Rightarrow> int \<Rightarrow> envelope \<Rightarrow> string cmd" where
  "enqueue_job pd stream dedupe_prefix dedupe_ttl_seconds job =
     enqueue_script stream (dedupe_prefix @ '':'' @ jb_idempotency_key job) (model_dump_json pd job) dedupe_ttl_seconds"

text \<open>The client turns the field list of an entry into a dict.\<close>

definition dict_of :: "fields \<Rightarrow> fields" where
  "dict_of fs = foldl (\<lambda>d (k, v). aset k v d) [] fs"

definition read_new_batch :: "string \<Rightarrow> string \<Rightarrow> string \<Rightarrow> nat \<Rightarrow> delivery list cmd" where
  "read_new_batch stream grp consumer count =
     rbind (xreadgroup grp consumer stream count) (\<lambda>rows.
       rpure (map (\<lambda>e. \<lparr>dv_id = fst e, dv_fields = dict_of (snd e), dv_attempt = 1\<rparr>) rows))"

fun claimed_deliveries :: "string \<Rightarrow> string \<Rightarrow> (stream_id \<times> fields) list \<Rightarrow> delivery list cmd" where
  "claimed_deliveries stream grp [] = rpure []"
| "claimed_deliveries stream grp (e # es) =
     rbind (xpending_one stream grp (fst e)) (\<lambda>p.
     rbind (claimed_deliveries stream grp es) (\<lambda>ds.
       rpure (\<lparr>dv_id = fst e, dv_fields = dict_of (snd e),
               dv_attempt = (case p of None \<Rightarrow> 1 | Some p \<Rightarrow> pe_count p)\<rparr> # ds)))"

definition claim_stale_batch :: "string \<Rightarrow> string \<Rightarrow> string \<Rightarrow> int \<Rightarrow> nat \<Rightarrow> delivery list cmd" where
  "claim_stale_batch stream grp consumer min_idle_ms count =
     rbind (xautoclaim stream grp consumer min_idle_ms count) (claimed_deliveries stream grp)"

text \<open>A transaction pipeline executes every command; its first error is raised at the end.\<close>

fun rpipe :: "unit cmd list \<Rightarrow> unit cmd" where
  "rpipe [] r = (Inr (), r)"
| "rpipe (c # cs) r = (case c r of (x, r) \<Rightarrow> (case rpipe cs r of (y, r) \<Rightarrow>
     (case x of Inl e \<Rightarrow> Inl e | Inr _ \<Rightarrow> y, r)))"

definition xadd_unit :: "string \<Rightarrow> fields \<Rightarrow> unit cmd" where
  "xadd_unit k fs = rthen (xadd k fs) (rpure ())"

definition replay_update :: "string \<Rightarrow> datetime \<Rightarrow> delivery \<Rightarrow> string \<Rightarrow> string option \<Rightarrow> unit cmd list" where
  "replay_update replay_prefix now d state workflow_processing_status =
     (case replay_metadata_key replay_prefix d of None \<Rightarrow> []
      | Some key \<Rightarrow> [hset key (replay_action_fields now d state workflow_processing_status)])"

definition record_failure :: "string \<Rightarrow> string \<Rightarrow> datetime \<Rightarrow> delivery \<Rightarrow> string \<Rightarrow> unit cmd" where
  "record_failure metadata_prefix replay_prefix now d reason =
     rpipe (hset (metadata_prefix @ '':'' @ show_sid (dv_id d))
              [(''state'', ''retrying''), (''attempt_count'', show_int (int (dv_attempt d))),
               (''last_failure_reason'', take 2000 reason), (''updated_at'', isoformat now)]
            # (if replay_prefix = [] then [] else replay_update replay_prefix now d ''retrying'' None))"

definition record_replay_processing :: "string \<Rightarrow> datetime \<Rightarrow> delivery \<Rightarrow> unit cmd" where
  "record_replay_processing replay_prefix now d = rpipe (replay_update replay_prefix now d ''processing'' None)"

definition acknowledge :: "string \<Rightarrow> string \<Rightarrow> string \<Rightarrow> datetime \<Rightarrow> delivery \<Rightarrow> string option \<Rightarrow> unit cmd" where
  "acknowledge stream grp replay_prefix now d workflow_processing_status =
     rpipe ([xack stream grp (dv_id d), xdel stream (dv_id d)]
            @ (if replay_prefix = [] then []
               else replay_update replay_prefix now d ''acknowledged'' workflow_processing_status))"

definition dead_letter_fields :: "datetime \<Rightarrow> delivery \<Rightarrow> string \<Rightarrow> fields" where
  "dead_letter_fields now d reason =
     [(''original_stream_id'', show_sid (dv_id d)), (''attempt_count'', show_int (int (dv_attempt d))),
      (''failed_at'', isoformat now), (''failure_reason'', take 2000 reason),
      (''original_fields'', json_dumps '', '' '': ''
          (JObj (map (\<lambda>kv. (fst kv, JStr (snd kv))) (sort_key fst (dv_fields d)))))]"

definition dead_letter :: "string \<Rightarrow> string \<Rightarrow> string \<Rightarrow> string \<Rightarrow> datetime \<Rightarrow> delivery \<Rightarrow> string \<Rightarrow> unit cmd" where
  "dead_letter stream grp dead_letter_stream replay_prefix now d reason =
     rpipe ([xadd_unit dead_letter_stream (dead_letter_fields now d reason),
             xack stream grp (dv_id d), xdel stream (dv_id d)]
            @ (if replay_prefix = [] then []
               else replay_update replay_prefix now d ''dead_lettered'' (Some ''failed'')))"

section \<open>Envelopes survive the queue\<close>

definition envelope_ok :: "envelope \<Rightarrow> bool" where
  "envelope_ok job \<longleftrightarrow> hex64 (jb_idempotency_key job) \<and> jb_gmail_account job \<noteq> [] \<and> jb_message_id job \<noteq> []
     \<and> jb_mime_part_id job \<noteq> [] \<and> jb_filename job \<noteq> [] \<and> jb_file_bytes job \<noteq> []
     \<and> int (length (jb_file_bytes job)) \<le> 35000000 \<and> hex64 (jb_content_sha256 job) \<and> validate_content True job"

text \<open>pydantic reads back the timestamp text it wrote.\<close>

definition timestamp_ok :: "pydantic \<Rightarrow> datetime \<Rightarrow> bool" where
  "timestamp_ok pd t \<longleftrightarrow> pd_datetime pd (JStr (pd_datetime_str pd t)) = Some (t, True)"

lemma bind_Some_iff': "Option.bind x f = Some y \<longleftrightarrow> (\<exists>a. x = Some a \<and> f a = Some y)"
  by (cases x) simp_all

lemma pattern_value_Some: "pattern_value v = Some s \<longleftrightarrow> v = JStr s \<and> hex64 s"
  by (cases v) (auto simp add: pattern_value_def str_value_def check_def)

lemma nonempty_value_Some: "nonempty_value v = Some s \<longleftrightarrow> v = JStr s \<and> s \<noteq> []"
  by (cases v) (auto simp add: nonempty_value_def str_value_def check_def)

lemma validate_content_aware: "validate_content aware job \<Longrightarrow> validate_content True job"
  by (simp add: validate_content_def)

lemma InvoiceJobEnvelope_ok:
  assumes "InvoiceJobEnvelope pd v = Some job"
  shows "envelope_ok job"
proof -
  from assms obtain d where v: "v = JObj d" by (cases v) (simp_all add: InvoiceJobEnvelope_def)
  show ?thesis
    using assms unfolding v
    by (auto simp: InvoiceJobEnvelope_def bind_Some_iff' envelope_ok_def field_def pattern_value_Some nonempty_value_Some
        Let_def check_def split: option.splits if_splits intro: validate_content_aware)
qed

lemma InvoiceJobEnvelope_job_json:
  assumes "envelope_ok job" and "timestamp_ok pd (jb_enqueued_at job)"
  shows "InvoiceJobEnvelope pd (job_json pd job) = Some job"
  using assms
  by (cases job) (simp add: InvoiceJobEnvelope_def job_json_def envelope_keys_def envelope_ok_def timestamp_ok_def field_def
      field_default_def pattern_value_def nonempty_value_def str_value_def check_def Let_def)

lemma job_json_plain: "json_plain (job_json pd job)"
  by (simp add: job_json_def)

lemma parse_delivery_dump:
  assumes "envelope_ok job" and "timestamp_ok pd (jb_enqueued_at job)"
    and "map_of (dv_fields d) ''payload'' = Some (model_dump_json pd job)"
  shows "parse_delivery pd d = Inr job"
proof -
  have "json_loads (model_dump_json pd job) = Some (job_json pd job)"
    unfolding model_dump_json_def by (rule json_loads_dumps) (simp_all add: separators_ok_def job_json_plain)
  with assms InvoiceJobEnvelope_job_json [OF assms(1,2)] show ?thesis
    by (simp add: parse_delivery_def) (simp add: job_json_def)
qed

lemma parse_delivery_ok: "parse_delivery pd d = Inr job \<Longrightarrow> envelope_ok job"
  by (auto simp: parse_delivery_def split: option.splits if_splits intro: InvoiceJobEnvelope_ok)

section \<open>What the commands change\<close>

definition entries_at :: "string \<Rightarrow> redis \<Rightarrow> (stream_id \<times> fields) list" where
  "entries_at k r = (case rs_look k r of Some (RStream s) \<Rightarrow> st_entries s | _ \<Rightarrow> [])"

definition pending_at :: "string \<Rightarrow> string \<Rightarrow> redis \<Rightarrow> pending list" where
  "pending_at k g r = (case rs_look k r of
     Some (RStream s) \<Rightarrow> (case map_of (st_groups s) g of Some x \<Rightarrow> gp_pending x | None \<Rightarrow> []) | _ \<Rightarrow> [])"

text \<open>\<open>r'\<close> differs from \<open>r\<close> at the key \<open>k\<close> only.\<close>

definition only_key :: "string \<Rightarrow> redis \<Rightarrow> redis \<Rightarrow> bool" where
  "only_key k r r' \<longleftrightarrow> rs_now r' = rs_now r \<and> (\<forall>j. j \<noteq> k \<longrightarrow> rs_look j r' = rs_look j r)"

lemma only_key_put [simp]: "only_key k r (rs_put k v r)" "only_key k r r"
  by (simp_all add: only_key_def)

lemma only_key_at:
  assumes "only_key k r r'" and "j \<noteq> k"
  shows "entries_at j r' = entries_at j r" "pending_at j g r' = pending_at j g r" "rs_look j r' = rs_look j r"
    "stream_at j r' = stream_at j r" "hash_at j r' = hash_at j r"
  using assms by (simp_all add: only_key_def entries_at_def pending_at_def stream_at_def hash_at_def)

lemmas cmd_simps = rbind_def rthen_def rpure_def rfail_def

lemma stream_at_cases:
  obtains (error) e where "stream_at k r = Inl e"
  | (absent) "stream_at k r = Inr None" "rs_look k r = None" "entries_at k r = []" "pending_at k g r = []"
  | (present) s where "stream_at k r = Inr (Some s)" "rs_look k r = Some (RStream s)" "entries_at k r = st_entries s"
  by (cases "rs_look k r"; simp add: stream_at_def entries_at_def pending_at_def)
    (metis rvalue.exhaust rvalue.simps(10,11,12))

lemma entries_at_put [simp]: "entries_at k (rs_put k (RStream s) r) = st_entries s"
  by (simp add: entries_at_def)

lemma pending_at_put [simp]:
  "pending_at k g (rs_put k (RStream s) r) = (case map_of (st_groups s) g of Some x \<Rightarrow> gp_pending x | None \<Rightarrow> [])"
  by (simp add: pending_at_def)

lemma xadd_effect:
  assumes "xadd k fs r = (Inr i, r')"
  shows "entries_at k r' = entries_at k r @ [(i, fs)]" "only_key k r r'" "pending_at k g r' = pending_at k g r"
proof -
  have "entries_at k r' = entries_at k r @ [(i, fs)] \<and> only_key k r r' \<and> pending_at k g r' = pending_at k g r"
    using assms
    by (cases rule: stream_at_cases [where k = k and r = r and g = g])
      (auto simp: xadd_def stream_add_def empty_stream_def Let_def pending_at_def split: prod.splits)
  then show "entries_at k r' = entries_at k r @ [(i, fs)]" "only_key k r r'" "pending_at k g r' = pending_at k g r"
    by simp_all
qed

lemma xdel_effect:
  assumes "xdel k i r = (Inr (), r')"
  shows "entries_at k r' = filter (\<lambda>e. fst e \<noteq> i) (entries_at k r)" "only_key k r r'"
    "pending_at k g r' = pending_at k g r"
proof -
  have "entries_at k r' = filter (\<lambda>e. fst e \<noteq> i) (entries_at k r) \<and> only_key k r r' \<and> pending_at k g r' = pending_at k g r"
    using assms
    by (cases rule: stream_at_cases [where k = k and r = r and g = g]) (auto simp: xdel_def stream_del_def pending_at_def)
  then show "entries_at k r' = filter (\<lambda>e. fst e \<noteq> i) (entries_at k r)" "only_key k r r'"
    "pending_at k g r' = pending_at k g r" by simp_all
qed

lemma xack_effect:
  assumes "xack k g i r = (Inr (), r')"
  shows "entries_at k r' = entries_at k r" "only_key k r r'"
    "pending_at k g r' = filter (\<lambda>p. pe_id p \<noteq> i) (pending_at k g r)"
proof -
  have "entries_at k r' = entries_at k r \<and> only_key k r r' \<and> pending_at k g r' = filter (\<lambda>p. pe_id p \<noteq> i) (pending_at k g r)"
    using assms
    by (cases rule: stream_at_cases [where k = k and r = r and g = g])
      (auto simp: xack_def set_group_def map_of_gset pending_at_def split: option.splits)
  then show "entries_at k r' = entries_at k r" "only_key k r r'"
    "pending_at k g r' = filter (\<lambda>p. pe_id p \<noteq> i) (pending_at k g r)" by simp_all
qed

lemma hset_effect:
  assumes "hset k kvs r = (Inr (), r')"
  shows "only_key k r r'" "\<exists>h h'. hash_at k r = Inr h \<and> hash_at k r' = Inr h' \<and> map_of h' = map_of h ++ map_of (rev kvs)"
  using assms by (auto simp: hset_def map_of_asets hash_at_def split: sum.splits)

lemma rpipe_Cons_ok:
  "rpipe (c # cs) r = (Inr (), r') \<longleftrightarrow> (\<exists>r1. c r = (Inr (), r1) \<and> rpipe cs r1 = (Inr (), r'))"
  by (auto split: prod.splits sum.splits)

lemma replay_update_effect:
  assumes "rpipe (replay_update p now d st w) r = (Inr (), r')"
  shows "(case replay_metadata_key p d of None \<Rightarrow> r' = r | Some k \<Rightarrow> only_key k r r')"
  using assms
  by (auto simp: replay_update_def rpipe_Cons_ok simp del: rpipe.simps(2) split: option.splits dest: hset_effect)

section \<open>Properties\<close>

text \<open>C16: a job survives the queue. What \<open>enqueue_job\<close> writes for a valid envelope is read back
  as the same envelope, and whatever a delivery contains, only a valid envelope is ever
  accepted: hex digests, non-empty identifiers, a supported attachment name, and content
  that decodes and has the stated hash.\<close>

theorem envelope_round_trip:
  assumes "envelope_ok job" and "timestamp_ok pd (jb_enqueued_at job)"
    and "map_of (dv_fields d) ''payload'' = Some (model_dump_json pd job)"
  shows "parse_delivery pd d = Inr job \<and> (\<forall>d' job'. parse_delivery pd d' = Inr job' \<longrightarrow> envelope_ok job')"
  using parse_delivery_dump [OF assms] parse_delivery_ok by blast

lemma xadd_succeeds:
  assumes "key_type k r = ''none'' \<or> key_type k r = ''stream''"
  shows "\<exists>i r'. xadd k fs r = (Inr i, r')"
proof -
  have "\<exists>s. stream_at k r = Inr s"
    using assms by (auto simp: key_type_def stream_at_def split: option.splits rvalue.splits)
  then show ?thesis by (auto simp: xadd_def split: prod.split)
qed

lemma enqueue_script_existing:
  "rs_look k r = Some (RString i t) \<Longrightarrow> enqueue_script stream k p ttl r = (Inr i, r)"
  by (simp add: enqueue_script_def get_key_def cmd_simps)

lemma rs_look_later:
  "rs_keys r2 k = Some (RString i (Some t)) \<Longrightarrow> rs_now r2 < t \<Longrightarrow> rs_look k r2 = Some (RString i (Some t))"
  by (simp add: rs_look_def)

text \<open>C17: enqueueing is idempotent per attachment. The first call adds exactly one entry with the
  job's payload, under a fresh ID, and remembers the ID; until that memory expires, every
  further call with the same key answers the same ID and changes nothing.\<close>

theorem enqueue_job_once:
  assumes key: "key = prefix @ '':'' @ jb_idempotency_key job" "stream \<noteq> key"
    and new: "rs_look key r = None" and stream: "key_type stream r = ''none'' \<or> key_type stream r = ''stream''" and ttl: "0 < ttl"
  shows "\<exists>i r1. enqueue_job pd stream prefix ttl job r = (Inr (show_sid i), r1)
    \<and> entries_at stream r1 = entries_at stream r @ [(i, [(''payload'', model_dump_json pd job)])]
    \<and> (\<forall>k. k \<noteq> stream \<and> k \<noteq> key \<longrightarrow> rs_look k r1 = rs_look k r)
    \<and> (\<forall>job' r2. jb_idempotency_key job' = jb_idempotency_key job \<and> rs_keys r2 key = rs_keys r1 key
         \<and> rs_now r2 < rs_now r + 1000 * ttl \<longrightarrow> enqueue_job pd stream prefix ttl job' r2 = (Inr (show_sid i), r2))"
proof -
  let ?fs = "[(''payload'', model_dump_json pd job)]"
  obtain i r' where add: "xadd stream ?fs r = (Inr i, r')" using xadd_succeeds [OF stream] by blast
  let ?v = "RString (show_sid i) (Some (rs_now r' + 1000 * ttl))"
  let ?r1 = "rs_put key ?v r'"
  note eff = xadd_effect [OF add]
  have now: "rs_now r' = rs_now r" using eff(2) by (simp add: only_key_def)
  have "enqueue_job pd stream prefix ttl job r = (Inr (show_sid i), ?r1)"
    using new add ttl key by (simp add: enqueue_job_def enqueue_script_def get_key_def set_ex_def cmd_simps)
  moreover have "entries_at stream ?r1 = entries_at stream r @ [(i, ?fs)]"
    using eff(1) key(2) by (simp add: entries_at_def)
  moreover have "rs_look k ?r1 = rs_look k r" if "k \<noteq> stream" "k \<noteq> key" for k
    using that eff(2) by (simp add: only_key_def)
  moreover have "enqueue_job pd stream prefix ttl job' r2 = (Inr (show_sid i), r2)"
    if j: "jb_idempotency_key job' = jb_idempotency_key job" "rs_keys r2 key = rs_keys ?r1 key"
      "rs_now r2 < rs_now r + 1000 * ttl" for job' r2
  proof -
    have "rs_keys r2 key = Some ?v" using j(2) by (simp add: rs_put_def)
    then have "rs_look key r2 = Some ?v" using j(3) now by (intro rs_look_later) simp_all
    from enqueue_script_existing [OF this] j(1) key(1) show ?thesis by (simp add: enqueue_job_def)
  qed
  ultimately show ?thesis by blast
qed

text \<open>The dict stored as evidence is the delivery's, in another order.\<close>

definition evidence_json :: "fields \<Rightarrow> json" where
  "evidence_json fs = JObj (map (\<lambda>kv. (fst kv, JStr (snd kv))) (sort_key fst fs))"

lemma map_of_sort_key: "distinct (map fst fs) \<Longrightarrow> map_of (sort_key fst fs) = map_of fs"
  by (rule map_of_eqI) (auto simp: distinct_map inj_on_def map_of_eq_Some_iff intro: map_of_is_SomeI)

lemma evidence_read_back:
  "distinct (map fst fs) \<Longrightarrow> json_loads (json_dumps '', '' '': '' (evidence_json fs)) = Some (evidence_json fs)"
  by (rule json_loads_dumps)
    (simp_all add: separators_ok_def evidence_json_def list_all_iff comp_def distinct_map)

text \<open>C18: dead-lettering loses nothing. It adds one dead-letter entry whose evidence reads back
  as exactly the fields of the delivery, takes the delivery out of the live stream and out
  of the pending list of the group, and leaves every other entry and every other key but
  the replay metadata alone.\<close>

theorem dead_letter_moves:
  assumes names: "stream \<noteq> dlq" "\<And>k. replay_metadata_key p d = Some k \<Longrightarrow> k \<noteq> stream \<and> k \<noteq> dlq"
    and fields: "distinct (map fst (dv_fields d))"
    and run: "dead_letter stream g dlq p now d reason r = (Inr (), r')"
  shows "(\<exists>i. entries_at dlq r' = entries_at dlq r @ [(i, dead_letter_fields now d reason)])
    \<and> entries_at stream r' = filter (\<lambda>e. fst e \<noteq> dv_id d) (entries_at stream r)
    \<and> pending_at stream g r' = filter (\<lambda>x. pe_id x \<noteq> dv_id d) (pending_at stream g r)
    \<and> (\<exists>t fs. map_of (dead_letter_fields now d reason) ''original_fields'' = Some t
         \<and> json_loads t = Some (JObj (map (\<lambda>kv. (fst kv, JStr (snd kv))) fs)) \<and> map_of fs = map_of (dv_fields d))
    \<and> (\<forall>k. k \<noteq> stream \<and> k \<noteq> dlq \<and> replay_metadata_key p d \<noteq> Some k \<longrightarrow> rs_look k r' = rs_look k r)"
proof -
  let ?tail = "if p = [] then [] else replay_update p now d ''dead_lettered'' (Some ''failed'')"
  from run obtain r1 r2 r3 where st: "xadd_unit dlq (dead_letter_fields now d reason) r = (Inr (), r1)"
      "xack stream g (dv_id d) r1 = (Inr (), r2)" "xdel stream (dv_id d) r2 = (Inr (), r3)"
      "rpipe ?tail r3 = (Inr (), r')"
    by (auto simp: dead_letter_def rpipe_Cons_ok simp del: rpipe.simps(2))
  from st(1) obtain i where add: "xadd dlq (dead_letter_fields now d reason) r = (Inr i, r1)"
    by (auto simp: xadd_unit_def cmd_simps split: prod.splits sum.splits)
  have tail: "rs_look k r' = rs_look k r3" if "replay_metadata_key p d \<noteq> Some k" for k
    using replay_update_effect [of p now d "''dead_lettered''" "Some ''failed''" r3 r'] st(4) that
    by (auto simp: only_key_def split: if_splits option.splits)
  then have same: "entries_at k r' = entries_at k r3" "pending_at k h r' = pending_at k h r3"
    if "replay_metadata_key p d \<noteq> Some k" for k h
    using that by (simp_all add: entries_at_def pending_at_def)
  have live: "replay_metadata_key p d \<noteq> Some stream" "replay_metadata_key p d \<noteq> Some dlq" using names(2) by auto
  note a = xadd_effect [OF add] and b = xack_effect [OF st(2)] and c = xdel_effect [OF st(3)]
  have "entries_at dlq r' = entries_at dlq r @ [(i, dead_letter_fields now d reason)]"
    using same(1) [OF live(2)] a(1) only_key_at(1) [OF b(2), of dlq] only_key_at(1) [OF c(2), of dlq] names(1) by simp
  moreover have "entries_at stream r' = filter (\<lambda>e. fst e \<noteq> dv_id d) (entries_at stream r)"
    using same(1) [OF live(1)] b(1) c(1) only_key_at(1) [OF a(2) names(1)] by simp
  moreover have "pending_at stream g r' = filter (\<lambda>x. pe_id x \<noteq> dv_id d) (pending_at stream g r)"
    using same(2) [OF live(1)] b(3) c(3) only_key_at(2) [OF a(2) names(1)] by simp
  moreover have "rs_look k r' = rs_look k r" if "k \<noteq> stream" "k \<noteq> dlq" "replay_metadata_key p d \<noteq> Some k" for k
    using tail [OF that(3)] only_key_at(3) [OF a(2) that(2)] only_key_at(3) [OF b(2) that(1)]
      only_key_at(3) [OF c(2) that(1)] by simp
  moreover have "map_of (dead_letter_fields now d reason) ''original_fields''
      = Some (json_dumps '', '' '': '' (evidence_json (dv_fields d)))"
    by (simp add: dead_letter_fields_def evidence_json_def)
  moreover note evidence_read_back [OF fields] map_of_sort_key [OF fields]
  ultimately show ?thesis unfolding evidence_json_def by blast
qed

section \<open>Examples\<close>

text \<open>A pydantic that writes a timestamp as its number, a job with a one-byte attachment, and a
  queue in which that job was delivered once.\<close>

definition number_pydantic :: pydantic where
  "number_pydantic = \<lparr>pd_float = (\<lambda>v. None), pd_int = (\<lambda>v. None),
     pd_datetime = (\<lambda>v. case v of JStr s \<Rightarrow> Some (digits_val s, True) | _ \<Rightarrow> None),
     pd_datetime_str = show_digits, pd_json_error = (\<lambda>s. ''Expecting value''), pd_error = (\<lambda>v. ''invalid'')\<rparr>"

definition sample_job :: envelope where
  "sample_job = \<lparr>jb_idempotency_key = sha256_hex ''key'', jb_gmail_account = ''ap@example.com'', jb_message_id = ''m1'',
     jb_gmail_thread_id = ''t1'', jb_mime_part_id = ''1'', jb_filename = ''a.pdf'', jb_file_bytes = b64encode ''x'',
     jb_content_sha256 = sha256_hex ''x'', jb_enqueued_at = 1752940000000000\<rparr>"

definition sample_delivery :: delivery where
  "sample_delivery = \<lparr>dv_id = (5, 0), dv_fields = [(''payload'', model_dump_json number_pydantic sample_job)], dv_attempt = 3\<rparr>"

definition sample_stream :: stream where
  "sample_stream = \<lparr>st_entries = [((5, 0), dv_fields sample_delivery)], st_last = (5, 0),
     st_groups = [(''workers'', \<lparr>gp_last = (5, 0),
        gp_pending = [\<lparr>pe_id = (5, 0), pe_consumer = ''w1'', pe_delivered_at = 6, pe_count = 3\<rparr>]\<rparr>)]\<rparr>"

definition sample_redis :: redis where
  "sample_redis = \<lparr>rs_keys = [''jobs'' \<mapsto> RStream sample_stream], rs_now = 10\<rparr>"

lemma hex64_sha256: "hex64 (sha256_hex s)"
  by (simp add: hex64_def length_sha256_hex sha256_hex_lower)

lemma sample_job_ok: "envelope_ok sample_job"
proof -
  have "validate_content True sample_job"
    unfolding validate_content_def sample_job_def
    by (simp add: b64_round_trip del: b64encode.simps) (simp add: path_suffix_def path_name_def py_lower_def Let_def ATTACHMENT_SUFFIXES_def lower_char_def)
  then show ?thesis unfolding envelope_ok_def by (simp add: sample_job_def hex64_sha256)
qed

lemma sample_job_time: "timestamp_ok number_pydantic (jb_enqueued_at sample_job)"
  by (simp add: timestamp_ok_def number_pydantic_def sample_job_def digits_val_show_digits)

lemma envelope_round_trip_witness: "parse_delivery number_pydantic sample_delivery = Inr sample_job"
  using envelope_round_trip [OF sample_job_ok sample_job_time, of sample_delivery] by (simp add: sample_delivery_def)

lemma sample_redis_look: "rs_look k sample_redis = (if k = ''jobs'' then Some (RStream sample_stream) else None)"
  by (simp add: rs_look_def sample_redis_def)

lemma enqueue_job_once_witness:
  "\<exists>i r1. enqueue_job number_pydantic ''jobs'' ''dedupe'' 60 sample_job sample_redis = (Inr (show_sid i), r1)
    \<and> entries_at ''jobs'' r1 = entries_at ''jobs'' sample_redis @ [(i, [(''payload'', model_dump_json number_pydantic sample_job)])]
    \<and> enqueue_job number_pydantic ''jobs'' ''dedupe'' 60 sample_job (r1\<lparr>rs_now := 60009\<rparr>)
      = (Inr (show_sid i), r1\<lparr>rs_now := 60009\<rparr>)"
proof -
  have "''jobs'' \<noteq> ''dedupe'' @ '':'' @ jb_idempotency_key sample_job" by simp
  moreover from this have "rs_look (''dedupe'' @ '':'' @ jb_idempotency_key sample_job) sample_redis = None"
    by (simp add: sample_redis_look)
  moreover have "key_type ''jobs'' sample_redis = ''none'' \<or> key_type ''jobs'' sample_redis = ''stream''"
    by (simp add: key_type_def sample_redis_look)
  ultimately obtain i r1 where r1: "enqueue_job number_pydantic ''jobs'' ''dedupe'' 60 sample_job sample_redis = (Inr (show_sid i), r1)"
    "entries_at ''jobs'' r1 = entries_at ''jobs'' sample_redis @ [(i, [(''payload'', model_dump_json number_pydantic sample_job)])]"
    and again: "\<And>job' r2. jb_idempotency_key job' = jb_idempotency_key sample_job
        \<Longrightarrow> rs_keys r2 (''dedupe'' @ '':'' @ jb_idempotency_key sample_job) = rs_keys r1 (''dedupe'' @ '':'' @ jb_idempotency_key sample_job)
        \<Longrightarrow> rs_now r2 < rs_now sample_redis + 1000 * 60
        \<Longrightarrow> enqueue_job number_pydantic ''jobs'' ''dedupe'' 60 job' r2 = (Inr (show_sid i), r2)"
    using enqueue_job_once [of _ "''dedupe''" sample_job "''jobs''" sample_redis 60 number_pydantic, OF refl] by auto
  have "enqueue_job number_pydantic ''jobs'' ''dedupe'' 60 sample_job (r1\<lparr>rs_now := 60009\<rparr>)
      = (Inr (show_sid i), r1\<lparr>rs_now := 60009\<rparr>)"
    by (rule again) (simp_all add: sample_redis_def)
  with r1 show ?thesis by blast
qed

lemma dead_letter_moves_witness:
  "\<exists>i r'. dead_letter ''jobs'' ''workers'' ''dlq'' ''replay'' 0 sample_delivery ''boom'' sample_redis = (Inr (), r')
    \<and> entries_at ''dlq'' r' = [(i, dead_letter_fields 0 sample_delivery ''boom'')]
    \<and> entries_at ''jobs'' r' = [] \<and> pending_at ''jobs'' ''workers'' r' = []"
proof -
  have none: "replay_metadata_key ''replay'' sample_delivery = None"
    by (simp add: replay_metadata_key_def replay_context_def sample_delivery_def)
  have "\<exists>r'. dead_letter ''jobs'' ''workers'' ''dlq'' ''replay'' 0 sample_delivery ''boom'' sample_redis = (Inr (), r')"
    by (simp add: dead_letter_def replay_update_def none xadd_unit_def cmd_simps xadd_def xack_def xdel_def stream_at_def
        sample_redis_look stream_add_def Let_def sample_stream_def)
  then obtain r' where run: "dead_letter ''jobs'' ''workers'' ''dlq'' ''replay'' 0 sample_delivery ''boom'' sample_redis = (Inr (), r')"
    by blast
  have "distinct (map fst (dv_fields sample_delivery))" by (simp add: sample_delivery_def)
  from dead_letter_moves [OF _ _ this run] none obtain i where
    "entries_at ''dlq'' r' = entries_at ''dlq'' sample_redis @ [(i, dead_letter_fields 0 sample_delivery ''boom'')]"
    "entries_at ''jobs'' r' = filter (\<lambda>e. fst e \<noteq> dv_id sample_delivery) (entries_at ''jobs'' sample_redis)"
    "pending_at ''jobs'' ''workers'' r' = filter (\<lambda>x. pe_id x \<noteq> dv_id sample_delivery) (pending_at ''jobs'' ''workers'' sample_redis)"
    by auto
  with run show ?thesis
    by (auto simp: entries_at_def pending_at_def sample_redis_look sample_stream_def sample_delivery_def)
qed

end
