(* ===== verification/Iso_Datetime.thy ===== *)
theory Iso_Datetime
  imports PyDate PyFloat
begin

text \<open>
  \<open>datetime.fromisoformat\<close> with its time and offset (the date part is in \<open>PyDate\<close>),
  \<open>datetime.timestamp()\<close> and \<open>int(text)\<close>, as the queue operations use them. A naive result
  carries no offset.
\<close>

definition time_us :: "int list \<times> int \<Rightarrow> int" where
  "time_us t = ((nth_or_0 (fst t) 0 * 60 + nth_or_0 (fst t) 1) * 60 + nth_or_0 (fst t) 2) * 1000000 + snd t"

text \<open>\<open>_parse_isoformat_time\<close>: microseconds of the day, and the UTC offset if there is one.\<close>

definition parse_iso_time :: "string \<Rightarrow> (int \<times> int option) option" where
  "parse_iso_time s = (if \<not> iso_time_ok s then None
     else (case tz_index s of
        None \<Rightarrow> map_option (\<lambda>t. (time_us t, None)) (hh_mm_ss_ff s)
      | Some i \<Rightarrow>
          (case hh_mm_ss_ff (take i s) of None \<Rightarrow> None
           | Some t \<Rightarrow>
               if Suc i = length s \<and> s ! i = CHR ''Z'' then Some (time_us t, Some 0)
               else map_option (\<lambda>z. (time_us t, Some (if s ! i = CHR ''-'' then - time_us z else time_us z)))
                      (hh_mm_ss_ff (drop (Suc i) s)))))"

definition fromisoformat :: "string \<Rightarrow> (int \<times> int option) option" where
  "fromisoformat s = (if length s < 7 then None
     else (case separator_index s of None \<Rightarrow> None
       | Some i \<Rightarrow> (case parse_isoformat_date (take i s) of None \<Rightarrow> None
           | Some d \<Rightarrow>
               (let midnight = (d - 719163) * 86400000000 in
                if drop i s = [] then Some (midnight, None)
                else map_option (\<lambda>(us, z). (midnight + us, z)) (parse_iso_time (drop (Suc i) s))))))"

text \<open>\<open>str.replace\<close> of one character.\<close>

definition replace_char :: "char \<Rightarrow> string \<Rightarrow> string \<Rightarrow> string" where
  "replace_char c t s = concat (map (\<lambda>x. if x = c then t else [x]) s)"

definition optional_datetime :: "string option \<Rightarrow> datetime option" where
  "optional_datetime value = (case value of None \<Rightarrow> None | Some v \<Rightarrow>
     if v = [] then None
     else (case fromisoformat (replace_char CHR ''Z'' ''+00:00'' v) of None \<Rightarrow> None
       | Some (us, None) \<Rightarrow> Some us
       | Some (us, Some z) \<Rightarrow> Some (us - z)))"

text \<open>\<open>datetime.timestamp()\<close>: the microseconds divided once, correctly rounded.\<close>

definition timestamp :: "datetime \<Rightarrow> pyfloat" where
  "timestamp t = round64 (of_int t / 1000000)"

definition float_trunc :: "pyfloat \<Rightarrow> int result" where
  "float_trunc f = (case f of Fin v \<Rightarrow> Inr (if 0 \<le> v then \<lfloor>v\<rfloor> else - \<lfloor>- v\<rfloor>)
     | NaN \<Rightarrow> Inl (ValueError ''cannot convert float NaN to integer'') | _ \<Rightarrow> Inl OverflowError)"

text \<open>\<open>int(text)\<close>, limited to 4300 digits.\<close>

definition py_int :: "string \<Rightarrow> int option" where
  "py_int s = (case signed_part (py_strip s) of (sign, t) \<Rightarrow>
     if 4300 < int (length (filter is_digit t)) then None
     else map_option (\<lambda>i. sign * i) (digitpart t))"

end
