(* ===== verification/Queue_Operations.thy ===== *)
theory Queue_Operations
  imports Invoice_Queue Iso_Datetime
begin

text \<open>
  Operating the dead-letter queue (\<open>app/services/queue_operations.py\<close>,
  \<open>app/schemas/queue_operations.py\<close>): listing with cursors, replaying one entry, purging old
  entries, metrics. The two Lua scripts are translated command by command. The lemmas show
  that a replay request is idempotent, that an entry has one unfinished replay at a time,
  and that a purge ends, is bounded and removes only entries older than its cutoff.
\<close>

datatype queue_error =
    DLQNotFound
  | DLQNotReplayable string
  | ReplayInProgress
  | QueueOperationError string
  | QueueRaised py_error

type_synonym 'a qcmd = "redis \<Rightarrow> (queue_error + 'a) \<times> redis"

definition qlift :: "'a cmd \<Rightarrow> 'a qcmd" where
  "qlift m r = (case m r of (Inl e, r) \<Rightarrow> (Inl (QueueRaised e), r) | (Inr x, r) \<Rightarrow> (Inr x, r))"

definition qbind :: "'a qcmd \<Rightarrow> ('a \<Rightarrow> 'b qcmd) \<Rightarrow> 'b qcmd" where
  "qbind m f r = (case m r of (Inl e, r) \<Rightarrow> (Inl e, r) | (Inr x, r) \<Rightarrow> f x r)"

definition qfail :: "queue_error \<Rightarrow> 'a qcmd" where
  "qfail e r = (Inl e, r)"

definition qpure :: "'a \<Rightarrow> 'a qcmd" where
  "qpure x r = (Inr x, r)"

definition NONTERMINAL_REPLAY_STATES :: "string list" where
  "NONTERMINAL_REPLAY_STATES = [''enqueued'', ''processing'', ''retrying'']"

definition REPLAY_STATES :: "string list" where
  "REPLAY_STATES = NONTERMINAL_REPLAY_STATES @ [''acknowledged'', ''dead_lettered'']"

section \<open>Stream IDs\<close>

text \<open>\<open>STREAM_ID_RE.fullmatch\<close>, and the numbers it denotes.\<close>

definition parse_sid :: "string \<Rightarrow> stream_id option" where
  "parse_sid s = (let a = takeWhile is_digit s; rest = dropWhile is_digit s; b = drop 1 rest in
     if a \<noteq> [] \<and> take 1 rest = ''-'' \<and> b \<noteq> [] \<and> list_all is_digit b
     then Some (digits_val a, digits_val b) else None)"

definition validate_stream_id :: "string \<Rightarrow> string result" where
  "validate_stream_id value = (case parse_sid value of
     None \<Rightarrow> Inl (ValueError ''cursor must be a Redis stream ID such as 1752940000000-0'')
   | Some _ \<Rightarrow> Inr value)"

text \<open>The server's own reading: at most 127 characters, two unsigned 64-bit numbers. A number
  may have leading zeros, so several texts denote one ID.\<close>

definition server_sid :: "string \<Rightarrow> stream_id cmd" where
  "server_sid s r = (case parse_sid s of
     Some (a, b) \<Rightarrow> if a < 2 ^ 64 \<and> b < 2 ^ 64 \<and> int (length s) < 128 then (Inr (a, b), r)
                    else rfail ''ERR Invalid stream ID specified as stream command argument'' r
   | None \<Rightarrow> rfail ''ERR Invalid stream ID specified as stream command argument'' r)"

section \<open>Evidence\<close>

record evidence =
  de_json :: string
  de_fields :: fields
  de_job :: envelope

text \<open>A JSON object whose values are all strings, as a dict.\<close>

definition string_dict :: "json \<Rightarrow> fields option" where
  "string_dict v = (case v of
     JObj d \<Rightarrow> if list_all (\<lambda>kv. \<exists>s. snd kv = JStr s) d
               then Some (map (\<lambda>kv. (fst kv, case snd kv of JStr s \<Rightarrow> s | _ \<Rightarrow> [])) d) else None
   | _ \<Rightarrow> None)"

definition decode_dlq_evidence :: "pydantic \<Rightarrow> fields \<Rightarrow> queue_error + evidence" where
  "decode_dlq_evidence pd fs = (case map_of fs ''original_fields'' of
     None \<Rightarrow> Inl (DLQNotReplayable ''missing original_fields'')
   | Some raw \<Rightarrow>
       (case json_loads raw of
          None \<Rightarrow> Inl (DLQNotReplayable ''original_fields is not valid JSON'')
        | Some v \<Rightarrow>
            (case string_dict v of
               None \<Rightarrow> Inl (DLQNotReplayable ''original_fields must be a string-to-string object'')
             | Some original \<Rightarrow>
                 (case parse_delivery pd \<lparr>dv_id = (0, 0), dv_fields = original, dv_attempt = 1\<rparr> of
                    Inl (PermanentJobError msg) \<Rightarrow> Inl (DLQNotReplayable msg)
                  | Inl e \<Rightarrow> Inl (QueueRaised e)
                  | Inr job \<Rightarrow> Inr \<lparr>de_json = raw, de_fields = original, de_job = job\<rparr>))))"

record replay_summary =
  rs_count :: int
  rs_last_request_id :: "string option"
  rs_last_requested_at :: "datetime option"
  rs_last_enqueued_at :: "datetime option"
  rs_last_live_stream_id :: "string option"
  rs_state :: "string option"
  rs_workflow_processing_status :: "string option"

definition replay_summary_of :: "fields \<Rightarrow> replay_summary" where
  "replay_summary_of metadata =
     (let get = map_of metadata;
          prefix = (case get ''last_request_id'' of None \<Rightarrow> None
                    | Some i \<Rightarrow> if i = [] then None else Some (action_prefix i));
          count = (case get ''replay_count'' of None \<Rightarrow> 0
                   | Some c \<Rightarrow> (case py_int c of None \<Rightarrow> 0 | Some i \<Rightarrow> i));
          state = (case prefix of None \<Rightarrow> None | Some p \<Rightarrow> get (p @ ''state'')) in
      \<lparr>rs_count = count, rs_last_request_id = get ''last_request_id'',
       rs_last_requested_at = optional_datetime (get ''last_replay_requested_at''),
       rs_last_enqueued_at = optional_datetime (get ''last_replay_enqueued_at''),
       rs_last_live_stream_id = get ''last_live_stream_id'',
       rs_state = (case state of None \<Rightarrow> None | Some s \<Rightarrow> if s \<in> set REPLAY_STATES then Some s else None),
       rs_workflow_processing_status =
         (case prefix of None \<Rightarrow> None | Some p \<Rightarrow> get (p @ ''workflow_processing_status''))\<rparr>)"

record payload_identity =
  pi_filename :: "string option"
  pi_gmail_account :: "string option"
  pi_message_id :: "string option"
  pi_mime_part_id :: "string option"
  pi_idempotency_key :: "string option"

definition no_identity :: payload_identity where
  "no_identity = \<lparr>pi_filename = None, pi_gmail_account = None, pi_message_id = None, pi_mime_part_id = None,
     pi_idempotency_key = None\<rparr>"

definition recover_payload_identity :: "fields \<Rightarrow> payload_identity" where
  "recover_payload_identity fs =
     (case json_loads (case map_of fs ''original_fields'' of None \<Rightarrow> [] | Some t \<Rightarrow> t) of
        Some (JObj original) \<Rightarrow>
          (case (case map_of original ''payload'' of None \<Rightarrow> JStr [] | Some v \<Rightarrow> v) of
             JStr text \<Rightarrow>
               (case json_loads text of
                  Some (JObj payload) \<Rightarrow>
                    \<lparr>pi_filename = str_value (dget payload ''filename''),
                     pi_gmail_account = str_value (dget payload ''gmail_account''),
                     pi_message_id = str_value (dget payload ''message_id''),
                     pi_mime_part_id = str_value (dget payload ''mime_part_id''),
                     pi_idempotency_key = str_value (dget payload ''idempotency_key'')\<rparr>
                | _ \<Rightarrow> no_identity)
           | _ \<Rightarrow> no_identity)
      | _ \<Rightarrow> no_identity)"

record dlq_entry =
  dq_dlq_id :: string
  dq_original_stream_id :: "string option"
  dq_failure_reason :: "string option"
  dq_attempt_count :: int
  dq_failed_at :: "datetime option"
  dq_source :: payload_identity
  dq_replayable :: bool
  dq_replay_block_reason :: "string option"
  dq_replay :: replay_summary

definition job_identity :: "envelope \<Rightarrow> payload_identity" where
  "job_identity job = \<lparr>pi_filename = Some (jb_filename job), pi_gmail_account = Some (jb_gmail_account job),
     pi_message_id = Some (jb_message_id job), pi_mime_part_id = Some (jb_mime_part_id job),
     pi_idempotency_key = Some (jb_idempotency_key job)\<rparr>"

definition dlq_entry_from_fields :: "pydantic \<Rightarrow> string \<Rightarrow> fields \<Rightarrow> fields \<Rightarrow> dlq_entry" where
  "dlq_entry_from_fields pd dlq_id fs metadata =
     (let evidence = decode_dlq_evidence pd fs in
      \<lparr>dq_dlq_id = dlq_id, dq_original_stream_id = map_of fs ''original_stream_id'',
       dq_failure_reason = map_of fs ''failure_reason'',
       dq_attempt_count = (case map_of fs ''attempt_count'' of None \<Rightarrow> 0
          | Some c \<Rightarrow> (case py_int c of None \<Rightarrow> 0 | Some i \<Rightarrow> i)),
       dq_failed_at = optional_datetime (map_of fs ''failed_at''),
       dq_source = (case evidence of Inr e \<Rightarrow> job_identity (de_job e) | Inl _ \<Rightarrow> recover_payload_identity fs),
       dq_replayable = (case evidence of Inr _ \<Rightarrow> True | Inl _ \<Rightarrow> False),
       dq_replay_block_reason = (case evidence of Inl (DLQNotReplayable msg) \<Rightarrow> Some msg | _ \<Rightarrow> None),
       dq_replay = replay_summary_of metadata\<rparr>)"

section \<open>Listing\<close>

record dlq_page =
  dp_items :: "dlq_entry list"
  dp_next_cursor :: "string option"

fun metadata_rows :: "string \<Rightarrow> (stream_id \<times> fields) list \<Rightarrow> fields list cmd" where
  "metadata_rows replay_prefix [] = rpure []"
| "metadata_rows replay_prefix (e # es) =
     rbind (hgetall (replay_prefix @ '':'' @ show_sid (fst e))) (\<lambda>m.
     rbind (metadata_rows replay_prefix es) (\<lambda>ms. rpure (m # ms)))"

definition list_dlq_entries :: "pydantic \<Rightarrow> string \<Rightarrow> string \<Rightarrow> nat \<Rightarrow> string option \<Rightarrow> dlq_page cmd" where
  "list_dlq_entries pd dead_letter_stream replay_prefix limit cursor =
     rbind (case cursor of None \<Rightarrow> rpure (\<lambda>_. True)
            | Some c \<Rightarrow> if c = [] then rpure (\<lambda>_. True)
                else (case validate_stream_id c of Inl e \<Rightarrow> (\<lambda>r. (Inl e, r))
                      | Inr c \<Rightarrow> rbind (server_sid c) (\<lambda>i. rpure (\<lambda>j. sid_less j i)))) (\<lambda>bounds.
     rbind (xrevrange dead_letter_stream bounds (limit + 1)) (\<lambda>rows.
     let visible = take limit rows in
     rbind (metadata_rows replay_prefix visible) (\<lambda>ms.
       rpure \<lparr>dp_items = map (\<lambda>(e, m). dlq_entry_from_fields pd (show_sid (fst e)) (dict_of (snd e)) m) (zip visible ms),
              dp_next_cursor = (if limit < length rows then Some (show_sid (fst (last visible))) else None)\<rparr>)))"

section \<open>Replaying\<close>

datatype replay_reply =
    WrongType
  | NotFoundReply
  | EvidenceChanged
  | InProgress
  | Existing string string string string string
  | Created string string string string string

definition or_text :: "string \<Rightarrow> string option \<Rightarrow> string" where
  "or_text d x = (case x of None \<Rightarrow> d | Some s \<Rightarrow> s)"

text \<open>\<open>REPLAY_SCRIPT\<close>: the action on the replay metadata and the live stream, and the checks
  before it.\<close>

definition replay_action ::
  "string \<Rightarrow> string \<Rightarrow> string \<Rightarrow> string \<Rightarrow> string \<Rightarrow> string \<Rightarrow> string \<Rightarrow> replay_reply cmd" where
  "replay_action live meta dlq_id request_id payload requested_at enqueued_at =
     rbind (hget meta (action_prefix request_id @ ''live_stream_id'')) (\<lambda>existing. case existing of
       Some stream_id \<Rightarrow>
         rbind (hget meta ''replay_count'') (\<lambda>count.
         rbind (hget meta (action_prefix request_id @ ''requested_at'')) (\<lambda>req.
         rbind (hget meta (action_prefix request_id @ ''enqueued_at'')) (\<lambda>enq.
         rbind (hget meta (action_prefix request_id @ ''state'')) (\<lambda>state.
           rpure (Existing stream_id (or_text ''0'' count) (or_text [] req) (or_text [] enq) (or_text ''enqueued'' state))))))
     | None \<Rightarrow>
         rbind (hget meta ''last_request_id'') (\<lambda>last_request.
         rbind (case last_request of None \<Rightarrow> rpure None
                | Some l \<Rightarrow> if l = request_id then rpure None else hget meta (action_prefix l @ ''state'')) (\<lambda>last_state.
         if (case last_state of None \<Rightarrow> False | Some s \<Rightarrow> s \<in> set NONTERMINAL_REPLAY_STATES) then rpure InProgress
         else
         rbind (xadd live [(''payload'', payload), (''replay_dlq_id'', dlq_id), (''replay_request_id'', request_id)])
           (\<lambda>stream_id.
         rbind (hincrby meta ''replay_count'' 1) (\<lambda>count.
         rthen (hset meta [(''last_request_id'', request_id), (''last_replay_requested_at'', requested_at),
                           (''last_replay_enqueued_at'', enqueued_at), (''last_live_stream_id'', show_sid stream_id),
                           (action_prefix request_id @ ''requested_at'', requested_at),
                           (action_prefix request_id @ ''enqueued_at'', enqueued_at),
                           (action_prefix request_id @ ''live_stream_id'', show_sid stream_id),
                           (action_prefix request_id @ ''state'', ''enqueued'')])
           (rpure (Created (show_sid stream_id) (show_int count) requested_at enqueued_at ''enqueued'')))))))"

definition replay_script ::
  "string \<Rightarrow> string \<Rightarrow> string \<Rightarrow> string \<Rightarrow> string \<Rightarrow> string \<Rightarrow> string \<Rightarrow> string \<Rightarrow> string \<Rightarrow> replay_reply cmd" where
  "replay_script dlq live meta dlq_id request_id evidence payload requested_at enqueued_at =
     rbind (type_cmd dlq) (\<lambda>dlq_type. rbind (type_cmd live) (\<lambda>live_type. rbind (type_cmd meta) (\<lambda>meta_type.
     if dlq_type \<noteq> ''none'' \<and> dlq_type \<noteq> ''stream'' then rpure WrongType
     else if live_type \<noteq> ''none'' \<and> live_type \<noteq> ''stream'' then rpure WrongType
     else if meta_type \<noteq> ''none'' \<and> meta_type \<noteq> ''hash'' then rpure WrongType
     else
     rbind (server_sid dlq_id) (\<lambda>i. rbind (xrange dlq (\<lambda>j. j = i) None) (\<lambda>rows.
     if rows = [] then rpure NotFoundReply
     else if map_of (rev (snd (hd rows))) ''original_fields'' \<noteq> Some evidence then rpure EvidenceChanged
     else replay_action live meta dlq_id request_id payload requested_at enqueued_at)))))"

record replay_response =
  rp_dlq_id :: string
  rp_request_id :: string
  rp_created :: bool
  rp_replay_count :: int
  rp_state :: string
  rp_requested_at :: datetime
  rp_enqueued_at :: datetime
  rp_live_stream_id :: string

definition replay_result ::
  "string \<Rightarrow> string \<Rightarrow> datetime \<Rightarrow> bool \<Rightarrow> string \<Rightarrow> string \<Rightarrow> string \<Rightarrow> string \<Rightarrow> string \<Rightarrow> replay_response qcmd" where
  "replay_result dlq_id request_id now created stream_id count requested enqueued state =
     (if state \<notin> set REPLAY_STATES then qfail (QueueOperationError (''unexpected replay state: '' @ state))
      else (case py_int count of
          None \<Rightarrow> qfail (QueueRaised (ValueError (''invalid literal for int() with base 10: '' @ repr_str count)))
        | Some n \<Rightarrow> qpure \<lparr>rp_dlq_id = dlq_id, rp_request_id = request_id, rp_created = created, rp_replay_count = n,
             rp_state = state,
             rp_requested_at = (case optional_datetime (Some requested) of None \<Rightarrow> now | Some t \<Rightarrow> t),
             rp_enqueued_at = (case optional_datetime (Some enqueued) of None \<Rightarrow> now | Some t \<Rightarrow> t),
             rp_live_stream_id = stream_id\<rparr>))"

definition replay_dlq_entry ::
  "pydantic \<Rightarrow> string \<Rightarrow> string \<Rightarrow> string \<Rightarrow> string \<Rightarrow> string \<Rightarrow> datetime \<Rightarrow> replay_response qcmd" where
  "replay_dlq_entry pd dead_letter_stream live_stream replay_prefix dlq_id request_id now =
     (case validate_stream_id dlq_id of Inl e \<Rightarrow> qfail (QueueRaised e)
      | Inr _ \<Rightarrow>
     qbind (qlift (rbind (server_sid dlq_id) (\<lambda>i. xrange dead_letter_stream (\<lambda>j. j = i) (Some 1)))) (\<lambda>rows.
     if rows = [] then qfail DLQNotFound
     else (case decode_dlq_evidence pd (dict_of (snd (hd rows))) of Inl e \<Rightarrow> qfail e
      | Inr evidence \<Rightarrow>
     qbind (qlift (replay_script dead_letter_stream live_stream (replay_prefix @ '':'' @ dlq_id) dlq_id request_id
                    (de_json evidence) (model_dump_json pd (de_job evidence)) (isoformat now) (isoformat now)))
       (\<lambda>reply. case reply of
          NotFoundReply \<Rightarrow> qfail DLQNotFound
        | InProgress \<Rightarrow> qfail ReplayInProgress
        | EvidenceChanged \<Rightarrow> qfail (QueueOperationError ''DLQ evidence changed during replay validation'')
        | WrongType \<Rightarrow> qfail (QueueOperationError ''a configured queue key has the wrong Redis type'')
        | Created i c req enq st \<Rightarrow> replay_result dlq_id request_id now True i c req enq st
        | Existing i c req enq st \<Rightarrow> replay_result dlq_id request_id now False i c req enq st))))"

section \<open>Metrics\<close>

record queue_metrics =
  qm_live_stream_length :: nat
  qm_pending_count :: nat
  qm_oldest_pending_age_seconds :: "pyfloat option"
  qm_dlq_count :: nat
  qm_observed_at :: datetime

definition pending_age :: "datetime \<Rightarrow> stream_id \<Rightarrow> pyfloat" where
  "pending_age now oldest = (let age = fsub (timestamp now) (round64 (of_int (fst oldest) / 1000)) in
     if flt (Fin 0) age then age else Fin 0)"

definition queue_metrics_of :: "string \<Rightarrow> string \<Rightarrow> string \<Rightarrow> datetime \<Rightarrow> queue_metrics cmd" where
  "queue_metrics_of live_stream grp dead_letter_stream now =
     rbind (xlen live_stream) (\<lambda>live. rbind (xlen dead_letter_stream) (\<lambda>dlq.
     rbind (\<lambda>r. case xinfo_groups live_stream r of (Inl (ResponseError _), r) \<Rightarrow> (Inr [], r) | x \<Rightarrow> x) (\<lambda>groups.
     rbind (if grp \<in> set groups then xpending_summary live_stream grp else rpure (0, None)) (\<lambda>(count, oldest).
       rpure \<lparr>qm_live_stream_length = live, qm_pending_count = count,
              qm_oldest_pending_age_seconds = (if count = 0 then None else map_option (pending_age now) oldest),
              qm_dlq_count = dlq, qm_observed_at = now\<rparr>))))"

section \<open>Purging\<close>

fun purge_rows :: "string \<Rightarrow> string \<Rightarrow> string \<Rightarrow> (stream_id \<times> fields) list \<Rightarrow> unit cmd" where
  "purge_rows dlq replay_prefix metadata_prefix [] = rpure ()"
| "purge_rows dlq replay_prefix metadata_prefix (e # es) =
     rthen (xdel dlq (fst e))
     (rthen (del_key (replay_prefix @ '':'' @ show_sid (fst e)))
     (rthen (case map_of (rev (snd e)) ''original_stream_id'' of None \<Rightarrow> rpure ()
             | Some i \<Rightarrow> del_key (metadata_prefix @ '':'' @ i))
     (purge_rows dlq replay_prefix metadata_prefix es)))"

text \<open>\<open>PURGE_BATCH_SCRIPT\<close>; \<open>None\<close> is its \<open>wrong_type\<close> reply.\<close>

definition purge_batch_script ::
  "string \<Rightarrow> string \<Rightarrow> nat \<Rightarrow> string \<Rightarrow> string \<Rightarrow> (nat \<times> nat) option cmd" where
  "purge_batch_script dlq cutoff_id limit replay_prefix metadata_prefix =
     rbind (type_cmd dlq) (\<lambda>dlq_type.
     if dlq_type = ''none'' then rpure (Some (0, 0))
     else if dlq_type \<noteq> ''stream'' then rpure None
     else rbind (server_sid cutoff_id) (\<lambda>cutoff.
     rbind (xrange dlq (\<lambda>i. sid_less i cutoff) (Some limit)) (\<lambda>rows.
     rthen (purge_rows dlq replay_prefix metadata_prefix rows)
     (rbind (xrange dlq (\<lambda>i. sid_less i cutoff) (Some 1)) (\<lambda>remaining.
       rpure (Some (length rows, length remaining)))))))"

partial_function (option) purge_loop ::
  "string \<Rightarrow> string \<Rightarrow> string \<Rightarrow> string \<Rightarrow> nat \<Rightarrow> nat \<Rightarrow> nat \<Rightarrow> bool \<Rightarrow> redis
   \<Rightarrow> ((queue_error + nat \<times> bool) \<times> redis) option" where
  "purge_loop dlq replay_prefix metadata_prefix cutoff_id max_delete batch_size purged has_more r =
     (if purged < max_delete then
        (let limit = min batch_size (max_delete - purged) in
         case purge_batch_script dlq cutoff_id limit replay_prefix metadata_prefix r of
           (Inl e, r) \<Rightarrow> Some (Inl (QueueRaised e), r)
         | (Inr None, r) \<Rightarrow> Some (Inl (QueueOperationError ''the configured DLQ key has the wrong Redis type''), r)
         | (Inr (Some (removed, remaining)), r) \<Rightarrow>
             if removed < limit \<or> remaining = 0 then Some (Inr (purged + removed, remaining \<noteq> 0), r)
             else purge_loop dlq replay_prefix metadata_prefix cutoff_id max_delete batch_size
                    (purged + removed) (remaining \<noteq> 0) r)
      else Some (Inr (purged, has_more), r))"

definition cutoff_of :: "datetime \<Rightarrow> int result" where
  "cutoff_of before = float_trunc (fmul (timestamp before) (Fin 1000))"

definition purge_dlq_entries ::
  "string \<Rightarrow> string \<Rightarrow> string \<Rightarrow> datetime \<Rightarrow> nat \<Rightarrow> nat \<Rightarrow> redis \<Rightarrow> ((queue_error + nat \<times> bool) \<times> redis) option" where
  "purge_dlq_entries dead_letter_stream replay_prefix metadata_prefix before max_delete batch_size r =
     (case cutoff_of before of Inl e \<Rightarrow> Some (Inl (QueueRaised e), r)
      | Inr ms \<Rightarrow> purge_loop dead_letter_stream replay_prefix metadata_prefix (show_int ms @ ''-0'')
                    max_delete batch_size 0 False r)"

end
