(* ===== verification/Queue_Safety.thy ===== *)
theory Queue_Safety
  imports Queue_Operations
begin

text \<open>
  What operating the dead-letter queue guarantees: a replay request is idempotent, an entry
  has one unfinished replay at a time, the replayed job is the dead-lettered one, and a
  purge ends, is bounded, and removes only entries older than its cutoff.
\<close>

section \<open>Text of numbers\<close>

lemma length_show_digits: "0 \<le> i \<Longrightarrow> i < 10 ^ Suc k \<Longrightarrow> length (show_digits i) \<le> Suc k"
proof (induction k arbitrary: i)
  case 0
  then show ?case by (simp add: show_digits.simps)
next
  case (Suc k)
  show ?case
  proof (cases "i < 10")
    case True
    then show ?thesis by (simp add: show_digits.simps)
  next
    case False
    have "i div 10 < 10 ^ Suc k" using Suc.prems by (simp add: div_less_iff_less_mult)
    with Suc False show ?thesis by (simp add: show_digits.simps [of i])
  qed
qed

lemma is_digit_space: "is_digit c \<Longrightarrow> \<not> py_isspace c"
  by (auto simp: is_digit_def py_isspace_def Let_def)

lemma underscored_digits_digits: "list_all is_digit s \<Longrightarrow> s \<noteq> [] \<or> b \<Longrightarrow> underscored_digits b s"
  by (induction s arbitrary: b) (auto simp: is_digit_def)

lemma stripped_digits: "list_all is_digit s \<Longrightarrow> stripped s"
  by (cases "s = []") (auto simp: stripped_def list_all_iff is_digit_space)

lemma py_int_show_int:
  assumes "0 \<le> i" and "i < 10 ^ 19"
  shows "py_int (show_int i) = Some i"
proof -
  let ?s = "show_digits i"
  have dig: "list_all is_digit ?s" using assms(1) by (rule show_digits_is_digit)
  then have strip: "py_strip ?s = ?s" by (intro strip_id stripped_digits)
  obtain c cs where s: "?s = c # cs" by (cases ?s) simp_all
  with dig have "is_digit c" by simp
  then have "c \<noteq> CHR ''-''" "c \<noteq> CHR ''+''" by (auto simp: is_digit_def)
  with s have sgn: "signed_part ?s = (1, ?s)" by (simp add: signed_part_def)
  have filt: "filter is_digit ?s = ?s" using dig by (simp add: list_all_iff)
  have "length ?s \<le> 19" using length_show_digits [of i 18] assms by simp
  then show ?thesis
    using assms(1) underscored_digits_digits [OF dig] digits_val_show_digits [OF assms(1)]
    by (simp add: py_int_def show_int_def strip sgn filt digitpart_def)
qed

section \<open>Dicts of fields\<close>

lemma map_of_dict_of: "map_of (dict_of fs) = map_of (rev fs)"
  by (simp add: dict_of_def map_of_asets)

section \<open>Replays\<close>

definition sid_text :: "string \<Rightarrow> stream_id \<Rightarrow> bool" where
  "sid_text t i \<longleftrightarrow> parse_sid t = Some i \<and> fst i < 2 ^ 64 \<and> snd i < 2 ^ 64 \<and> int (length t) < 128"

text \<open>An entry that can be replayed: it is in the dead-letter stream under the ID the text
  denotes, its evidence decodes, and the other two keys have their types.\<close>

definition replay_ready ::
  "pydantic \<Rightarrow> string \<Rightarrow> string \<Rightarrow> string \<Rightarrow> string \<Rightarrow> evidence \<Rightarrow> fields \<Rightarrow> redis \<Rightarrow> bool" where
  "replay_ready pd dlq live meta dlq_id ev h r \<longleftrightarrow> dlq \<noteq> live \<and> meta \<noteq> dlq \<and> meta \<noteq> live
     \<and> (\<exists>s i fs. rs_look dlq r = Some (RStream s) \<and> stream_ok s \<and> sid_text dlq_id i \<and> map_of (st_entries s) i = Some fs
          \<and> decode_dlq_evidence pd (dict_of fs) = Inr ev)
     \<and> (key_type live r = ''none'' \<or> key_type live r = ''stream'') \<and> hash_at meta r = Inr h"

lemma distinct_filter_key:
  "distinct (map fst xs) \<Longrightarrow> map_of xs i = Some v \<Longrightarrow> filter (\<lambda>e. fst e = i) xs = [(i, v)]"
proof (induction xs)
  case (Cons x xs)
  show ?case
  proof (cases "fst x = i")
    case True
    with Cons.prems have "filter (\<lambda>e. fst e = i) xs = []" by (auto simp: filter_empty_conv image_iff)
    with True Cons.prems show ?thesis by (cases x) simp
  qed (use Cons in auto)
qed simp

lemma xrange_one:
  assumes "rs_look dlq r = Some (RStream s)" "stream_ok s" "map_of (st_entries s) i = Some fs" "c = None \<or> c = Some 1"
  shows "xrange dlq (\<lambda>j. j = i) c r = (Inr [(i, fs)], r)"
  using assms distinct_filter_key [OF slog.ok_distinct [OF assms(2)] assms(3)]
  by (auto simp: xrange_def stream_at_def)

lemma server_sid_ok: "sid_text t i \<Longrightarrow> server_sid t r = (Inr i, r)"
  by (cases i) (simp add: server_sid_def sid_text_def)

lemma decode_dlq_evidence_json:
  "decode_dlq_evidence pd fs = Inr ev \<Longrightarrow> map_of fs ''original_fields'' = Some (de_json ev)"
  by (auto simp: decode_dlq_evidence_def split: option.splits sum.splits py_error.splits)

lemma key_type_hash: "hash_at meta r = Inr h \<Longrightarrow> key_type meta r = ''none'' \<or> key_type meta r = ''hash''"
  by (auto simp: hash_at_def key_type_def split: option.splits rvalue.splits)

lemma replay_script_action:
  assumes "replay_ready pd dlq live meta dlq_id ev h r"
  shows "replay_script dlq live meta dlq_id rid (de_json ev) payload t1 t2 r = replay_action live meta dlq_id rid payload t1 t2 r"
proof -
  from assms obtain s i fs where e: "rs_look dlq r = Some (RStream s)" "stream_ok s" "sid_text dlq_id i"
      "map_of (st_entries s) i = Some fs" "decode_dlq_evidence pd (dict_of fs) = Inr ev"
    by (auto simp: replay_ready_def)
  have "map_of (rev fs) ''original_fields'' = Some (de_json ev)"
    using decode_dlq_evidence_json [OF e(5)] by (simp add: map_of_dict_of)
  moreover have "key_type dlq r = ''stream''" using e(1) by (simp add: key_type_def)
  moreover have "key_type meta r = ''none'' \<or> key_type meta r = ''hash''"
    using assms by (auto simp: replay_ready_def dest: key_type_hash)
  moreover have "key_type live r = ''none'' \<or> key_type live r = ''stream''" using assms by (simp add: replay_ready_def)
  moreover note xrange_one [OF e(1,2,4), of None] server_sid_ok [OF e(3), of r]
  ultimately show ?thesis
    by (auto simp: replay_script_def rbind_def [of "type_cmd _"] rbind_def [of "server_sid _"] rbind_def [of "xrange _ _ _"] type_cmd_def)
qed

text \<open>The three outcomes of the action.\<close>

lemma replay_action_existing:
  assumes "hash_at meta r = Inr h" and "map_of h (action_prefix rid @ ''live_stream_id'') = Some i"
  shows "replay_action live meta dlq_id rid p t1 t2 r =
    (Inr (Existing i (or_text ''0'' (map_of h ''replay_count'')) (or_text [] (map_of h (action_prefix rid @ ''requested_at'')))
       (or_text [] (map_of h (action_prefix rid @ ''enqueued_at''))) (or_text ''enqueued'' (map_of h (action_prefix rid @ ''state'')))), r)"
  using assms by (simp add: replay_action_def hget_def cmd_simps)

lemma replay_action_in_progress:
  assumes "hash_at meta r = Inr h" and "map_of h (action_prefix rid @ ''live_stream_id'') = None"
    and "map_of h ''last_request_id'' = Some l" "l \<noteq> rid"
    and "map_of h (action_prefix l @ ''state'') = Some s" "s \<in> set NONTERMINAL_REPLAY_STATES"
  shows "replay_action live meta dlq_id rid p t1 t2 r = (Inr InProgress, r)"
  using assms by (simp add: replay_action_def hget_def cmd_simps)

definition replay_finished :: "string \<Rightarrow> fields \<Rightarrow> bool" where
  "replay_finished rid h \<longleftrightarrow> (\<forall>l s. map_of h ''last_request_id'' = Some l \<and> l \<noteq> rid
     \<and> map_of h (action_prefix l @ ''state'') = Some s \<longrightarrow> s \<notin> set NONTERMINAL_REPLAY_STATES)"

definition count_of :: "fields \<Rightarrow> int option" where
  "count_of h = (case map_of h ''replay_count'' of None \<Rightarrow> Some 0 | Some c \<Rightarrow> parse_int c)"

definition created_metadata :: "fields \<Rightarrow> string \<Rightarrow> string \<Rightarrow> string \<Rightarrow> string \<Rightarrow> int \<Rightarrow> fields" where
  "created_metadata h rid t1 t2 sid n =
     foldl (\<lambda>h (f, v). aset f v h) (aset ''replay_count'' (show_int n) h)
       [(''last_request_id'', rid), (''last_replay_requested_at'', t1), (''last_replay_enqueued_at'', t2),
        (''last_live_stream_id'', sid), (action_prefix rid @ ''requested_at'', t1),
        (action_prefix rid @ ''enqueued_at'', t2), (action_prefix rid @ ''live_stream_id'', sid),
        (action_prefix rid @ ''state'', ''enqueued'')]"

lemma replay_action_created:
  assumes h: "hash_at meta r = Inr h" and none: "map_of h (action_prefix rid @ ''live_stream_id'') = None"
    and fin: "replay_finished rid h" and n: "count_of h = Some n"
    and live: "key_type live r = ''none'' \<or> key_type live r = ''stream''" "meta \<noteq> live"
  shows "\<exists>sid r1. replay_action live meta dlq_id rid p t1 t2 r
      = (Inr (Created (show_sid sid) (show_int (n + 1)) t1 t2 ''enqueued''), r1)
    \<and> entries_at live r1 = entries_at live r @ [(sid, [(''payload'', p), (''replay_dlq_id'', dlq_id), (''replay_request_id'', rid)])]
    \<and> hash_at meta r1 = Inr (created_metadata h rid t1 t2 (show_sid sid) (n + 1))
    \<and> (\<forall>k. k \<noteq> live \<and> k \<noteq> meta \<longrightarrow> rs_look k r1 = rs_look k r)
    \<and> (key_type live r1 = ''none'' \<or> key_type live r1 = ''stream'')"
proof -
  let ?fs = "[(''payload'', p), (''replay_dlq_id'', dlq_id), (''replay_request_id'', rid)]"
  obtain sid r' where add: "xadd live ?fs r = (Inr sid, r')" using xadd_succeeds [OF live(1)] by blast
  note eff = xadd_effect [OF add]
  have h': "hash_at meta r' = Inr h" using only_key_at(5) [OF eff(2) live(2)] h by simp
  let ?h1 = "created_metadata h rid t1 t2 (show_sid sid) (n + 1)"
  let ?r1 = "rs_put meta (RHash ?h1) (rs_put meta (RHash (aset ''replay_count'' (show_int (n + 1)) h)) r')"
  have inc: "hincrby meta ''replay_count'' 1 r' = (Inr (n + 1), rs_put meta (RHash (aset ''replay_count'' (show_int (n + 1)) h)) r')"
    using n h' by (simp add: hincrby_def count_of_def)
  have state: "\<not> (case (case map_of h ''last_request_id'' of None \<Rightarrow> None
       | Some l \<Rightarrow> if l = rid then None else map_of h (action_prefix l @ ''state'')) of None \<Rightarrow> False
       | Some s \<Rightarrow> s \<in> set NONTERMINAL_REPLAY_STATES)"
    using fin by (auto simp: replay_finished_def split: option.splits)
  let ?r2 = "rs_put meta (RHash (aset ''replay_count'' (show_int (n + 1)) h)) r'"
  have "hash_at meta ?r2 = Inr (aset ''replay_count'' (show_int (n + 1)) h)" by (simp add: hash_at_def)
  then have "replay_action live meta dlq_id rid p t1 t2 r = (Inr (Created (show_sid sid) (show_int (n + 1)) t1 t2 ''enqueued''), ?r1)"
    using state none
    by (cases "map_of h ''last_request_id''")
      (auto simp: replay_action_def hget_def cmd_simps h add inc hset_def created_metadata_def split: if_splits)
  moreover have "entries_at live ?r1 = entries_at live r'" using live(2) by (simp add: entries_at_def)
  moreover have "hash_at meta ?r1 = Inr ?h1" by (simp add: hash_at_def)
  moreover have "key_type live ?r1 = ''stream''"
    using add live(2) by (auto simp: xadd_def key_type_def split: sum.splits option.splits prod.splits)
  moreover have "rs_look k ?r1 = rs_look k r" if "k \<noteq> live" "k \<noteq> meta" for k
    using that eff(2) by (simp add: only_key_def)
  ultimately show ?thesis
    using eff(1) by (intro exI [of _ sid] exI [of _ ?r1] conjI allI impI disjI2) (simp_all del: rs_look_put)
qed

text \<open>What the metadata says after the creation.\<close>

lemma ends_differ: "last x \<noteq> last y \<Longrightarrow> x \<noteq> [] \<Longrightarrow> y \<noteq> [] \<Longrightarrow> a @ x \<noteq> b @ y"
  by (metis last_appendR)

lemma created_metadata_map:
  "map_of (created_metadata h rid t1 t2 sid n) =
     (map_of h)(''replay_count'' \<mapsto> show_int n, ''last_request_id'' \<mapsto> rid, ''last_replay_requested_at'' \<mapsto> t1,
       ''last_replay_enqueued_at'' \<mapsto> t2, ''last_live_stream_id'' \<mapsto> sid,
       action_prefix rid @ ''requested_at'' \<mapsto> t1, action_prefix rid @ ''enqueued_at'' \<mapsto> t2,
       action_prefix rid @ ''live_stream_id'' \<mapsto> sid, action_prefix rid @ ''state'' \<mapsto> ''enqueued'')"
  by (simp add: created_metadata_def map_of_aset)

lemma created_metadata_own:
  "map_of (created_metadata h rid t1 t2 sid n) (action_prefix rid @ ''live_stream_id'') = Some sid"
  "map_of (created_metadata h rid t1 t2 sid n) (action_prefix rid @ ''state'') = Some ''enqueued''"
  "map_of (created_metadata h rid t1 t2 sid n) (action_prefix rid @ ''requested_at'') = Some t1"
  "map_of (created_metadata h rid t1 t2 sid n) (action_prefix rid @ ''enqueued_at'') = Some t2"
  "map_of (created_metadata h rid t1 t2 sid n) ''replay_count'' = Some (show_int n)"
  "map_of (created_metadata h rid t1 t2 sid n) ''last_request_id'' = Some rid"
  by (simp_all add: created_metadata_map action_prefix_def)

lemma created_metadata_other:
  assumes "rid' \<noteq> rid"
  shows "map_of (created_metadata h rid t1 t2 sid n) (action_prefix rid' @ ''live_stream_id'')
    = map_of h (action_prefix rid' @ ''live_stream_id'')"
proof -
  have "a @ ''live_stream_id'' \<noteq> b @ ''requested_at''" "a @ ''live_stream_id'' \<noteq> b @ ''enqueued_at''"
      "a @ ''live_stream_id'' \<noteq> b @ ''state''" for a b :: string
    by (rule ends_differ; simp)+
  then show ?thesis using assms by (simp add: created_metadata_map action_prefix_def)
qed

section \<open>Replay requests\<close>

lemma replay_dlq_entry_ready:
  assumes ready: "replay_ready pd dlq live (prefix @ '':'' @ dlq_id) dlq_id ev h r"
    and reply: "replay_action live (prefix @ '':'' @ dlq_id) dlq_id rid (model_dump_json pd (de_job ev))
        (isoformat now) (isoformat now) r = (Inr reply, r')"
  shows "replay_dlq_entry pd dlq live prefix dlq_id rid now r = (case reply of
          NotFoundReply \<Rightarrow> (Inl DLQNotFound, r') | InProgress \<Rightarrow> (Inl ReplayInProgress, r')
        | EvidenceChanged \<Rightarrow> (Inl (QueueOperationError ''DLQ evidence changed during replay validation''), r')
        | WrongType \<Rightarrow> (Inl (QueueOperationError ''a configured queue key has the wrong Redis type''), r')
        | Created i c req enq st \<Rightarrow> replay_result dlq_id rid now True i c req enq st r'
        | Existing i c req enq st \<Rightarrow> replay_result dlq_id rid now False i c req enq st r')"
proof -
  from ready obtain s i fs where e: "rs_look dlq r = Some (RStream s)" "stream_ok s" "sid_text dlq_id i"
      "map_of (st_entries s) i = Some fs" "decode_dlq_evidence pd (dict_of fs) = Inr ev"
    by (auto simp: replay_ready_def)
  have "validate_stream_id dlq_id = Inr dlq_id" using e(3) by (simp add: validate_stream_id_def sid_text_def)
  moreover note xrange_one [OF e(1,2,4), of "Some 1"] server_sid_ok [OF e(3), of r] e(5)
  moreover note replay_script_action [OF ready, of rid "model_dump_json pd (de_job ev)" "isoformat now" "isoformat now"]
  ultimately show ?thesis
    using reply
    by (simp add: replay_dlq_entry_def qbind_def qlift_def rbind_def qfail_def split: replay_reply.split)
qed

lemma replay_result_ok:
  assumes "st \<in> set REPLAY_STATES" and "0 \<le> n" "n < 10 ^ 19"
  shows "\<exists>resp. replay_result dlq_id rid now created i (show_int n) req enq st r = (Inr resp, r)
    \<and> rp_created resp = created \<and> rp_replay_count resp = n \<and> rp_state resp = st \<and> rp_live_stream_id resp = i"
  using assms by (simp add: replay_result_def py_int_show_int qpure_def)

lemma replay_ready_kept:
  assumes "replay_ready pd dlq live meta dlq_id ev h r" and "rs_look dlq r1 = rs_look dlq r"
    and "hash_at meta r1 = Inr h1" and "key_type live r1 = ''none'' \<or> key_type live r1 = ''stream''"
  shows "replay_ready pd dlq live meta dlq_id ev h1 r1"
  using assms by (auto simp: replay_ready_def)

lemma replay_dlq_entry_creates:
  assumes ready: "replay_ready pd dlq live (prefix @ '':'' @ dlq_id) dlq_id ev h r"
    and none: "map_of h (action_prefix rid @ ''live_stream_id'') = None" and fin: "replay_finished rid h"
    and n: "count_of h = Some n" "0 \<le> n" "n < 10 ^ 18" and time: "timestamp_ok pd (jb_enqueued_at (de_job ev))"
  shows "\<exists>resp r1 sid fs. replay_dlq_entry pd dlq live prefix dlq_id rid now r = (Inr resp, r1)
    \<and> rp_created resp \<and> rp_replay_count resp = n + 1 \<and> rp_state resp = ''enqueued'' \<and> rp_live_stream_id resp = show_sid sid
    \<and> entries_at live r1 = entries_at live r @ [(sid, fs)] \<and> entries_at dlq r1 = entries_at dlq r
    \<and> parse_delivery pd \<lparr>dv_id = sid, dv_fields = fs, dv_attempt = 1\<rparr> = Inr (de_job ev)
    \<and> (\<forall>now'. \<exists>resp'. replay_dlq_entry pd dlq live prefix dlq_id rid now' r1 = (Inr resp', r1)
         \<and> \<not> rp_created resp' \<and> rp_replay_count resp' = n + 1 \<and> rp_live_stream_id resp' = show_sid sid)
    \<and> (\<forall>rid' now'. rid' \<noteq> rid \<and> map_of h (action_prefix rid' @ ''live_stream_id'') = None \<longrightarrow>
         replay_dlq_entry pd dlq live prefix dlq_id rid' now' r1 = (Inl ReplayInProgress, r1))
    \<and> rs_look dlq r1 = rs_look dlq r \<and> (key_type live r1 = ''none'' \<or> key_type live r1 = ''stream'')
    \<and> (\<forall>k. k \<noteq> live \<and> k \<noteq> prefix @ '':'' @ dlq_id \<longrightarrow> rs_look k r1 = rs_look k r)"
proof -
  let ?meta = "prefix @ '':'' @ dlq_id" and ?p = "model_dump_json pd (de_job ev)" and ?t = "isoformat now"
  let ?fs = "\<lambda>rid. [(''payload'', ?p), (''replay_dlq_id'', dlq_id), (''replay_request_id'', rid)]"
  from ready have h: "hash_at ?meta r = Inr h" "key_type live r = ''none'' \<or> key_type live r = ''stream''"
      "?meta \<noteq> live" "dlq \<noteq> live" "dlq \<noteq> ?meta" by (auto simp: replay_ready_def)
  from replay_action_created [OF h(1) none fin n(1) h(2,3), of dlq_id ?p ?t ?t] obtain sid r1 where
    act: "replay_action live ?meta dlq_id rid ?p ?t ?t r
        = (Inr (Created (show_sid sid) (show_int (n + 1)) ?t ?t ''enqueued''), r1)"
    and ents: "entries_at live r1 = entries_at live r @ [(sid, ?fs rid)]"
    and h1: "hash_at ?meta r1 = Inr (created_metadata h rid ?t ?t (show_sid sid) (n + 1))"
    and others: "\<forall>k. k \<noteq> live \<and> k \<noteq> ?meta \<longrightarrow> rs_look k r1 = rs_look k r"
    and live1: "key_type live r1 = ''none'' \<or> key_type live r1 = ''stream''" by blast
  let ?h1 = "created_metadata h rid ?t ?t (show_sid sid) (n + 1)"
  have dlq1: "rs_look dlq r1 = rs_look dlq r" using others h(4,5) by blast
  note ready1 = replay_ready_kept [OF ready dlq1 h1 live1]
  have st: "''enqueued'' \<in> set REPLAY_STATES" "''enqueued'' \<in> set NONTERMINAL_REPLAY_STATES"
    by (simp_all add: REPLAY_STATES_def NONTERMINAL_REPLAY_STATES_def)
  have "n + 1 < 10 ^ 19" "0 \<le> n + 1" using n by simp_all
  note result = replay_result_ok [OF st(1) this(2,1)]
  from replay_dlq_entry_ready [OF ready act] result [of dlq_id rid now True "show_sid sid" ?t ?t r1]
  obtain resp where resp: "replay_dlq_entry pd dlq live prefix dlq_id rid now r = (Inr resp, r1)"
      "rp_created resp" "rp_replay_count resp = n + 1" "rp_state resp = ''enqueued''"
      "rp_live_stream_id resp = show_sid sid" by auto
  have "decode_dlq_evidence pd (dict_of fs) = Inr ev \<Longrightarrow> envelope_ok (de_job ev)" for fs
    by (auto simp: decode_dlq_evidence_def split: option.splits sum.splits py_error.splits intro: parse_delivery_ok)
  then have "envelope_ok (de_job ev)" using ready by (auto simp: replay_ready_def)
  then have parse: "parse_delivery pd \<lparr>dv_id = sid, dv_fields = ?fs rid, dv_attempt = 1\<rparr> = Inr (de_job ev)"
    using time by (intro parse_delivery_dump) simp_all
  have again: "\<exists>resp'. replay_dlq_entry pd dlq live prefix dlq_id rid now' r1 = (Inr resp', r1)
      \<and> \<not> rp_created resp' \<and> rp_replay_count resp' = n + 1 \<and> rp_live_stream_id resp' = show_sid sid" for now'
  proof -
    from replay_action_existing [OF h1 created_metadata_own(1), of live dlq_id ?p "isoformat now'" "isoformat now'"]
    have "replay_action live ?meta dlq_id rid ?p (isoformat now') (isoformat now') r1
        = (Inr (Existing (show_sid sid) (show_int (n + 1)) ?t ?t ''enqueued''), r1)"
      by (simp add: created_metadata_own or_text_def)
    from replay_dlq_entry_ready [OF ready1 this] result [of dlq_id rid now' False "show_sid sid" ?t ?t r1]
    show ?thesis by auto
  qed
  have other: "replay_dlq_entry pd dlq live prefix dlq_id rid' now' r1 = (Inl ReplayInProgress, r1)"
    if new: "rid' \<noteq> rid" "map_of h (action_prefix rid' @ ''live_stream_id'') = None" for rid' now'
  proof -
    have "map_of ?h1 (action_prefix rid' @ ''live_stream_id'') = None"
      using created_metadata_other [OF new(1)] new(2) by simp
    from replay_action_in_progress [OF h1 this created_metadata_own(6) _ created_metadata_own(2) st(2)] new(1)
    have "replay_action live ?meta dlq_id rid' ?p (isoformat now') (isoformat now') r1 = (Inr InProgress, r1)" by simp
    from replay_dlq_entry_ready [OF ready1 this] show ?thesis by simp
  qed
  have "entries_at dlq r1 = entries_at dlq r" using dlq1 by (simp add: entries_at_def)
  with resp ents parse again other dlq1 live1 others show ?thesis by blast
qed

text \<open>C19: a replay happens once. When an entry is ready, this request has not run and the last
  replay of the entry has finished, the request adds exactly one entry to the live stream,
  which parses to the dead-lettered job, and leaves the dead-letter stream as it is.
  Repeating the request then answers the same live entry and changes nothing, and any
  other new request is refused as in progress and changes nothing.\<close>

theorem replay_dlq_entry_once:
  assumes ready: "replay_ready pd dlq live (prefix @ '':'' @ dlq_id) dlq_id ev h r"
    and none: "map_of h (action_prefix rid @ ''live_stream_id'') = None" and fin: "replay_finished rid h"
    and n: "count_of h = Some n" "0 \<le> n" "n < 10 ^ 18" and time: "timestamp_ok pd (jb_enqueued_at (de_job ev))"
  shows "\<exists>resp r1 sid fs. replay_dlq_entry pd dlq live prefix dlq_id rid now r = (Inr resp, r1)
    \<and> rp_created resp \<and> rp_replay_count resp = n + 1 \<and> rp_state resp = ''enqueued'' \<and> rp_live_stream_id resp = show_sid sid
    \<and> entries_at live r1 = entries_at live r @ [(sid, fs)] \<and> entries_at dlq r1 = entries_at dlq r
    \<and> parse_delivery pd \<lparr>dv_id = sid, dv_fields = fs, dv_attempt = 1\<rparr> = Inr (de_job ev)
    \<and> (\<forall>now'. \<exists>resp'. replay_dlq_entry pd dlq live prefix dlq_id rid now' r1 = (Inr resp', r1)
         \<and> \<not> rp_created resp' \<and> rp_replay_count resp' = n + 1 \<and> rp_live_stream_id resp' = show_sid sid)
    \<and> (\<forall>rid' now'. rid' \<noteq> rid \<and> map_of h (action_prefix rid' @ ''live_stream_id'') = None \<longrightarrow>
         replay_dlq_entry pd dlq live prefix dlq_id rid' now' r1 = (Inl ReplayInProgress, r1))"
  using replay_dlq_entry_creates [OF assms] by blast

text \<open>C20: one entry, two spellings. The guard against a second unfinished replay is kept per
  text of the ID, while the server reads IDs as numbers: another spelling of the same ID,
  with a leading zero, replays the entry again although the first replay has not
  finished.\<close>

theorem replay_guard_per_spelling:
  assumes ready: "replay_ready pd dlq live (prefix @ '':'' @ dlq_id) dlq_id ev [] r"
    and ready': "replay_ready pd dlq live (prefix @ '':'' @ dlq_id') dlq_id' ev [] r"
    and texts: "dlq_id' \<noteq> dlq_id" and time: "timestamp_ok pd (jb_enqueued_at (de_job ev))"
  shows "\<exists>resp r1 resp' r2 sid sid' fs fs'. replay_dlq_entry pd dlq live prefix dlq_id rid now r = (Inr resp, r1)
    \<and> rp_state resp = ''enqueued''
    \<and> replay_dlq_entry pd dlq live prefix dlq_id' rid' now r1 = (Inr resp', r2) \<and> rp_created resp'
    \<and> entries_at live r2 = entries_at live r @ [(sid, fs), (sid', fs')]"
proof -
  have fin: "replay_finished i []" "count_of [] = Some 0" for i by (simp_all add: replay_finished_def count_of_def)
  have triv: "map_of ([] :: fields) (action_prefix i @ ''live_stream_id'') = None" "(0::int) \<le> 0" "(0::int) < 10 ^ 18" for i
    by simp_all
  from replay_dlq_entry_creates [OF ready triv(1) fin triv(2,3) time, of rid now] obtain resp r1 sid fs where
    one: "replay_dlq_entry pd dlq live prefix dlq_id rid now r = (Inr resp, r1)" "rp_state resp = ''enqueued''"
      "entries_at live r1 = entries_at live r @ [(sid, fs)]" "rs_look dlq r1 = rs_look dlq r"
      "key_type live r1 = ''none'' \<or> key_type live r1 = ''stream''"
      "\<And>k. k \<noteq> live \<and> k \<noteq> prefix @ '':'' @ dlq_id \<Longrightarrow> rs_look k r1 = rs_look k r" by blast
  have "hash_at (prefix @ '':'' @ dlq_id') r1 = Inr []"
    using ready' one(6) [of "prefix @ '':'' @ dlq_id'"] texts by (simp add: replay_ready_def hash_at_def)
  from replay_ready_kept [OF ready' one(4) this one(5)]
  have "replay_ready pd dlq live (prefix @ '':'' @ dlq_id') dlq_id' ev [] r1" .
  from replay_dlq_entry_creates [OF this triv(1) fin triv(2,3) time, of rid' now] obtain resp' r2 sid' fs' where
    "replay_dlq_entry pd dlq live prefix dlq_id' rid' now r1 = (Inr resp', r2)" "rp_created resp'"
      "entries_at live r2 = entries_at live r1 @ [(sid', fs')]" by blast
  with one(1,2,3) show ?thesis by auto
qed

section \<open>Purges\<close>

text \<open>The metadata keys are not the dead-letter stream.\<close>

definition purge_names :: "string \<Rightarrow> string \<Rightarrow> string \<Rightarrow> bool" where
  "purge_names dlq rp mp \<longleftrightarrow> (\<forall>x. rp @ '':'' @ x \<noteq> dlq \<and> mp @ '':'' @ x \<noteq> dlq)"

lemma rs_look_del [simp]: "rs_look k (snd (del_key j r)) = (if k = j then None else rs_look k r)"
  by (simp add: del_key_def rs_look_def split: option.split rvalue.split)

lemma del_key_ok: "del_key j r = (Inr (), snd (del_key j r))"
  by (simp add: del_key_def)

lemma rthen_step: "m r = (Inr x, r1) \<Longrightarrow> rthen m n r = n r1"
  by (simp add: rthen_def rbind_def)

lemma stream_del_ok: "stream_ok s \<Longrightarrow> stream_ok (stream_del i s)"
  by (rule slog.remove_ok)

text \<open>Besides the stream, nothing changed but metadata that was deleted.\<close>

definition only_metadata :: "string \<Rightarrow> string \<Rightarrow> string \<Rightarrow> redis \<Rightarrow> redis \<Rightarrow> bool" where
  "only_metadata dlq rp mp r r' \<longleftrightarrow> (\<forall>k. k \<noteq> dlq \<longrightarrow> rs_look k r' = rs_look k r
     \<or> (rs_look k r' = None \<and> (\<exists>x. k = rp @ '':'' @ x \<or> k = mp @ '':'' @ x)))"

lemma only_metadata_refl [simp]: "only_metadata dlq rp mp r r"
  by (simp add: only_metadata_def)

lemma only_metadata_trans:
  "only_metadata dlq rp mp r r1 \<Longrightarrow> only_metadata dlq rp mp r1 r2 \<Longrightarrow> only_metadata dlq rp mp r r2"
  unfolding only_metadata_def by metis

text \<open>Removing rows removes exactly them from the stream, and besides it only metadata.\<close>

lemma purge_rows_effect:
  assumes "rs_look dlq r = Some (RStream s)" and "stream_ok s" and "purge_names dlq rp mp"
  shows "\<exists>r' s'. purge_rows dlq rp mp rows r = (Inr (), r') \<and> rs_look dlq r' = Some (RStream s') \<and> stream_ok s'
    \<and> st_entries s' = filter (\<lambda>e. fst e \<notin> fst ` set rows) (st_entries s)
    \<and> only_metadata dlq rp mp r r'"
  using assms
proof (induction rows arbitrary: r s)
  case Nil
  then show ?case by (simp add: rpure_def)
next
  case (Cons e rows)
  let ?s = "stream_del (fst e) s"
  let ?r1 = "rs_put dlq (RStream ?s) r"
  let ?r2 = "snd (del_key (rp @ '':'' @ show_sid (fst e)) ?r1)"
  let ?r3 = "case map_of (rev (snd e)) ''original_stream_id'' of None \<Rightarrow> ?r2 | Some i \<Rightarrow> snd (del_key (mp @ '':'' @ i) ?r2)"
  have del: "xdel dlq (fst e) r = (Inr (), ?r1)" using Cons.prems(1) by (simp add: xdel_def stream_at_def)
  have opt: "(case map_of (rev (snd e)) ''original_stream_id'' of None \<Rightarrow> rpure ()
             | Some i \<Rightarrow> del_key (mp @ '':'' @ i)) ?r2 = (Inr (), ?r3)"
    by (simp add: rpure_def del_key_def split: option.split)
  have step: "purge_rows dlq rp mp (e # rows) r = purge_rows dlq rp mp rows ?r3"
    by (simp only: purge_rows.simps rthen_step [where m = "xdel dlq (fst e)" and r = r, OF del]
        rthen_step [where m = "del_key (rp @ '':'' @ show_sid (fst e))" and r = ?r1, OF del_key_ok]
        rthen_step [where m = "case map_of (rev (snd e)) ''original_stream_id'' of None \<Rightarrow> rpure ()
             | Some i \<Rightarrow> del_key (mp @ '':'' @ i)" and r = ?r2, OF opt])
  have look3: "rs_look dlq ?r3 = Some (RStream ?s)"
    using Cons.prems(3) by (auto simp add: purge_names_def split: option.split)
  have other3: "only_metadata dlq rp mp r ?r3"
    by (auto simp: only_metadata_def split: option.split)
  from Cons.IH [OF look3 stream_del_ok [OF Cons.prems(2)] Cons.prems(3)] obtain r' s' where
    ih: "purge_rows dlq rp mp rows ?r3 = (Inr (), r')" "rs_look dlq r' = Some (RStream s')" "stream_ok s'"
      "st_entries s' = filter (\<lambda>e. fst e \<notin> fst ` set rows) (st_entries ?s)"
      "only_metadata dlq rp mp ?r3 r'" by blast
  have "st_entries s' = filter (\<lambda>x. fst x \<notin> fst ` set (e # rows)) (st_entries s)"
    by (simp add: ih(4) stream_del_def conj_commute)
  moreover note only_metadata_trans [OF other3 ih(5)]
  moreover have "purge_rows dlq rp mp (e # rows) r = (Inr (), r')" using step ih(1) by (simp only:)
  ultimately show ?case using ih(2,3) by blast
qed

text \<open>In a stream the entries below a cutoff are a prefix.\<close>

lemma filter_prefix:
  assumes "sorted_wrt sid_less (map fst xs)"
  shows "filter (\<lambda>e. sid_less (fst e) c) xs = takeWhile (\<lambda>e. sid_less (fst e) c) xs"
  using assms
proof (induction xs)
  case (Cons x xs)
  show ?case
  proof (cases "sid_less (fst x) c")
    case False
    then have "\<not> sid_less (fst y) c" if "y \<in> set xs" for y
      using Cons.prems that sid_less_trans [of "fst x" "fst y" c] by auto
    with False show ?thesis by (auto simp: filter_empty_conv)
  qed (use Cons in simp)
qed simp

lemma filter_drop:
  assumes "distinct (map fst xs)"
  shows "filter (\<lambda>e. fst e \<notin> fst ` set (take k xs)) xs = drop k xs"
proof -
  have "filter (\<lambda>e. fst e \<notin> fst ` set (take k xs)) (take k xs @ drop k xs) = drop k xs"
  proof -
    have "fst e \<notin> fst ` set (take k xs)" if "e \<in> set (drop k xs)" for e
      using assms that by (metis append_take_drop_id disjoint_iff distinct_append image_eqI list.set_map map_append)
    then show ?thesis by (auto simp: filter_empty_conv filter_id_conv simp del: append_take_drop_id)
  qed
  then show ?thesis by simp
qed

definition older :: "stream_id \<Rightarrow> (stream_id \<times> fields) list \<Rightarrow> nat" where
  "older c xs = length (takeWhile (\<lambda>e. sid_less (fst e) c) xs)"

lemma older_take: "n \<le> older c xs \<Longrightarrow> e \<in> set (take n xs) \<Longrightarrow> sid_less (fst e) c"
  unfolding older_def
  by (metis set_takeWhileD set_take_subset_set_take subsetD takeWhile_eq_take)

lemma older_drop: "n \<le> older c xs \<Longrightarrow> older c (drop n xs) = older c xs - n"
  unfolding older_def
proof (induction xs arbitrary: n)
  case (Cons x xs)
  then show ?case by (cases n) (auto split: if_splits)
qed simp

lemma purge_batch_ok:
  assumes s: "rs_look dlq r = Some (RStream s)" "stream_ok s" and names: "purge_names dlq rp mp"
    and cut: "sid_text cutoff c"
  shows "\<exists>r' s'. purge_batch_script dlq cutoff limit rp mp r
      = (Inr (Some (min limit (older c (st_entries s)), min 1 (older c (st_entries s) - limit))), r')
    \<and> rs_look dlq r' = Some (RStream s') \<and> stream_ok s'
    \<and> st_entries s' = drop (min limit (older c (st_entries s))) (st_entries s)
    \<and> only_metadata dlq rp mp r r'"
proof -
  let ?E = "st_entries s"
  let ?n = "min limit (older c ?E)"
  have sorted: "sorted_wrt sid_less (map fst ?E)" using s(2) by (simp add: stream_ok_def)
  have rows: "take limit (filter (\<lambda>e. sid_less (fst e) c) ?E) = take ?n ?E"
    unfolding filter_prefix [OF sorted] older_def
    by (subst takeWhile_eq_take) (simp add: min.commute)
  have r1: "xrange dlq (\<lambda>i. sid_less i c) (Some limit) r = (Inr (take ?n ?E), r)"
    using s(1) rows by (simp add: xrange_def stream_at_def)
  from purge_rows_effect [OF s names, of "take ?n ?E"] obtain r' s' where
    p: "purge_rows dlq rp mp (take ?n ?E) r = (Inr (), r')" "rs_look dlq r' = Some (RStream s')" "stream_ok s'"
      "st_entries s' = filter (\<lambda>e. fst e \<notin> fst ` set (take ?n ?E)) ?E"
      "only_metadata dlq rp mp r r'" by blast
  have E': "st_entries s' = drop ?n ?E" unfolding p(4) by (rule filter_drop) (rule slog.ok_distinct [OF s(2)])
  have len: "length (take ?n ?E) = ?n" by (simp add: older_def length_takeWhile_le le_trans [OF min.cobounded2])
  have sorted': "sorted_wrt sid_less (map fst (st_entries s'))" using p(3) by (simp add: stream_ok_def)
  have "length (take 1 (filter (\<lambda>e. sid_less (fst e) c) (st_entries s'))) = min 1 (older c ?E - limit)"
  proof -
    have "length (filter (\<lambda>e. sid_less (fst e) c) (st_entries s')) = older c (drop ?n ?E)"
      unfolding filter_prefix [OF sorted'] by (simp add: older_def E')
    also have "\<dots> = older c ?E - ?n" by (rule older_drop) simp
    finally show ?thesis by (auto simp: min_def)
  qed
  then have r2: "\<exists>rem. xrange dlq (\<lambda>i. sid_less i c) (Some 1) r' = (Inr rem, r') \<and> length rem = min 1 (older c ?E - limit)"
    using p(2) by (simp add: xrange_def stream_at_def)
  have "purge_batch_script dlq cutoff limit rp mp r = (Inr (Some (?n, min 1 (older c ?E - limit))), r')"
    using r2 r1 p(1) s(1) server_sid_ok [OF cut, of r] len
    by (auto simp: purge_batch_script_def cmd_simps type_cmd_def key_type_def)
  with p E' show ?thesis by blast
qed

lemma bounded_after: "p + l \<le> n \<Longrightarrow> 0 < o' - l \<Longrightarrow> n - (p + l) \<le> o' - l \<Longrightarrow> n - p \<le> (o' :: nat)"
  by arith

text \<open>The loop: it stops, and what it removed is the oldest entries below the cutoff.\<close>

lemma purge_loop_ok:
  assumes "rs_look dlq r = Some (RStream s)" "stream_ok s" and names: "purge_names dlq rp mp"
    and cut: "sid_text cutoff c" and batch: "0 < batch" and "p \<le> m" "0 < p \<longrightarrow> hm = (0 < older c (st_entries s))" "0 < m"
  shows "\<exists>n hm' r' s'. purge_loop dlq rp mp cutoff m batch p hm r = Some (Inr (n, hm'), r')
    \<and> p \<le> n \<and> n \<le> m \<and> n - p \<le> older c (st_entries s)
    \<and> rs_look dlq r' = Some (RStream s') \<and> st_entries s' = drop (n - p) (st_entries s)
    \<and> (hm' \<longleftrightarrow> 0 < older c (st_entries s')) \<and> (hm' \<longrightarrow> n = m)
    \<and> only_metadata dlq rp mp r r'"
  using assms(1,2,6,7,8)
proof (induction "m - p" arbitrary: p hm r s rule: less_induct)
  case less
  show ?case
  proof (cases "p < m")
    case False
    with less.prems show ?thesis
      by (intro exI [of _ p] exI [of _ hm] exI [of _ r] exI [of _ s]) (simp add: purge_loop.simps)
  next
    case True
    let ?limit = "min batch (m - p)" and ?o = "older c (st_entries s)"
    let ?n = "min ?limit ?o"
    from purge_batch_ok [OF less.prems(1,2) names cut, of ?limit] obtain r1 s1 where
      b: "purge_batch_script dlq cutoff ?limit rp mp r = (Inr (Some (?n, min 1 (?o - ?limit))), r1)"
        "rs_look dlq r1 = Some (RStream s1)" "stream_ok s1" "st_entries s1 = drop ?n (st_entries s)"
        "only_metadata dlq rp mp r r1" by blast
    have o1: "older c (st_entries s1) = ?o - ?n" unfolding b(4) by (rule older_drop) simp
    show ?thesis
    proof (cases "?n < ?limit \<or> min 1 (?o - ?limit) = 0")
      case stop: True
      then have "purge_loop dlq rp mp cutoff m batch p hm r = Some (Inr (p + ?n, min 1 (?o - ?limit) \<noteq> 0), r1)"
        using True b(1) by (subst purge_loop.simps) (simp add: Let_def)
      moreover have "min 1 (?o - ?limit) = 0" "?o - ?n = 0" using stop by (auto simp: min_def split: if_splits)
      ultimately show ?thesis
        using b o1 True by (intro exI [of _ "p + ?n"] exI [of _ False] exI [of _ r1] exI [of _ s1]) auto
    next
      case go: False
      then have n: "?n = ?limit" "0 < ?limit" "0 < ?o - ?limit" using batch True by auto
      have step: "purge_loop dlq rp mp cutoff m batch p hm r = purge_loop dlq rp mp cutoff m batch (p + ?limit) True r1"
        using True b(1) n by (subst purge_loop.simps) (auto simp add: Let_def min_def)
      have "m - (p + ?limit) < m - p" "p + ?limit \<le> m" "0 < p + ?limit \<longrightarrow> True = (0 < older c (st_entries s1))"
        using n True o1 by auto
      from less.hyps [OF this(1) b(2,3) this(2,3) less.prems(5)] obtain n' hm' r' s' where
        ih: "purge_loop dlq rp mp cutoff m batch (p + ?limit) True r1 = Some (Inr (n', hm'), r')"
          "p + ?limit \<le> n'" "n' \<le> m" "n' - (p + ?limit) \<le> older c (st_entries s1)"
          "rs_look dlq r' = Some (RStream s')" "st_entries s' = drop (n' - (p + ?limit)) (st_entries s1)"
          "hm' \<longleftrightarrow> 0 < older c (st_entries s')" "hm' \<longrightarrow> n' = m"
          "only_metadata dlq rp mp r1 r'"
        by (elim exE conjE) (rule that)
      have "st_entries s' = drop (n' - p) (st_entries s)" using ih(2,6) b(4) n(1) by simp
      moreover note only_metadata_trans [OF b(5) ih(9)]
      moreover have "n' - p \<le> ?o"
        using ih(2) n(3) ih(4) [unfolded o1 n(1)] by (rule bounded_after)
      moreover have "purge_loop dlq rp mp cutoff m batch p hm r = Some (Inr (n', hm'), r')" using step ih(1) by (simp only:)
      moreover have "p \<le> n'" using ih(2) by (rule add_leD1)
      ultimately show ?thesis using ih(3,5,7,8)
        by (intro exI [of _ n'] exI [of _ hm'] exI [of _ r'] exI [of _ s'] conjI; assumption?)
    qed
  qed
qed

text \<open>The cutoff of a purge is computed in floating point: twice rounded, it is never past the
  requested time and less than one millisecond and a microsecond before it.\<close>

lemma round64_near:
  assumes "0 \<le> x" "x \<le> 4000000000000"
  shows "\<exists>v. round64 x = Fin v \<and> \<bar>v - x\<bar> \<le> x / 9000000000000000 + 1 / 1000000000000000"
proof -
  have "(4000000000000::rat) \<le> 2 ^ 1001" by simp
  with assms have "\<bar>x\<bar> \<le> 2 ^ 1001" by linarith
  from round64_close [OF this] obtain v where
    v: "round64 x = Fin v" "\<bar>v - x\<bar> \<le> (\<bar>x\<bar> * 2 powi (- 52) + 2 powi (- 1074)) / 2" by blast
  have "(2::rat) powi (- 52) \<le> 2 / 9000000000000000" "(2::rat) powi (- 1074) \<le> 2 / 1000000000000000"
    by (simp_all add: power_int_def divide_simps)
  then have "(\<bar>x\<bar> * 2 powi (- 52) + 2 powi (- 1074)) / 2 \<le> (x * (2 / 9000000000000000) + 2 / 1000000000000000) / 2"
    using assms by (intro divide_right_mono add_mono mult_left_mono mult_mono) simp_all
  also have "\<dots> = x / 9000000000000000 + 1 / 1000000000000000" by simp
  finally have "\<bar>v - x\<bar> \<le> x / 9000000000000000 + 1 / 1000000000000000" using v(2) by linarith
  with v(1) show ?thesis by blast
qed

lemma cutoff_close:
  assumes "2000000 \<le> t" "t \<le> 3900000000000000"
  shows "\<exists>ms. cutoff_of t = Inr ms \<and> 1000 * ms \<le> t \<and> t \<le> 1000 * ms + 1000 \<and> 0 \<le> ms"
proof -
  let ?x = "of_int t / 1000000 :: rat"
  have t: "2000000 \<le> (of_int t :: rat)" "(of_int t :: rat) \<le> 3900000000000000"
    using assms(1) [folded of_int_le_iff [where 'a = rat]] assms(2) [folded of_int_le_iff [where 'a = rat]] by simp_all
  then obtain v where v: "round64 ?x = Fin v" "\<bar>v - ?x\<bar> \<le> ?x / 9000000000000000 + 1 / 1000000000000000"
    using round64_near [of ?x] by auto
  from v(2) t have b: "0 \<le> v * 1000" "v * 1000 \<le> 4000000000000" by (simp_all only: abs_le_iff) linarith+
  then obtain w where w: "round64 (v * 1000) = Fin w"
      "\<bar>w - v * 1000\<bar> \<le> v * 1000 / 9000000000000000 + 1 / 1000000000000000"
    using round64_near [of "v * 1000"] by auto
  have err: "\<bar>w * 1000 - of_int t\<bar> < 1" using v(2) w(2) t b by linarith
  then have "0 \<le> w" using t by linarith
  with v(1) w(1) have "cutoff_of t = Inr \<lfloor>w\<rfloor>" by (simp add: cutoff_of_def timestamp_def fmul_def float_trunc_def)
  moreover have "1000 * (of_int \<lfloor>w\<rfloor> :: rat) < of_int t + 1" "of_int t < 1000 * (of_int \<lfloor>w\<rfloor> :: rat) + 1001"
    using err of_int_floor_le [of w] floor_correct [of w] by linarith+
  then have "(of_int (1000 * \<lfloor>w\<rfloor>) :: rat) < of_int (t + 1)" "(of_int t :: rat) < of_int (1000 * \<lfloor>w\<rfloor> + 1001)"
    by simp_all
  then have "1000 * \<lfloor>w\<rfloor> < t + 1" "t < 1000 * \<lfloor>w\<rfloor> + 1001" by (simp_all only: of_int_less_iff)
  ultimately show ?thesis using \<open>0 \<le> w\<close> by simp
qed

lemma sid_text_show:
  assumes "0 \<le> ms" "ms < 2 ^ 63"
  shows "sid_text (show_int ms @ ''-0'') (ms, 0)"
proof -
  have dig: "list_all is_digit (show_digits ms)" using assms(1) by (rule show_digits_is_digit)
  have "takeWhile is_digit (show_digits ms @ ''-0'') = show_digits ms"
    "dropWhile is_digit (show_digits ms @ ''-0'') = ''-0''"
    using dig by (simp_all add: takeWhile_append2 dropWhile_append2 list_all_iff is_digit_def)
  moreover have "show_digits ms \<noteq> []" by (subst show_digits.simps) simp
  moreover have "length (show_digits ms) \<le> 19" using length_show_digits [of ms 18] assms by simp
  ultimately show ?thesis
    using assms digits_val_show_digits [OF assms(1)]
    by (simp add: sid_text_def parse_sid_def show_int_def is_digit_def digits_val_def digit_val_def Let_def)
qed

text \<open>C21: a purge ends, is bounded and takes only the oldest. Whatever its batch size, it stops after
  deleting at most \<open>max_delete\<close> entries; the deleted ones are the first of the stream and
  none is newer than the requested time; besides the stream only replay metadata is
  deleted; and when it reports that nothing is left, every remaining entry is within one
  second of the requested time or newer.\<close>

theorem purge_removes_oldest:
  assumes "rs_look dlq r = Some (RStream s)" "stream_ok s" and "purge_names dlq rp mp" and "0 < batch" "0 < m"
    and "2000000 \<le> before" "before \<le> 3900000000000000"
  shows "\<exists>n more r' s'. purge_dlq_entries dlq rp mp before m batch r = Some (Inr (n, more), r') \<and> n \<le> m
    \<and> rs_look dlq r' = Some (RStream s') \<and> st_entries s' = drop n (st_entries s)
    \<and> (\<forall>e \<in> set (take n (st_entries s)). 1000 * fst (fst e) \<le> before)
    \<and> (more \<longrightarrow> n = m \<and> st_entries s' \<noteq> [])
    \<and> (\<not> more \<longrightarrow> (\<forall>e \<in> set (st_entries s'). before \<le> 1000 * fst (fst e) + 1000))
    \<and> only_metadata dlq rp mp r r'"
proof -
  from cutoff_close [OF assms(6,7)] obtain ms where
    ms: "cutoff_of before = Inr ms" "1000 * ms \<le> before" "before \<le> 1000 * ms + 1000" "0 \<le> ms" by blast
  let ?c = "(ms, 0) :: stream_id"
  have "ms < 2 ^ 63" using ms(2) assms(7) by simp
  note cut = sid_text_show [OF ms(4) this]
  have start: "0 < (0::nat) \<longrightarrow> False = (0 < older ?c (st_entries s))" by simp
  from purge_loop_ok [OF assms(1-3) cut assms(4) le0 start assms(5), unfolded diff_zero] obtain n more r' s' where
    run: "purge_loop dlq rp mp (show_int ms @ ''-0'') m batch 0 False r = Some (Inr (n, more), r')"
      "n \<le> m" "n \<le> older ?c (st_entries s)"
      "rs_look dlq r' = Some (RStream s')" "st_entries s' = drop n (st_entries s)"
      "more \<longleftrightarrow> 0 < older ?c (st_entries s')" "more \<longrightarrow> n = m" "only_metadata dlq rp mp r r'"
    by (elim exE conjE) (rule that)
  have result: "purge_dlq_entries dlq rp mp before m batch r = Some (Inr (n, more), r')"
    using run(1) ms(1) by (simp add: purge_dlq_entries_def)
  have "1000 * fst (fst e) \<le> before" if "e \<in> set (take n (st_entries s))" for e
    using older_take [OF run(3) that] ms(2) by (auto simp: sid_less_def)
  moreover have "before \<le> 1000 * fst (fst e) + 1000" if "\<not> more" "e \<in> set (st_entries s')" for e
  proof -
    have "sorted_wrt sid_less (map fst (st_entries s'))"
      using assms(2) unfolding run(5) by (auto simp: stream_ok_def drop_map [symmetric] intro: sorted_wrt_drop)
    from filter_prefix [OF this, of ?c] have "filter (\<lambda>e. sid_less (fst e) ?c) (st_entries s') = []"
      using run(6) that(1) by (simp add: older_def)
    with that(2) have "\<not> sid_less (fst e) ?c" by (simp add: filter_empty_conv)
    with ms(3) show ?thesis by (auto simp: sid_less_def)
  qed
  moreover have "more \<Longrightarrow> st_entries s' \<noteq> []" using run(6) by (auto simp: older_def)
  ultimately show ?thesis
    using result run(2,4,5,7,8)
    by (intro exI [of _ n] exI [of _ more] exI [of _ r'] exI [of _ s'] conjI) blast+
qed

section \<open>Examples\<close>

text \<open>A keyspace in which the sample delivery has been dead-lettered.\<close>

definition sample_evidence :: evidence where
  "sample_evidence = \<lparr>de_json = json_dumps '', '' '': '' (evidence_json (dv_fields sample_delivery)),
     de_fields = dv_fields sample_delivery, de_job = sample_job\<rparr>"

definition sample_dlq :: stream where
  "sample_dlq = \<lparr>st_entries = [((7, 0), dead_letter_fields 0 sample_delivery ''boom'')], st_last = (7, 0), st_groups = []\<rparr>"

definition sample_dead_redis :: redis where
  "sample_dead_redis = \<lparr>rs_keys = [''dlq'' \<mapsto> RStream sample_dlq], rs_now = 10\<rparr>"

lemma sample_dead_look: "rs_look k sample_dead_redis = (if k = ''dlq'' then Some (RStream sample_dlq) else None)"
  by (simp add: rs_look_def sample_dead_redis_def)

lemma sample_dlq_ok: "stream_ok sample_dlq"
  by (simp add: stream_ok_def sample_dlq_def sid_le_def)

lemma sample_evidence_decodes:
  "decode_dlq_evidence number_pydantic (dict_of (dead_letter_fields 0 sample_delivery ''boom'')) = Inr sample_evidence"
proof -
  let ?raw = "json_dumps '', '' '': '' (evidence_json (dv_fields sample_delivery))"
  have "map_of (dict_of (dead_letter_fields 0 sample_delivery ''boom'')) ''original_fields'' = Some ?raw"
    by (simp add: map_of_dict_of dead_letter_fields_def evidence_json_def)
  moreover have "json_loads ?raw = Some (evidence_json (dv_fields sample_delivery))"
    by (rule evidence_read_back) (simp add: sample_delivery_def)
  moreover have "string_dict (evidence_json (dv_fields sample_delivery)) = Some (dv_fields sample_delivery)"
    by (simp add: string_dict_def evidence_json_def sample_delivery_def)
  moreover have "parse_delivery number_pydantic \<lparr>dv_id = (0, 0), dv_fields = dv_fields sample_delivery, dv_attempt = 1\<rparr> = Inr sample_job"
    by (rule parse_delivery_dump [OF sample_job_ok sample_job_time]) (simp add: sample_delivery_def)
  ultimately show ?thesis by (simp add: decode_dlq_evidence_def sample_evidence_def)
qed

lemma sample_replay_ready:
  assumes "sid_text t (7, 0)"
  shows "replay_ready number_pydantic ''dlq'' ''jobs'' (''replay'' @ '':'' @ t) t sample_evidence [] sample_dead_redis"
  unfolding replay_ready_def
  using assms sample_dlq_ok sample_evidence_decodes
  by (auto simp: sample_dead_look key_type_def hash_at_def sample_dlq_def)

lemma sample_sid_texts: "sid_text ''7-0'' (7, 0)" "sid_text ''07-0'' (7, 0)"
  by (simp_all add: sid_text_def parse_sid_def is_digit_def digits_val_def digit_val_def Let_def)

lemma sample_evidence_time: "timestamp_ok number_pydantic (jb_enqueued_at (de_job sample_evidence))"
  using sample_job_time by (simp add: sample_evidence_def)

lemma replay_dlq_entry_once_witness:
  "\<exists>resp r1 sid fs. replay_dlq_entry number_pydantic ''dlq'' ''jobs'' ''replay'' ''7-0'' ''r1'' 1752940000000000 sample_dead_redis = (Inr resp, r1)
    \<and> rp_created resp \<and> rp_replay_count resp = 1 \<and> entries_at ''jobs'' r1 = [(sid, fs)]
    \<and> parse_delivery number_pydantic \<lparr>dv_id = sid, dv_fields = fs, dv_attempt = 1\<rparr> = Inr sample_job
    \<and> replay_dlq_entry number_pydantic ''dlq'' ''jobs'' ''replay'' ''7-0'' ''r2'' 1752940000000001 r1 = (Inl ReplayInProgress, r1)"
proof -
  have start: "entries_at ''jobs'' sample_dead_redis = []" by (simp add: entries_at_def sample_dead_look)
  have prems: "map_of [] (action_prefix ''r1'' @ ''live_stream_id'') = (None :: string option)" "replay_finished ''r1'' []"
    "count_of [] = Some 0" "(0::int) \<le> 0" "(0::int) < 10 ^ 18"
    by (simp_all add: replay_finished_def count_of_def)
  note once = replay_dlq_entry_once [OF sample_replay_ready [OF sample_sid_texts(1)] prems sample_evidence_time,
      of 1752940000000000]
  from once obtain resp r1 sid fs where
    w: "replay_dlq_entry number_pydantic ''dlq'' ''jobs'' ''replay'' ''7-0'' ''r1'' 1752940000000000 sample_dead_redis = (Inr resp, r1)"
      "rp_created resp" "rp_replay_count resp = 0 + 1" "entries_at ''jobs'' r1 = entries_at ''jobs'' sample_dead_redis @ [(sid, fs)]"
      "parse_delivery number_pydantic \<lparr>dv_id = sid, dv_fields = fs, dv_attempt = 1\<rparr> = Inr (de_job sample_evidence)"
    and other: "\<forall>rid' now'. rid' \<noteq> ''r1'' \<and> map_of [] (action_prefix rid' @ ''live_stream_id'') = (None :: string option) \<longrightarrow>
         replay_dlq_entry number_pydantic ''dlq'' ''jobs'' ''replay'' ''7-0'' rid' now' r1 = (Inl ReplayInProgress, r1)"
    by (elim exE conjE) (rule that)
  have "replay_dlq_entry number_pydantic ''dlq'' ''jobs'' ''replay'' ''7-0'' ''r2'' 1752940000000001 r1 = (Inl ReplayInProgress, r1)"
    by (rule other [rule_format]) simp
  moreover have "de_job sample_evidence = sample_job" by (simp add: sample_evidence_def)
  ultimately show ?thesis using w start by (intro exI [of _ resp] exI [of _ r1] exI [of _ sid] exI [of _ fs] conjI) (simp_all only: add_0 append_Nil)
qed

lemma replay_guard_per_spelling_witness:
  "\<exists>resp r1 resp' r2 sid sid' fs fs'. replay_dlq_entry number_pydantic ''dlq'' ''jobs'' ''replay'' ''7-0'' ''r1'' 1752940000000000 sample_dead_redis
      = (Inr resp, r1) \<and> rp_state resp = ''enqueued''
    \<and> replay_dlq_entry number_pydantic ''dlq'' ''jobs'' ''replay'' ''07-0'' ''r2'' 1752940000000000 r1 = (Inr resp', r2) \<and> rp_created resp'
    \<and> entries_at ''jobs'' r2 = [(sid, fs), (sid', fs')]"
proof -
  have "entries_at ''jobs'' sample_dead_redis = []" by (simp add: entries_at_def sample_dead_look)
  with replay_guard_per_spelling [OF sample_replay_ready [OF sample_sid_texts(1)] sample_replay_ready [OF sample_sid_texts(2)]
      _ sample_evidence_time, of "''r1''" 1752940000000000 "''r2''"]
  show ?thesis by simp
qed

lemma purge_removes_oldest_witness:
  "\<exists>n more r' s'. purge_dlq_entries ''dlq'' ''replay'' ''meta'' 2000000 5 2 sample_dead_redis = Some (Inr (n, more), r')
    \<and> rs_look ''dlq'' r' = Some (RStream s') \<and> st_entries s' = [] \<and> \<not> more"
proof -
  have names: "purge_names ''dlq'' ''replay'' ''meta''" by (simp add: purge_names_def)
  have look: "rs_look ''dlq'' sample_dead_redis = Some (RStream sample_dlq)" by (simp add: sample_dead_look)
  have nums: "0 < (2::nat)" "0 < (5::nat)" "(2000000::int) \<le> 2000000" "(2000000::int) \<le> 3900000000000000" by simp_all
  from purge_removes_oldest [OF look sample_dlq_ok names nums] obtain n more r' s' where
    w: "purge_dlq_entries ''dlq'' ''replay'' ''meta'' 2000000 5 2 sample_dead_redis = Some (Inr (n, more), r')" "n \<le> 5"
      "rs_look ''dlq'' r' = Some (RStream s')" "st_entries s' = drop n (st_entries sample_dlq)"
      "more \<longrightarrow> n = 5 \<and> st_entries s' \<noteq> []"
      "\<not> more \<longrightarrow> (\<forall>e \<in> set (st_entries s'). 2000000 \<le> 1000 * fst (fst e) + 1000)"
    by (elim exE conjE) (rule that)
  have "\<not> more" using w(4,5) by (auto simp: sample_dlq_def)
  moreover from this w(4,6) have "st_entries s' = []" by (cases n) (auto simp: sample_dlq_def)
  ultimately show ?thesis using w(1,3) by blast
qed

end
