(* ===== verification/Document_Sources.thy ===== *)
theory Document_Sources
  imports Graph_Engine
begin

text \<open>
  Where a document came from. The worker recognises a redelivered job by the
  \<open>source_idempotency_key\<close> of its document (a unique column, \<open>app/models/document.py\<close>).
  The lemmas show that the graph keeps that index: whatever a thread does, every key leads
  to the same document as before, no document is dropped, serial ids stay distinct, and the column stays
  unique.
\<close>

definition source_of :: "string \<Rightarrow> database \<Rightarrow> document option" where
  "source_of k db = List.find (\<lambda>d. doc_source_idempotency_key d = Some k) (documents db)"

definition docs_inv :: "database \<Rightarrow> bool" where
  "docs_inv db \<longleftrightarrow> distinct (map doc_id (documents db)) \<and> (\<forall>d \<in> set (documents db). doc_id d \<le> doc_seq db)
     \<and> partial_unique doc_source_idempotency_key (documents db)"

definition keeps_sources :: "database \<Rightarrow> database \<Rightarrow> bool" where
  "keeps_sources db db' \<longleftrightarrow> docs_inv db' \<and> doc_id ` set (documents db) \<subseteq> doc_id ` set (documents db')
     \<and> (\<forall>k. map_option doc_id (source_of k db') = map_option doc_id (source_of k db))"

lemma keeps_sources_same:
  "docs_inv db \<Longrightarrow> documents db' = documents db \<Longrightarrow> doc_seq db' = doc_seq db \<Longrightarrow> keeps_sources db db'"
  by (simp add: keeps_sources_def docs_inv_def source_of_def)

lemma keeps_sources_refl: "docs_inv db \<Longrightarrow> keeps_sources db db"
  by (simp add: keeps_sources_def)

lemma keeps_sources_trans: "keeps_sources db1 db2 \<Longrightarrow> keeps_sources db2 db3 \<Longrightarrow> keeps_sources db1 db3"
  unfolding keeps_sources_def by (metis order_trans)

lemma keeps_sources_inv: "keeps_sources db db' \<Longrightarrow> docs_inv db'"
  by (simp add: keeps_sources_def)

lemma find_map_same:
  assumes "\<And>x. x \<in> set xs \<Longrightarrow> P (f x) = P x" "\<And>x. x \<in> set xs \<Longrightarrow> g (f x) = g x"
  shows "map_option g (List.find P (map f xs)) = map_option g (List.find P xs)"
  using assms by (induction xs) auto

lemma put_document_sources:
  assumes inv: "docs_inv db" and d0: "get_document (doc_id d) db = Some d0"
    and key: "doc_source_idempotency_key d = doc_source_idempotency_key d0"
  shows "keeps_sources db (put_document d db)"
proof -
  have mem: "d0 \<in> set (documents db)" "doc_id d0 = doc_id d"
    using d0 by (auto simp: get_document_def dest: get_row_key)
  have dist: "distinct (map doc_id (documents db))" using inv by (simp add: docs_inv_def)
  then have same: "x = d0" if "x \<in> set (documents db)" "doc_id x = doc_id d" for x
    using that mem by (metis (full_types) distinct_map inj_onD)
  have "partial_unique doc_source_idempotency_key (set_row doc_id d (documents db))"
    by (rule partial_unique_set_row [where x = d0]) (use inv dist mem key in \<open>auto simp: docs_inv_def\<close>)
  moreover have "doc_id x \<le> doc_seq db" if "x \<in> set (set_row doc_id d (documents db))" for x
    using that inv by (auto simp: set_row_mem docs_inv_def)
  moreover have "map_option doc_id (source_of k (put_document d db)) = map_option doc_id (source_of k db)" for k
    unfolding source_of_def put_document_def set_row_def
    by (simp, rule find_map_same) (use same key in auto)
  moreover have "doc_id ` set (set_row doc_id d (documents db)) = doc_id ` set (documents db)"
    by (metis list.set_map map_key_set_row)
  ultimately show ?thesis using dist by (simp add: keeps_sources_def docs_inv_def put_document_def)
qed

lemma find_append_None: "List.find P (xs @ ys) = (case List.find P xs of None \<Rightarrow> List.find P ys | Some x \<Rightarrow> Some x)"
  by (induction xs) auto

lemma add_document_inv:
  assumes "docs_inv db" and "doc_id d = Suc (doc_seq db)"
    and "doc_source_idempotency_key d = None \<or> source_of (the (doc_source_idempotency_key d)) db = None"
  shows "docs_inv ((add_document d db)\<lparr>doc_seq := Suc (doc_seq db)\<rparr>)"
proof -
  have "doc_source_idempotency_key d = None
      \<or> doc_source_idempotency_key d \<notin> doc_source_idempotency_key ` set (documents db)"
    using assms(3) by (cases "doc_source_idempotency_key d") (auto simp: source_of_def find_None_iff image_iff)
  with assms show ?thesis
    by (auto simp: docs_inv_def add_document_def partial_unique_snoc le_Suc_eq)
qed

lemma add_document_sources:
  assumes "docs_inv db" and "doc_id d = Suc (doc_seq db)" and "doc_source_idempotency_key d = None"
  shows "keeps_sources db ((add_document d db)\<lparr>doc_seq := Suc (doc_seq db)\<rparr>)"
  using add_document_inv [OF assms(1,2)] assms(3)
  by (auto simp: keeps_sources_def source_of_def add_document_def find_append_None split: option.split)

section \<open>The services of the graph\<close>

lemma get_document_mem: "docs_inv db \<Longrightarrow> d \<in> set (documents db) \<Longrightarrow> get_document (doc_id d) db = Some d"
  by (simp add: docs_inv_def get_document_def get_row_distinct)

lemma new_document_sources:
  assumes "docs_inv db" and "new_document f t st x db = (d, db')"
  shows "keeps_sources db db'" "get_document (doc_id d) db' = Some d" "doc_source_idempotency_key d = None"
proof -
  from assms(2) have d: "doc_id d = Suc (doc_seq db)" "doc_source_idempotency_key d = None"
      "db' = (add_document d db)\<lparr>doc_seq := Suc (doc_seq db)\<rparr>"
    by (auto simp: new_document_def Let_def)
  show "keeps_sources db db'" unfolding d(3) using assms(1) d(1,2) by (rule add_document_sources)
  then have "docs_inv db'" by (rule keeps_sources_inv)
  then show "get_document (doc_id d) db' = Some d" by (rule get_document_mem) (simp add: d(3) add_document_def)
  show "doc_source_idempotency_key d = None" by (rule d(2))
qed

lemma rate_confirmation_document_sources:
  assumes inv: "docs_inv db" and run: "rate_confirmation_document rc s db = Inr (d, db')"
  shows "keeps_sources db db'"
proof -
  obtain found where found: "scalar_one_or_none (filter (is_companion_of rc) (documents db)) = Inr found"
    using run by (cases "scalar_one_or_none (filter (is_companion_of rc) (documents db))")
      (auto simp: rate_confirmation_document_def)
  show ?thesis
  proof (cases found)
    case (Some d0)
    with found have "filter (is_companion_of rc) (documents db) = [d0]"
      by (auto simp: scalar_one_or_none_def split: list.splits)
    then have "d0 \<in> set (filter (is_companion_of rc) (documents db))" by simp
    then have "get_document (doc_id d0) db = Some d0" using get_document_mem [OF inv] by simp
    with found Some run inv show ?thesis
      by (auto simp: rate_confirmation_document_def Let_def intro!: put_document_sources)
  next
    case None
    obtain d0 db0 where new: "new_document (''manual-rate-confirmation-'' @ rc_load_number rc @ ''.json'')
        ''rate_confirmation'' ''extracted'' (Some (rate_confirmation_extraction rc)) db = (d0, db0)" by fastforce
    note s = new_document_sources [OF inv new]
    from found None new run have "db' = put_document (d0\<lparr>doc_shipment_id := Some (sh_id s),
        doc_extracted_data := Some (rate_confirmation_extraction rc)\<rparr>) db0"
      by (auto simp: rate_confirmation_document_def Let_def)
    moreover have "keeps_sources db0 \<dots>"
      using keeps_sources_inv [OF s(1)] s(2) by (intro put_document_sources [of db0 _ d0]) simp_all
    ultimately show ?thesis using s(1) keeps_sources_trans by simp
  qed
qed

lemma attach_sources:
  assumes "docs_inv db" and "attach_existing_rate_confirmation s db = Inr (s', db')"
  shows "keeps_sources db db'"
  using assms
  by (auto simp: attach_existing_rate_confirmation_def Let_def keeps_sources_refl rate_confirmation_document_sources
      split: if_splits sum.splits option.splits prod.splits)

lemma insert_shipment_documents [simp]:
  "documents (insert_shipment n db) = documents db" "doc_seq (insert_shipment n db) = doc_seq db"
  by (simp_all add: insert_shipment_def fresh_uuid_def add_shipment_def Let_def)

lemma upsert_shipment_sources:
  assumes inv: "docs_inv db" "shipments_inv db" and d: "get_document i db = Some d"
    and up: "upsert_shipment lno d e db = Inr (Some s, db')"
  shows "keeps_sources db db'"
proof (rule upsert_shipment_SomeE [OF up inv(2)])
  fix n s0 s1 s2 db2
  assume s: "attach_existing_rate_confirmation s1
       (put_document (d\<lparr>doc_shipment_id := Some (sh_id s0)\<rparr>) (insert_shipment n db)) = Inr (s2, db2)"
    "db' = put_shipment s db2"
  let ?db1 = "insert_shipment n db" and ?d = "d\<lparr>doc_shipment_id := Some (sh_id s0)\<rparr>"
  have k1: "keeps_sources db ?db1" using inv(1) by (rule keeps_sources_same) simp_all
  have "get_document (doc_id d) ?db1 = Some d" using d by (auto simp: get_document_def dest: get_row_key)
  then have k2: "keeps_sources ?db1 (put_document ?d ?db1)"
    using keeps_sources_inv [OF k1] by (intro put_document_sources) simp_all
  have k3: "keeps_sources (put_document ?d ?db1) db2" using keeps_sources_inv [OF k2] s(1) by (rule attach_sources)
  have "keeps_sources db2 db'" using keeps_sources_inv [OF k3] by (rule keeps_sources_same) (simp_all add: s(2) put_shipment_def)
  with k1 k2 k3 show ?thesis using keeps_sources_trans by blast
qed

lemma reconcile_shipment_documents:
  assumes inv: "db_inv db" and ident: "evaluation_identity (Some r) None db"
    and run: "reconcile_shipment s (Some r) now sla src None db = Inr (x, t, db')"
  shows "documents db' = documents db" "doc_seq db' = doc_seq db"
proof -
  have "documents db' = documents db \<and> doc_seq db' = doc_seq db"
  proof (cases rule: reconcile_shipment_steps [OF inv ident, where s = s and now = now and sla = sla and src = src,
        case_names overflow stored])
    case overflow
    with run show ?thesis by simp
  next
    case (stored ev found r' db1 t')
    have "documents db1 = documents db" "doc_seq db1 = doc_seq db"
      using store_result_frame(1) [OF stored(3)]
      by (auto simp: same_but_results_def dest: arg_cong [where f = documents] arg_cong [where f = doc_seq])
    moreover have "db' = snd (sync_missing_document_exception t' (evn_policy ev) (rr_id r') now (put_shipment t' db1))"
      using stored(6) run by simp
    ultimately show ?thesis by (simp add: put_shipment_def)
  qed
  then show "documents db' = documents db" "doc_seq db' = doc_seq db" by simp_all
qed

lemma match_document_sources:
  assumes inv: "docs_inv db" "thread_inv (ws_run_id s) db" and run: "match_document env now s db = Inr (m, db')"
  shows "keeps_sources db db'"
  using run
proof (cases rule: match_document_cases)
  case missing
  with inv show ?thesis by (simp add: keeps_sources_refl)
next
  case (unnumbered d)
  with inv show ?thesis using upsert_shipment_None keeps_sources_refl by metis
next
  case (reconciled d t db1 r t')
  have "shipments_inv db" using inv(2) by (simp add: thread_inv_def db_inv_def)
  then have k1: "keeps_sources db db1" using inv(1) reconciled(1,2) by (intro upsert_shipment_sources)
  have "keeps_thread (ws_run_id s) db db1" using inv(2) reconciled(2) by (rule upsert_shipment_keeps)
  then have "db_inv db1" "evaluation_identity (Some (ws_run_id s)) None db1"
    by (auto simp: keeps_thread_def thread_inv_def evaluation_identity_def)
  note same = reconcile_shipment_documents [OF this reconciled(3)]
  have "keeps_sources db1 db'" using keeps_sources_inv [OF k1] same by (rule keeps_sources_same)
  with k1 show ?thesis by (rule keeps_sources_trans)
qed

lemma extract_document_sources:
  assumes inv: "docs_inv db" and run: "extract_document cfg pd cl b f (Some i) db = Inr (e, db')"
  shows "keeps_sources db db'"
proof (cases "get_document i db")
  case (Some d)
  then have "doc_id d = i" by (rule doc_store.look_rkey)
  with Some inv extract_document_cases(4) [OF run] show ?thesis
    by (auto intro!: put_document_sources simp: extracted_document_def)
next
  case None
  with inv extract_document_cases(4) [OF run] show ?thesis
    by (auto intro!: add_document_sources simp: extracted_document_def)
qed

lemma log_audit_event_sources:
  assumes "docs_inv db" and "log_audit_event r t p a db = Inr db'"
  shows "keeps_sources db db'"
  using assms(1)
proof (rule keeps_sources_same)
  show "documents db' = documents db" "doc_seq db' = doc_seq db"
    using log_audit_event_frame [OF assms(2)]
    by (auto simp: same_but_audit_def dest: arg_cong [where f = documents] arg_cong [where f = doc_seq])
qed

section \<open>The graph\<close>

lemma run_node_sources:
  assumes inv: "docs_inv db" "thread_inv (ws_run_id s) db" and run: "run_node env now n resume s db = (out, db')"
  shows "keeps_sources db db'"
proof (cases n)
  case Extract
  with run inv show ?thesis
    by (auto simp: extract_node_def keeps_sources_refl split: sum.splits prod.splits
        dest!: extract_document_sources [OF inv(1)]
        intro: keeps_sources_trans log_audit_event_sources [OF keeps_sources_inv])
next
  case Match
  with run inv show ?thesis
    by (auto simp: match_node_def keeps_sources_refl match_document_sources split: sum.splits prod.splits)
next
  case Supervisor
  with run inv show ?thesis
    by (auto simp: supervisor_node_def keeps_sources_refl split: sum.splits intro: log_audit_event_sources)
next
  case Exception
  with run inv show ?thesis
    by (auto simp: exception_node_def log_exception_raised_once_def keeps_sources_refl
        split: sum.splits option.splits if_splits intro: log_audit_event_sources)
next
  case Complete
  with run inv show ?thesis
    by (auto simp: complete_node_def Let_def keeps_sources_refl
        split: sum.splits option.splits if_splits intro: log_audit_event_sources)
qed (use run inv in \<open>auto simp: keeps_sources_refl\<close>)

lemma graph_step_sources:
  "graph_step env c c' \<Longrightarrow> docs_inv (gc_db c) \<Longrightarrow> thread_inv (ws_run_id (gc_state c)) (gc_db c) \<Longrightarrow>
   keeps_sources (gc_db c) (gc_db c')"
  by (induction rule: graph_step.induct) (auto simp: keeps_sources_refl dest: run_node_sources)

lemma graph_steps_sources:
  assumes "graph_steps env c c'" and "docs_inv (gc_db c)" and "thread_inv (ws_run_id (gc_state c)) (gc_db c)"
  shows "keeps_sources (gc_db c) (gc_db c')"
  using assms
proof (induction rule: rtranclp_induct)
  case base
  then show ?case by (simp add: keeps_sources_refl)
next
  case (step c1 c2)
  then have k1: "keeps_sources (gc_db c) (gc_db c1)" by blast
  have "thread_inv (ws_run_id (gc_state c1)) (gc_db c1)"
    using graph_steps_keep [OF step.hyps(1) step.prems(2)] keeps_thread_inv by metis
  with k1 show ?case
    using graph_step_sources [OF step.hyps(2) keeps_sources_inv [OF k1]] keeps_sources_trans by blast
qed

context graph_engine
begin

lemma invoke_sources:
  assumes call: "call_config inp (pos t cp) db \<noteq> None" and run: "eg_invoke eg inp t cp db = (r, cp', db')"
    and ok: "positions_ok pos cp db" and inv: "db_inv db" "audit_inv db" "get_run t db \<noteq> None"
    and fresh: "\<And>s. inp = Fresh s \<Longrightarrow> initial_state s \<and> ws_run_id s = t" and docs: "docs_inv db"
  shows "keeps_sources db db'"
proof -
  from call obtain c0 where c0: "call_config inp (pos t cp) db = Some c0" by blast
  note start = call_start [OF c0 ok inv fresh]
  from invoke_runs [OF c0 run] obtain c where "graph_steps env c0 c" "gc_db c = db'" by blast
  moreover have "thread_inv (ws_run_id (gc_state c0)) (gc_db c0)" using start(1) by (simp add: config_inv_def)
  ultimately show ?thesis using graph_steps_sources [of env c0 c] docs start(3) by simp
qed

end

end
