(* ===== verification/Invoice_Worker.thy ===== *)
theory Invoice_Worker
  imports Business_State Document_Sources Invoice_Queue
begin

text \<open>
  The invoice worker (\<open>app/services/invoice_worker.py\<close>): finding or creating the records of
  a job, running its thread to the next stop, storing what came of it, and settling the
  delivery in the queue. The LangGraph engine is the parameter \<open>eg\<close> with its checkpoints
  \<open>cp\<close>; what other workers commit between two statements of this one is the parameter
  \<open>interfere\<close>; the readings of the server clock at which the heartbeat fires while a job
  runs are \<open>beats\<close>. A cancelled task is a crash: it stops between two of the state changes
  and returns nothing. Log lines are left out. The loop around it is in
  \<open>Background_Tasks\<close>.
\<close>

section \<open>Runs and summaries\<close>

definition REDELIVERY_SHORT_CIRCUIT_PROCESSING_STATUSES :: "string list" where
  "REDELIVERY_SHORT_CIRCUIT_PROCESSING_STATUSES = [''complete'', ''awaiting_review'']"

definition persist_run_state ::
  "workflow_run \<Rightarrow> string \<Rightarrow> string option \<Rightarrow> string option \<Rightarrow> jdict option \<Rightarrow> bool \<Rightarrow> workflow_run" where
  "persist_run_state run status_value processing posting payload preserve_payload =
     (let run = run\<lparr>wr_status := status_value,
                    wr_processing_status := (if text_set processing then the processing else status_value)\<rparr>;
          run = (case posting of None \<Rightarrow> run | Some p \<Rightarrow> run\<lparr>wr_posting_status := p\<rparr>) in
      if preserve_payload then run else run\<lparr>wr_interrupt_payload := payload\<rparr>)"

text \<open>The flush and commit of a changed run.\<close>

definition save_run :: "workflow_run \<Rightarrow> database \<Rightarrow> database" where
  "save_run run db = put_run (touch_run run db) db"

record summary =
  sm_filename :: string
  sm_run_id :: string
  sm_status :: string
  sm_processing_status :: string
  sm_reconciliation_status :: "string option"
  sm_review_disposition :: string
  sm_posting_status :: string
  sm_carrier_name :: json
  sm_total_amount :: json
  sm_exception_reason :: json

definition summary_result ::
  "string \<Rightarrow> string \<Rightarrow> string \<Rightarrow> jdict option \<Rightarrow> json \<Rightarrow> string option \<Rightarrow> string option \<Rightarrow> string option
   \<Rightarrow> string option \<Rightarrow> summary" where
  "summary_result filename run_id status extraction exception_reason processing reconciliation review posting =
     (let extraction = (case extraction of None \<Rightarrow> [] | Some e \<Rightarrow> e);
          processing_status = (case processing of Some p \<Rightarrow> p
            | None \<Rightarrow> if status \<in> set [''approved'', ''rejected''] then ''complete'' else status);
          review_disposition = (case review of Some r \<Rightarrow> r
            | None \<Rightarrow> if status \<in> set [''approved'', ''rejected''] then status
                      else if processing_status = ''awaiting_review'' then ''pending'' else ''not_required'');
          posting_status = (case posting of Some p \<Rightarrow> p
            | None \<Rightarrow> if review_disposition = ''approved'' \<or> reconciliation = Some ''reconciled'' then ''ready_for_posting''
                      else if review_disposition = ''rejected'' then ''blocked'' else ''not_ready'') in
      \<lparr>sm_filename = filename, sm_run_id = run_id, sm_status = status, sm_processing_status = processing_status,
       sm_reconciliation_status = reconciliation, sm_review_disposition = review_disposition,
       sm_posting_status = posting_status, sm_carrier_name = dget extraction ''carrier_name'',
       sm_total_amount = dget extraction ''total_amount'', sm_exception_reason = exception_reason\<rparr>)"

section \<open>Records of a job\<close>

definition deterministic_run_id :: "string \<Rightarrow> string" where
  "deterministic_run_id idempotency_key = uuid5_url (''freight-ap:gmail:'' @ idempotency_key)"

definition find_run_for_document :: "nat \<Rightarrow> database \<Rightarrow> workflow_run option" where
  "find_run_for_document document_id db = List.find (\<lambda>r. wr_document_id r = document_id) (workflow_runs db)"

definition payload_dict :: "workflow_run \<Rightarrow> jdict" where
  "payload_dict run = (case wr_interrupt_payload run of None \<Rightarrow> [] | Some p \<Rightarrow> p)"

definition job_document :: "envelope \<Rightarrow> nat \<Rightarrow> datetime \<Rightarrow> document" where
  "job_document job i now = \<lparr>doc_id = i, doc_filename = jb_filename job, doc_doc_type = ''unknown'',
     doc_status = ''received'', doc_raw_text = None, doc_extracted_data = None, doc_source_type = Some ''gmail'',
     doc_source_idempotency_key = Some (jb_idempotency_key job), doc_source_message_id = Some (jb_message_id job),
     doc_source_part_id = Some (jb_mime_part_id job), doc_source_enqueued_at = Some (jb_enqueued_at job),
     doc_content_sha256 = Some (jb_content_sha256 job), doc_shipment_id = None, doc_created_at = now\<rparr>"

definition job_run :: "envelope \<Rightarrow> nat \<Rightarrow> nat \<Rightarrow> datetime \<Rightarrow> workflow_run" where
  "job_run job i document_id now = \<lparr>wr_id = i, wr_run_id = deterministic_run_id (jb_idempotency_key job),
     wr_document_id = document_id, wr_status = ''running'', wr_processing_status = ''running'',
     wr_posting_status = ''not_ready'',
     wr_interrupt_payload = Some [(''gmail_message_id'', JStr (jb_message_id job)),
                                  (''gmail_thread_id'', JStr (jb_gmail_thread_id job))],
     wr_created_at = now, wr_updated_at = now\<rparr>"

text \<open>The columns \<open>source_message_id\<close> and \<open>source_part_id\<close> hold at most 255 characters.\<close>

definition job_columns_fit :: "envelope \<Rightarrow> bool" where
  "job_columns_fit job \<longleftrightarrow> int (length (jb_message_id job)) \<le> 255 \<and> int (length (jb_mime_part_id job)) \<le> 255"

definition insert_job_records :: "envelope \<Rightarrow> database \<Rightarrow> (document \<times> workflow_run \<times> database) result" where
  "insert_job_records job db =
     (let i = Suc (doc_seq db); document = job_document job i (pg_now db);
          run = job_run job (Suc (run_seq db)) i (pg_now db) in
      if \<not> job_columns_fit job then Inl DataError
      else if source_of (jb_idempotency_key job) db \<noteq> None \<or> get_run (wr_run_id run) db \<noteq> None then Inl IntegrityError
      else Inr (document, run,
             (add_run run ((add_document document db)\<lparr>doc_seq := i\<rparr>))\<lparr>run_seq := Suc (run_seq db)\<rparr>))"

definition with_run ::
  "string \<Rightarrow> document \<Rightarrow> database \<Rightarrow> (document \<times> workflow_run) result" where
  "with_run message document db = (case find_run_for_document (doc_id document) db of
     None \<Rightarrow> Inl (RuntimeError message) | Some run \<Rightarrow> Inr (document, run))"

definition source_rows :: "envelope \<Rightarrow> database \<Rightarrow> document list" where
  "source_rows job db = filter (\<lambda>d. doc_source_idempotency_key d = Some (jb_idempotency_key job)) (documents db)"

definition get_or_create_job_records ::
  "(database \<Rightarrow> database) \<Rightarrow> envelope \<Rightarrow> database \<Rightarrow> (document \<times> workflow_run) result \<times> database" where
  "get_or_create_job_records interfere job db =
     (case scalar_one_or_none (source_rows job db) of
        Inl e \<Rightarrow> (Inl e, db)
      | Inr (Some document) \<Rightarrow> (with_run ''idempotent document is missing its workflow run'' document db, db)
      | Inr None \<Rightarrow>
          (let db = interfere db in
           case insert_job_records job db of
             Inr (document, run, db) \<Rightarrow> (Inr (document, run), db)
           | Inl IntegrityError \<Rightarrow>
               (case scalar_one (source_rows job db) of
                  Inl e \<Rightarrow> (Inl e, db)
                | Inr document \<Rightarrow>
                    (with_run ''concurrent document creation did not create a workflow run'' document db, db))
           | Inl e \<Rightarrow> (Inl e, db)))"

section \<open>Running a job\<close>

definition job_initial_state :: "string \<Rightarrow> nat \<Rightarrow> string \<Rightarrow> envelope \<Rightarrow> workflow_state" where
  "job_initial_state run_id document_id file_bytes job = \<lparr>ws_run_id = run_id, ws_document_id = document_id,
     ws_file_bytes = file_bytes, ws_filename = jb_filename job, ws_extraction = None, ws_match_result = None,
     ws_exception_reason = None, ws_triage_route = None, ws_triage_reasoning = None, ws_triage_confidence = None,
     ws_human_decision = None, ws_status = ''running'', ws_processing_status = Some ''running'',
     ws_posting_status = Some ''not_ready'', ws_review_disposition = None,
     ws_messages = [''Queued from Gmail message '' @ jb_message_id job @ ''.''], ws_iteration_count = 0\<rparr>"

text \<open>A thread that ended is not run again; one that stopped half way goes on from its
  checkpoint; a new one starts.\<close>

definition job_result ::
  "'c engine \<Rightarrow> string \<Rightarrow> workflow_state \<Rightarrow> 'c \<Rightarrow> database \<Rightarrow> graph_result result \<times> 'c \<times> database" where
  "job_result eg run_id initial cp db =
     (let snapshot = eg_get_state eg run_id cp in
      case sn_values snapshot of
        Some s \<Rightarrow> if \<not> sn_next snapshot then (Inr \<lparr>gr_state = s, gr_interrupt = None\<rparr>, cp, db)
                  else eg_invoke eg Continue run_id cp db
      | None \<Rightarrow> eg_invoke eg (if sn_next snapshot then Continue else Fresh initial) run_id cp db)"

definition or_default :: "string \<Rightarrow> string option \<Rightarrow> string" where
  "or_default d x = (case x of None \<Rightarrow> d | Some s \<Rightarrow> s)"

text \<open>The run as the worker stores it after a stop, and the payload merged into it.\<close>

definition review_payload_of :: "workflow_run \<Rightarrow> graph_result \<Rightarrow> jdict option" where
  "review_payload_of run result = map_option (\<lambda>p. dupdate p (payload_dict run)) (interrupt_payload result)"

definition stopped_run :: "workflow_run \<Rightarrow> graph_result \<Rightarrow> workflow_run" where
  "stopped_run run result = (case review_payload_of run result of
     Some payload \<Rightarrow> persist_run_state run ''awaiting_review'' (Some ''awaiting_review'') (Some ''not_ready'') (Some payload) False
   | None \<Rightarrow> persist_run_state run (ws_status (gr_state result))
       (Some (or_default ''complete'' (ws_processing_status (gr_state result))))
       (Some (or_default ''not_ready'' (ws_posting_status (gr_state result)))) None True)"

definition stopped_summary :: "envelope \<Rightarrow> string \<Rightarrow> workflow_run \<Rightarrow> graph_result \<Rightarrow> summary" where
  "stopped_summary job run_id run result =
     (let s = gr_state result; paused = (interrupt_payload result \<noteq> None) in
      summary_result (jb_filename job) run_id
        (if paused then ''awaiting_review'' else ws_status s) (ws_extraction s)
        (py_or (jstr_opt (ws_exception_reason s))
           (dget (case review_payload_of run result of None \<Rightarrow> [] | Some p \<Rightarrow> p) ''reason''))
        (Some (if paused then ''awaiting_review'' else or_default ''complete'' (ws_processing_status s)))
        (case ws_match_result s of None \<Rightarrow> None | Some m \<Rightarrow> mr_reconciliation_status m) None
        (Some (if paused then ''not_ready'' else or_default ''not_ready'' (ws_posting_status s))))"

definition retrying_run :: "workflow_run \<Rightarrow> workflow_run" where
  "retrying_run run = persist_run_state run ''retrying'' (Some ''retrying'') (Some ''not_ready'') None True"

definition interrupted_run :: "envelope \<Rightarrow> string \<Rightarrow> workflow_run \<Rightarrow> workflow_run" where
  "interrupted_run job message run = persist_run_state run ''retrying'' (Some ''retrying'') (Some ''not_ready'')
     (Some [(''error'', JStr message), (''gmail_message_id'', JStr (jb_message_id job)),
            (''gmail_thread_id'', JStr (jb_gmail_thread_id job))]) False"

definition redelivery_summary :: "document \<Rightarrow> workflow_run \<Rightarrow> summary" where
  "redelivery_summary document run = summary_result (doc_filename document) (wr_run_id run) (wr_status run)
     (doc_extracted_data document)
     (py_or (dget (payload_dict run) ''reason'') (dget (payload_dict run) ''error''))
     (Some (wr_processing_status run)) None None (Some (wr_posting_status run))"

text \<open>\<open>str(exc)\<close>: the message of the exceptions the sources raise; the text of the others
  is the library's, \<open>lib_text\<close>.\<close>

fun str_exc :: "(py_error \<Rightarrow> string) \<Rightarrow> py_error \<Rightarrow> string" where
  "str_exc lib (ValueError m) = m"
| "str_exc lib (TypeError m) = m"
| "str_exc lib (RuntimeError m) = m"
| "str_exc lib (ExtractionError m) = m"
| "str_exc lib (UnsupportedFileTypeError m) = m"
| "str_exc lib (PermanentJobError m) = m"
| "str_exc lib (ResponseError m) = m"
| "str_exc lib (FileNotFoundError m) = m"
| "str_exc lib e = lib e"

definition previous_error :: "workflow_run \<Rightarrow> string" where
  "previous_error run = py_str (py_or (dget (payload_dict run) ''error'') (JStr ''workflow previously failed''))"

definition run_job_thread ::
  "(py_error \<Rightarrow> string) \<Rightarrow> 'c engine \<Rightarrow> envelope \<Rightarrow> bool \<Rightarrow> string \<Rightarrow> workflow_state \<Rightarrow> 'c \<Rightarrow> database
   \<Rightarrow> summary result \<times> 'c \<times> database" where
  "run_job_thread lib eg job operator_replay run_id initial cp db =
     (case scalar_one (filter (\<lambda>r. wr_run_id r = run_id) (workflow_runs db)) of
        Inl e \<Rightarrow> (Inl e, cp, db)
      | Inr run0 \<Rightarrow>
          (let retry = (operator_replay \<and> wr_processing_status run0 = ''failed'');
               run = (if retry then touch_run (retrying_run run0) db else run0);
               db = (if retry then save_run (retrying_run run0) db else db) in
           case job_result eg run_id initial cp db of
             (Inl e, cp, db) \<Rightarrow> (Inl e, cp, save_run (interrupted_run job (str_exc lib e) run) db)
           | (Inr result, cp, db) \<Rightarrow>
               (Inr (stopped_summary job run_id run result), cp, save_run (stopped_run run result) db)))"

definition run_workflow_for_job ::
  "(py_error \<Rightarrow> string) \<Rightarrow> 'c engine \<Rightarrow> (database \<Rightarrow> database) \<Rightarrow> envelope \<Rightarrow> bool \<Rightarrow> 'c \<Rightarrow> database
   \<Rightarrow> summary result \<times> 'c \<times> database" where
  "run_workflow_for_job lib eg interfere job operator_replay cp db =
     (case get_or_create_job_records interfere job db of
        (Inl e, db) \<Rightarrow> (Inl e, cp, db)
      | (Inr (document, run), db) \<Rightarrow>
          if wr_processing_status run = ''failed'' \<and> \<not> operator_replay
          then (Inl (RuntimeError (previous_error run)), cp, db)
          else if wr_processing_status run \<in> set REDELIVERY_SHORT_CIRCUIT_PROCESSING_STATUSES
          then (Inr (redelivery_summary document run), cp, db)
          else (case decoded_file_bytes job of
              Inl e \<Rightarrow> (Inl e, cp, db)
            | Inr file_bytes \<Rightarrow>
                run_job_thread lib eg job operator_replay (wr_run_id run)
                  (job_initial_state (wr_run_id run) (doc_id document) file_bytes job) cp db))"

definition mark_job_failed :: "envelope \<Rightarrow> string \<Rightarrow> database \<Rightarrow> database result" where
  "mark_job_failed job reason db =
     (case scalar_one_or_none (source_rows job db) of
        Inl e \<Rightarrow> Inl e
      | Inr None \<Rightarrow> Inr db
      | Inr (Some document) \<Rightarrow>
          (case find_run_for_document (doc_id document) db of
             None \<Rightarrow> Inr db
           | Some run \<Rightarrow> Inr (save_run (run\<lparr>wr_status := ''failed'', wr_processing_status := ''failed'',
               wr_posting_status := ''not_ready'',
               wr_interrupt_payload := Some (dset ''error'' (JStr reason) (payload_dict run))\<rparr>) db)))"

section \<open>Settling a delivery\<close>

text \<open>The heartbeat re-claims the delivery for its own consumer, so that its idle time
  restarts; a failing claim ends the task.\<close>

fun heartbeat :: "settings \<Rightarrow> string \<Rightarrow> delivery \<Rightarrow> int list \<Rightarrow> unit cmd" where
  "heartbeat cfg consumer d [] r = (Inr (), r)"
| "heartbeat cfg consumer d (t # ts) r =
     (case xclaim_justid (INVOICE_STREAM cfg) (INVOICE_CONSUMER_GROUP cfg) consumer (dv_id d) (dv_attempt d) (r\<lparr>rs_now := t\<rparr>) of
        (Inl e, r) \<Rightarrow> (Inl e, r)
      | (Inr (), r) \<Rightarrow> heartbeat cfg consumer d ts r)"

record 'c worker =
  wk_settings :: settings
  wk_pydantic :: pydantic
  wk_lib_text :: "py_error \<Rightarrow> string"
  wk_lib_name :: "py_error \<Rightarrow> string"
  wk_engine :: "'c engine"
  wk_interfere :: "database \<Rightarrow> database"
  wk_consumer :: string

text \<open>The state a worker changes.\<close>

record 'c wstate =
  wt_cp :: 'c
  wt_db :: database
  wt_redis :: redis

definition failure_reason :: "'c worker \<Rightarrow> py_error \<Rightarrow> string" where
  "failure_reason w e = (let s = str_exc (wk_lib_text w) e in if s \<noteq> [] then s else wk_lib_name w e)"

definition dead_letter_delivery :: "'c worker \<Rightarrow> datetime \<Rightarrow> delivery \<Rightarrow> string \<Rightarrow> unit cmd" where
  "dead_letter_delivery w now d reason = (let cfg = wk_settings w in
     dead_letter (INVOICE_STREAM cfg) (INVOICE_CONSUMER_GROUP cfg) (INVOICE_DEAD_LETTER_STREAM cfg)
       (INVOICE_DLQ_REPLAY_PREFIX cfg) now d reason)"

definition on_redis :: "unit cmd \<Rightarrow> 'a \<Rightarrow> 'c wstate \<Rightarrow> 'a result \<times> 'c wstate" where
  "on_redis c x st = (case c (wt_redis st) of (Inl e, r) \<Rightarrow> (Inl e, st\<lparr>wt_redis := r\<rparr>) | (Inr _, r) \<Rightarrow> (Inr x, st\<lparr>wt_redis := r\<rparr>))"

text \<open>The \<open>except Exception\<close> branch: the last attempt is given up, an earlier one leaves the
  delivery pending for a later claim.\<close>

definition job_failed :: "'c worker \<Rightarrow> datetime \<Rightarrow> delivery \<Rightarrow> envelope \<Rightarrow> py_error \<Rightarrow> 'c wstate
    \<Rightarrow> summary option result \<times> 'c wstate" where
  "job_failed w now d job e st =
     (let cfg = wk_settings w; reason = failure_reason w e in
      if INVOICE_MAX_ATTEMPTS cfg \<le> int (dv_attempt d) then
        (case mark_job_failed job reason (wt_db st) of
           Inl e \<Rightarrow> (Inl e, st)
         | Inr db \<Rightarrow>
             on_redis (dead_letter_delivery w now d reason)
               (Some (summary_result (jb_filename job) (deterministic_run_id (jb_idempotency_key job)) ''failed'' None
                        (JStr reason) None None None None)) (st\<lparr>wt_db := db\<rparr>))
      else on_redis (record_failure (INVOICE_METADATA_PREFIX cfg) (INVOICE_DLQ_REPLAY_PREFIX cfg) now d reason) None st)"

text \<open>The job under its heartbeat. The \<open>finally\<close> clause awaits the heartbeat task, so an
  error of the heartbeat is raised there, whatever the job did.\<close>

definition run_delivery :: "'c worker \<Rightarrow> datetime \<Rightarrow> int list \<Rightarrow> delivery \<Rightarrow> envelope \<Rightarrow> 'c wstate
    \<Rightarrow> summary option result \<times> 'c wstate" where
  "run_delivery w now beats d job st =
     (let cfg = wk_settings w in
      case run_workflow_for_job (wk_lib_text w) (wk_engine w) (wk_interfere w) job (replay_context d \<noteq> None)
             (wt_cp st) (wt_db st) of
        (res, cp, db) \<Rightarrow>
          (case heartbeat cfg (wk_consumer w) d beats (wt_redis st) of
             (beat, r) \<Rightarrow>
               (let st = \<lparr>wt_cp = cp, wt_db = db, wt_redis = r\<rparr>;
                    (out, st) = (case res of Inl e \<Rightarrow> job_failed w now d job e st | Inr s \<Rightarrow> (Inr (Some s), st)) in
                case beat of
                  Inl e \<Rightarrow> (Inl e, st)
                | Inr _ \<Rightarrow>
                    (case res of
                       Inl _ \<Rightarrow> (out, st)
                     | Inr s \<Rightarrow>
                         on_redis (acknowledge (INVOICE_STREAM cfg) (INVOICE_CONSUMER_GROUP cfg) (INVOICE_DLQ_REPLAY_PREFIX cfg)
                                     now d (Some (sm_processing_status s))) (Some s) st))))"

definition process_delivery :: "'c worker \<Rightarrow> datetime \<Rightarrow> int list \<Rightarrow> delivery \<Rightarrow> 'c wstate
    \<Rightarrow> summary option result \<times> 'c wstate" where
  "process_delivery w now beats d st =
     (let cfg = wk_settings w in
      case parse_delivery (wk_pydantic w) d of
        Inl (PermanentJobError m) \<Rightarrow>
          on_redis (dead_letter_delivery w now d m)
            (Some (summary_result ''unknown'' [] ''failed'' None (JStr m) None None None None)) st
      | Inl e \<Rightarrow> (Inl e, st)
      | Inr job \<Rightarrow>
          if replay_context d \<noteq> None then
            (case record_replay_processing (INVOICE_DLQ_REPLAY_PREFIX cfg) now d (wt_redis st) of
               (Inl e, r) \<Rightarrow> (Inl e, st\<lparr>wt_redis := r\<rparr>)
             | (Inr _, r) \<Rightarrow> run_delivery w now beats d job (st\<lparr>wt_redis := r\<rparr>))
          else run_delivery w now beats d job st)"

text \<open>A batch: an error of one delivery is logged and does not touch the others. The
  deliveries of a batch are taken one after the other here.\<close>

fun process_batch :: "'c worker \<Rightarrow> (delivery \<Rightarrow> datetime \<times> int list) \<Rightarrow> delivery list \<Rightarrow> 'c wstate
    \<Rightarrow> summary list \<times> 'c wstate" where
  "process_batch w clock [] st = ([], st)"
| "process_batch w clock (d # ds) st =
     (case process_delivery w (fst (clock d)) (snd (clock d)) d st of
        (out, st) \<Rightarrow> (case process_batch w clock ds st of
           (summaries, st) \<Rightarrow> ((case out of Inr (Some s) \<Rightarrow> [s] | _ \<Rightarrow> []) @ summaries, st)))"

end
