(* ===== verification/Worker_Safety.thy ===== *)
theory Worker_Safety
  imports Invoice_Worker
begin

text \<open>
  What the worker guarantees. Its invariant joins those of the tables, the document index
  and the checkpoints; every job keeps it, however it ends. A job that stopped is not run
  again when its delivery comes back, a job that crashed after its thread had ended is
  completed without running the thread again, two workers that create the same records
  agree on them, and a delivery is always settled as the abstract life cycle allows.
\<close>

section \<open>The invariant\<close>

text \<open>Every document of the queue has a run, and every run a document.\<close>

definition sourced :: "database \<Rightarrow> bool" where
  "sourced db \<longleftrightarrow> (\<forall>d \<in> set (documents db). doc_source_idempotency_key d \<noteq> None \<longrightarrow>
       find_run_for_document (doc_id d) db \<noteq> None)
     \<and> wr_document_id ` set (workflow_runs db) \<subseteq> doc_id ` set (documents db)"

definition worker_inv :: "(string \<Rightarrow> 'c \<Rightarrow> thread_pos option) \<Rightarrow> 'c \<Rightarrow> database \<Rightarrow> bool" where
  "worker_inv pos cp db \<longleftrightarrow> service_inv db \<and> docs_inv db \<and> positions_ok pos cp db \<and> sourced db"

lemma worker_invD:
  assumes "worker_inv pos cp db"
  shows "service_inv db" "docs_inv db" "positions_ok pos cp db" "sourced db" "db_inv db" "audit_inv db" "runs_inv db"
  using assms by (simp_all add: worker_inv_def service_inv_def)

lemma find_map: "(\<And>x. x \<in> set xs \<Longrightarrow> P (f x) = P x) \<Longrightarrow> List.find P (map f xs) = map_option f (List.find P xs)"
  by (induction xs) auto

lemma find_run_get:
  assumes "runs_inv db" and "find_run_for_document i db = Some run"
  shows "get_run (wr_run_id run) db = Some run" "wr_document_id run = i"
proof -
  have "run \<in> set (workflow_runs db)" "wr_document_id run = i"
    using assms(2) by (auto simp: find_run_for_document_def find_Some_iff)
  then show "get_run (wr_run_id run) db = Some run" "wr_document_id run = i"
    using assms(1) by (auto simp: get_run_def runs_inv_def intro: get_row_distinct)
qed

lemma find_source:
  assumes "docs_inv db"
  shows "scalar_one_or_none (source_rows job db) = Inr (source_of (jb_idempotency_key job) db)"
  using assms by (simp add: source_rows_def source_of_def docs_inv_def partial_unique_find)

lemma source_of_mem: "source_of k db = Some d \<Longrightarrow> d \<in> set (documents db) \<and> doc_source_idempotency_key d = Some k"
  by (auto simp: source_of_def find_Some_iff)

lemma sourced_run:
  assumes "sourced db" and "source_of k db = Some d"
  obtains run where "find_run_for_document (doc_id d) db = Some run"
  using source_of_mem [OF assms(2)] assms(1) that unfolding sourced_def by fastforce

section \<open>Saving a run\<close>

lemma save_run_frame [simp]:
  "documents (save_run r db) = documents db" "doc_seq (save_run r db) = doc_seq db"
  "review_decisions (save_run r db) = review_decisions db"
  by (simp_all add: save_run_def put_run_def)

lemma source_of_save_run [simp]: "source_of k (save_run r db) = source_of k db"
  by (simp add: source_of_def)

lemma get_run_save_run:
  "get_run i (save_run r db) = (if i = wr_run_id r \<and> get_run i db \<noteq> None then Some (touch_run r db) else get_run i db)"
  by (simp add: save_run_def get_run_put_run)

lemma find_run_save_run:
  assumes "runs_inv db" and "get_run (wr_run_id r) db = Some r0" and "wr_document_id r = wr_document_id r0"
  shows "find_run_for_document i (save_run r db) =
    map_option (\<lambda>x. if wr_run_id x = wr_run_id r then touch_run r db else x) (find_run_for_document i db)"
proof -
  have "x = r0" if "x \<in> set (workflow_runs db)" "wr_run_id x = wr_run_id r" for x
    using assms(1,2) that by (auto simp: runs_inv_def get_run_def dest: get_row_distinct)
  then show ?thesis
    unfolding find_run_for_document_def save_run_def put_run_frame set_row_def touch_run_simps
    by (intro find_map) (use assms(3) in auto)
qed

lemma save_run_documents:
  assumes "runs_inv db" and "get_run (wr_run_id r) db = Some r0" and "wr_document_id r = wr_document_id r0"
  shows "map wr_document_id (workflow_runs (save_run r db)) = map wr_document_id (workflow_runs db)"
proof -
  have "x = r0" if "x \<in> set (workflow_runs db)" "wr_run_id x = wr_run_id r" for x
    using assms(1,2) that by (auto simp: runs_inv_def get_run_def dest: get_row_distinct)
  then show ?thesis using assms(3) by (simp add: save_run_def set_row_def)
qed

lemma same_tables_save_run: "same_tables db (save_run r db)"
  by (simp add: same_tables_def save_run_def get_run_put_run)

lemma service_inv_save_run:
  assumes inv: "service_inv db" and none: "get_decision (wr_run_id r) db = None"
  shows "service_inv (save_run r db)"
proof -
  note i = service_invD [OF inv]
  have "db_inv (save_run r db)" using i(1) same_tables_save_run by (rule db_inv_same_tables)
  moreover have "audit_inv (save_run r db)"
    using i(2) same_tables_save_run by (rule audit_inv_same_rows) (simp_all add: save_run_def)
  moreover have "runs_inv (save_run r db)"
  proof -
    have other: "rd_run_id d \<noteq> wr_run_id r" if "d \<in> set (review_decisions db)" for d
      using none that by (metis get_decision_def get_row_None_iff image_eqI)
    have "map wr_run_id (workflow_runs (save_run r db)) = map wr_run_id (workflow_runs db)" by (simp add: save_run_def)
    then show ?thesis using i(3) other unfolding runs_inv_def by (auto simp: get_run_save_run)
  qed
  ultimately show ?thesis by (simp add: service_inv_def)
qed

lemma docs_inv_save_run: "docs_inv db \<Longrightarrow> docs_inv (save_run r db)"
  by (simp add: docs_inv_def)

lemma worker_inv_save_run:
  assumes inv: "worker_inv pos cp db" and none: "get_decision (wr_run_id r) db = None"
    and r0: "get_run (wr_run_id r) db = Some r0" "wr_document_id r = wr_document_id r0"
  shows "worker_inv pos cp (save_run r db)"
proof -
  note i = worker_invD [OF inv]
  have "positions_ok pos cp (save_run r db)" using i(3) by (rule positions_ok_mono) (simp add: get_run_save_run)
  moreover have "wr_document_id ` set (workflow_runs (save_run r db)) = wr_document_id ` set (workflow_runs db)"
    using save_run_documents [OF i(7) r0] by (metis list.set_map)
  then have "sourced (save_run r db)" using i(4) by (simp add: sourced_def find_run_save_run [OF i(7) r0])
  ultimately show ?thesis
    using service_inv_save_run [OF i(1) none] docs_inv_save_run [OF i(2)] by (simp add: worker_inv_def)
qed

lemma undecided:
  assumes "runs_inv db" and "get_run i db = Some run" and "wr_processing_status run \<noteq> ''complete''"
  shows "get_decision i db = None"
proof (rule ccontr)
  assume "get_decision i db \<noteq> None"
  then obtain dec where "get_decision i db = Some dec" by blast
  with assms(1) obtain r where "get_run i db = Some r" "decided_ok dec r" by (rule runs_inv_decision)
  with assms(2,3) show False by (simp add: decided_ok_def)
qed

section \<open>The records of a job\<close>

text \<open>What is committed between two statements of a worker keeps the invariant, and neither
  drops a run nor touches the checkpoints of this worker's threads.\<close>

definition rely :: "(string \<Rightarrow> 'c \<Rightarrow> thread_pos option) \<Rightarrow> (database \<Rightarrow> database) \<Rightarrow> bool" where
  "rely pos interfere \<longleftrightarrow> (\<forall>cp db. worker_inv pos cp db \<longrightarrow> worker_inv pos cp (interfere db))"

lemma insert_job_records_cases:
  assumes "insert_job_records job db = Inr (d, run, db')"
  shows "source_of (jb_idempotency_key job) db = None" "get_run (wr_run_id run) db = None"
    "d = job_document job (Suc (doc_seq db)) (pg_now db)" "run = job_run job (Suc (run_seq db)) (doc_id d) (pg_now db)"
    "documents db' = documents db @ [d]" "doc_seq db' = Suc (doc_seq db)" "workflow_runs db' = workflow_runs db @ [run]"
    "review_decisions db' = review_decisions db" "audit_logs db' = audit_logs db" "audit_seq db' = audit_seq db"
    "same_tables db db'"
proof -
  from assms show d: "source_of (jb_idempotency_key job) db = None" "get_run (wr_run_id run) db = None"
    "d = job_document job (Suc (doc_seq db)) (pg_now db)" "run = job_run job (Suc (run_seq db)) (doc_id d) (pg_now db)"
    "documents db' = documents db @ [d]" "doc_seq db' = Suc (doc_seq db)" "workflow_runs db' = workflow_runs db @ [run]"
    "review_decisions db' = review_decisions db" "audit_logs db' = audit_logs db" "audit_seq db' = audit_seq db"
    by (auto simp: insert_job_records_def Let_def add_document_def add_run_def job_document_def job_run_def split: if_splits)
  have "get_run r db \<noteq> None \<Longrightarrow> get_run r db' \<noteq> None" for r
    by (auto simp: get_run_def d(7) get_row_append)
  with assms show "same_tables db db'"
    by (auto simp: same_tables_def insert_job_records_def Let_def add_document_def add_run_def split: if_splits)
qed

text \<open>A new document and its run keep the invariant.\<close>

lemma added_records_inv:
  assumes inv: "worker_inv pos cp db" and id: "doc_id d = Suc (doc_seq db)"
    and key: "doc_source_idempotency_key d = None \<or> source_of (the (doc_source_idempotency_key d)) db = None"
    and run: "wr_document_id run = doc_id d" "get_run (wr_run_id run) db = None"
    and db': "documents db' = documents db @ [d]" "doc_seq db' = Suc (doc_seq db)" "workflow_runs db' = workflow_runs db @ [run]"
      "review_decisions db' = review_decisions db" "audit_logs db' = audit_logs db" "audit_seq db' = audit_seq db"
      "same_tables db db'"
  shows "worker_inv pos cp db'" "find_run_for_document (doc_id d) db' = Some run"
proof -
  note i = worker_invD [OF inv]
  have runs: "get_run j db' = (case get_run j db of Some r \<Rightarrow> Some r | None \<Rightarrow> if j = wr_run_id run then Some run else None)" for j
    by (simp add: get_run_def db'(3) get_row_append eq_commute split: option.split)
  have "db_inv db'" using i(5) db'(7) by (rule db_inv_same_tables)
  moreover have "audit_inv db'" using i(6) db'(7,5,6) by (rule audit_inv_same_rows)
  moreover have "runs_inv db'"
  proof -
    have "wr_run_id run \<notin> wr_run_id ` set (workflow_runs db)" using run(2) by (simp add: get_run_def get_row_None_iff)
    moreover have "\<exists>r. get_run (rd_run_id x) db' = Some r \<and> decided_ok x r" if "x \<in> set (review_decisions db)" for x
      using i(7) that by (auto simp: runs_inv_def runs split: option.split)
    ultimately show ?thesis using i(7) by (simp add: runs_inv_def db'(3,4))
  qed
  moreover have docs: "docs_inv db'"
    using add_document_inv [OF i(2) id key] by (simp add: docs_inv_def add_document_def db'(1,2))
  moreover have "positions_ok pos cp db'" using i(3) by (rule positions_ok_mono) (auto simp: runs)
  moreover have new: "find_run_for_document (doc_id d) db' \<noteq> None"
    using run(1) by (auto simp: find_run_for_document_def db'(3) find_append_None split: option.split)
  moreover have "sourced db'"
    using i(4) new run(1) by (auto simp: sourced_def db'(1,3) find_run_for_document_def find_append_None split: option.splits)
  ultimately show "worker_inv pos cp db'" by (simp add: worker_inv_def service_inv_def)
  have "find_run_for_document (doc_id d) db = None"
  proof (rule ccontr)
    assume "find_run_for_document (doc_id d) db \<noteq> None"
    then obtain run' where "find_run_for_document (doc_id d) db = Some run'" by blast
    then have "run' \<in> set (workflow_runs db)" "wr_document_id run' = doc_id d"
      by (auto simp: find_run_for_document_def find_Some_iff)
    then have "doc_id d \<in> wr_document_id ` set (workflow_runs db)" by (metis image_eqI)
    then obtain d' where "d' \<in> set (documents db)" "doc_id d' = doc_id d" using i(4) by (auto simp: sourced_def)
    with i(2) id show False by (auto simp: docs_inv_def)
  qed
  then show "find_run_for_document (doc_id d) db' = Some run"
    using run(1) by (simp add: find_run_for_document_def db'(3) find_append_None)
qed

lemma insert_job_records_inv:
  assumes inv: "worker_inv pos cp db" and ins: "insert_job_records job db = Inr (d, run, db')"
  shows "worker_inv pos cp db'" "source_of (jb_idempotency_key job) db' = Some d"
    "find_run_for_document (doc_id d) db' = Some run"
proof -
  note c = insert_job_records_cases [OF ins]
  have ids: "doc_id d = Suc (doc_seq db)" "doc_source_idempotency_key d = Some (jb_idempotency_key job)"
    "wr_document_id run = doc_id d" by (simp_all add: c(3,4) job_document_def job_run_def)
  have key: "doc_source_idempotency_key d = None \<or> source_of (the (doc_source_idempotency_key d)) db = None"
    using ids(2) c(1) by simp
  show "worker_inv pos cp db'" "find_run_for_document (doc_id d) db' = Some run"
    using added_records_inv [OF inv ids(1) key ids(3) c(2,5-11)] by auto
  show "source_of (jb_idempotency_key job) db' = Some d"
    using c(1) ids(2) by (simp add: source_of_def c(5) find_append_None)
qed

lemma scalar_one_unique:
  "distinct (map key t) \<Longrightarrow>
   scalar_one (filter (\<lambda>r. key r = k) t) = (case get_row key k t of None \<Rightarrow> Inl NoResultFound | Some r \<Rightarrow> Inr r)"
  by (simp add: distinct_filter_unique scalar_one_def split: option.splits)

lemma scalar_one_source:
  assumes "docs_inv db"
  shows "scalar_one (source_rows job db) =
    (case source_of (jb_idempotency_key job) db of None \<Rightarrow> Inl NoResultFound | Some d \<Rightarrow> Inr d)"
  using find_source [OF assms, of job, symmetric]
  by (auto simp: scalar_one_def scalar_one_or_none_def split: list.splits)

lemma get_or_create_known:
  assumes inv: "worker_inv pos cp db" and d: "source_of (jb_idempotency_key job) db = Some d"
    and run: "find_run_for_document (doc_id d) db = Some run"
  shows "get_or_create_job_records interfere job db = (Inr (d, run), db)"
  using find_source [OF worker_invD(2) [OF inv], of job] d run
  by (simp add: get_or_create_job_records_def with_run_def)

lemma get_or_create_new:
  assumes inv: "worker_inv pos cp db" "worker_inv pos cp (interfere db)"
    and none: "source_of (jb_idempotency_key job) db = None"
  shows "get_or_create_job_records interfere job db = (case insert_job_records job (interfere db) of
       Inr (d, run, db') \<Rightarrow> (Inr (d, run), db')
     | Inl IntegrityError \<Rightarrow> (case source_of (jb_idempotency_key job) (interfere db) of
           None \<Rightarrow> (Inl NoResultFound, interfere db)
         | Some d \<Rightarrow> (with_run ''concurrent document creation did not create a workflow run'' d (interfere db), interfere db))
     | Inl e \<Rightarrow> (Inl e, interfere db))"
  using find_source [OF worker_invD(2) [OF inv(1)], of job] scalar_one_source [OF worker_invD(2) [OF inv(2)], of job] none
  by (auto simp: get_or_create_job_records_def Let_def split: sum.splits option.splits py_error.splits)

lemma get_or_create_inv:
  assumes inv: "worker_inv pos cp db" and rely: "rely pos interfere"
    and get: "get_or_create_job_records interfere job db = (r, db')"
  shows "worker_inv pos cp db'"
    "r = Inr (d, run) \<Longrightarrow> source_of (jb_idempotency_key job) db' = Some d \<and> find_run_for_document (doc_id d) db' = Some run"
    "r = Inl e \<Longrightarrow> job_columns_fit job \<Longrightarrow> source_of (jb_idempotency_key job) db' = None"
proof -
  have inv': "worker_inv pos cp (interfere db)" using inv rely by (simp add: rely_def)
  have "worker_inv pos cp db' \<and> (\<forall>d run. r = Inr (d, run) \<longrightarrow>
     source_of (jb_idempotency_key job) db' = Some d \<and> find_run_for_document (doc_id d) db' = Some run)
     \<and> (isl r \<and> job_columns_fit job \<longrightarrow> source_of (jb_idempotency_key job) db' = None)"
  proof (cases "source_of (jb_idempotency_key job) db")
    case (Some d)
    obtain run where "find_run_for_document (doc_id d) db = Some run"
      using worker_invD(4) [OF inv] Some by (rule sourced_run)
    with get_or_create_known [OF inv Some] get inv Some show ?thesis by auto
  next
    case none: None
    note new = get_or_create_new [of pos cp db interfere, OF inv inv' none]
    show ?thesis
    proof (cases "insert_job_records job (interfere db)")
      case (Inl e)
      then have e: "job_columns_fit job \<Longrightarrow> e = IntegrityError"
        by (auto simp: insert_job_records_def Let_def split: if_splits)
      show ?thesis
      proof (cases "source_of (jb_idempotency_key job) (interfere db)")
        case None
        with Inl new get inv' show ?thesis by (auto split: py_error.splits)
      next
        case (Some d)
        obtain run where "find_run_for_document (doc_id d) (interfere db) = Some run"
          using worker_invD(4) [OF inv'] Some by (rule sourced_run)
        with Some Inl new get inv' e show ?thesis by (auto simp: with_run_def split: py_error.splits)
      qed
    next
      case (Inr x)
      obtain d run db1 where "x = (d, run, db1)" by (cases x)
      with Inr new get insert_job_records_inv [OF inv' Inr [unfolded \<open>x = _\<close>]] show ?thesis by auto
    qed
  qed
  then show "worker_inv pos cp db'"
    "r = Inr (d, run) \<Longrightarrow> source_of (jb_idempotency_key job) db' = Some d \<and> find_run_for_document (doc_id d) db' = Some run"
    "r = Inl e \<Longrightarrow> job_columns_fit job \<Longrightarrow> source_of (jb_idempotency_key job) db' = None"
    by simp_all
qed

section \<open>The thread of a job\<close>

lemma worker_inv_same_runs:
  assumes inv: "worker_inv pos cp db" and db': "service_inv db'" "positions_ok pos cp' db'" "same_runs db db'"
    and keep: "keeps_sources db db'"
  shows "worker_inv pos cp' db'"
proof -
  note i = worker_invD [OF inv]
  have find: "find_run_for_document j db' = find_run_for_document j db" for j
    using db'(3) by (simp add: find_run_for_document_def same_runs_def)
  have docs: "docs_inv db'" using keep by (rule keeps_sources_inv)
  have "find_run_for_document (doc_id d) db' \<noteq> None"
    if d: "d \<in> set (documents db')" "doc_source_idempotency_key d = Some k" for d k
  proof -
    have "source_of k db' = Some d" using docs d by (simp add: source_of_def docs_inv_def partial_unique_find_mem)
    then have "map_option doc_id (source_of k db) = Some (doc_id d)"
      using keep [unfolded keeps_sources_def] by (metis option.simps(9))
    then obtain d0 where "source_of k db = Some d0" "doc_id d0 = doc_id d" by auto
    with sourced_run [OF i(4)] find show ?thesis by (metis option.distinct(1))
  qed
  moreover have "wr_document_id ` set (workflow_runs db') \<subseteq> doc_id ` set (documents db')"
    using i(4) keep db'(3) unfolding sourced_def keeps_sources_def same_runs_def by (metis order_trans)
  ultimately have "sourced db'" unfolding sourced_def by blast
  with db'(1,2) docs show ?thesis by (simp add: worker_inv_def)
qed

lemma job_result_cases:
  assumes eng: "graph_engine env eg pos" and res: "job_result eg i s cp db = (r, cp', db')"
  obtains (ended) p where "pos i cp = Some p" "tp_next p = None"
      "r = Inr \<lparr>gr_state = tp_state p, gr_interrupt = None\<rparr>" "cp' = cp" "db' = db"
  | (invoked) inp where "eg_invoke eg inp i cp db = (r, cp', db')" "call_config inp (pos i cp) db \<noteq> None"
      "inp = Continue \<or> inp = Fresh s"
proof (cases "pos i cp")
  case None
  with res graph_engine.get_state [OF eng, of i cp] show thesis
    by (intro invoked [of "Fresh s"]) (simp_all add: job_result_def)
next
  case (Some p)
  with res graph_engine.get_state [OF eng, of i cp] show thesis
    by (cases "tp_next p") (auto simp: job_result_def intro: ended invoked [of Continue])
qed

lemma job_result_keeps:
  assumes eng: "graph_engine env eg pos" and inv: "worker_inv pos cp db" and run: "get_run i db \<noteq> None"
    and s: "initial_state s" "ws_run_id s = i" and res: "job_result eg i s cp db = (r, cp', db')"
  shows "worker_inv pos cp' db'" "same_runs db db'" "keeps_sources db db'"
    "r = Inr x \<Longrightarrow> (if gr_interrupt x = None then finished_ok (gr_state x) else unfinished (gr_state x))"
proof -
  note i = worker_invD [OF inv]
  have "worker_inv pos cp' db' \<and> same_runs db db' \<and> keeps_sources db db'
     \<and> (\<forall>x. r = Inr x \<longrightarrow> (if gr_interrupt x = None then finished_ok (gr_state x) else unfinished (gr_state x)))"
    using eng res
  proof (cases rule: job_result_cases)
    case (ended p)
    with i(3) have "node_inv None (tp_state p)" unfolding positions_ok_def by metis
    with ended inv i(2) show ?thesis by (simp add: keeps_sources_refl)
  next
    case (invoked inp)
    have fresh: "initial_state s' \<and> ws_run_id s' = i" if "inp = Fresh s'" for s' using that invoked(3) s by auto
    note k = graph_engine.invoke_keeps [OF eng invoked(2,1) i(3,5,6) run fresh]
    have src: "keeps_sources db db'"
      by (rule graph_engine.invoke_sources [OF eng invoked(2,1) i(3,5,6) run fresh i(2)])
    have "service_inv db'" using i(1) k(1-3) by (rule service_inv_same_runs)
    with k src worker_inv_same_runs [OF inv] show ?thesis by simp
  qed
  then show "worker_inv pos cp' db'" "same_runs db db'" "keeps_sources db db'"
    "r = Inr x \<Longrightarrow> (if gr_interrupt x = None then finished_ok (gr_state x) else unfinished (gr_state x))"
    by simp_all
qed

section \<open>A job\<close>

lemma persist_run_state_simps [simp]:
  "wr_run_id (persist_run_state run st pr po pl keep) = wr_run_id run"
  "wr_document_id (persist_run_state run st pr po pl keep) = wr_document_id run"
  "wr_status (persist_run_state run st pr po pl keep) = st"
  "wr_processing_status (persist_run_state run st (Some p) po pl keep) = (if p = [] then st else p)"
  "wr_posting_status (persist_run_state run st pr (Some q) pl keep) = q"
  by (auto simp: persist_run_state_def Let_def text_set_def split: option.split)

text \<open>The run and the tables as the thread finds them: the operator's replay of a failed run
  sets it to retrying first.\<close>

definition retry_run :: "bool \<Rightarrow> workflow_run \<Rightarrow> database \<Rightarrow> workflow_run" where
  "retry_run replay run db =
     (if replay \<and> wr_processing_status run = ''failed'' then touch_run (retrying_run run) db else run)"

definition retry_db :: "bool \<Rightarrow> workflow_run \<Rightarrow> database \<Rightarrow> database" where
  "retry_db replay run db =
     (if replay \<and> wr_processing_status run = ''failed'' then save_run (retrying_run run) db else db)"

lemma run_job_thread_eq:
  assumes "runs_inv db" and "get_run i db = Some run"
  shows "run_job_thread lib eg job replay i s cp db =
    (case job_result eg i s cp (retry_db replay run db) of
       (Inl e, cp, db') \<Rightarrow> (Inl e, cp, save_run (interrupted_run job (str_exc lib e) (retry_run replay run db)) db')
     | (Inr result, cp, db') \<Rightarrow> (Inr (stopped_summary job i (retry_run replay run db) result), cp,
          save_run (stopped_run (retry_run replay run db) result) db'))"
  using assms
  by (cases "replay \<and> wr_processing_status run = ''failed''")
    (simp_all add: run_job_thread_def scalar_one_unique runs_inv_def get_run_def Let_def retry_db_def retry_run_def
      split: prod.split sum.split del: de_Morgan_conj)

lemma run_id_of: "get_run i db = Some run \<Longrightarrow> wr_run_id run = i"
  unfolding get_run_def by (drule get_row_key) simp

lemma retry_facts:
  assumes inv: "worker_inv pos cp db" and run: "get_run i db = Some run" "wr_processing_status run \<noteq> ''complete''"
  shows "worker_inv pos cp (retry_db replay run db)" "get_run i (retry_db replay run db) = Some (retry_run replay run db)"
    "wr_run_id (retry_run replay run db) = i" "wr_document_id (retry_run replay run db) = wr_document_id run"
    "wr_processing_status (retry_run replay run db) \<noteq> ''complete''" "documents (retry_db replay run db) = documents db"
    "find_run_for_document j db = Some run \<Longrightarrow> find_run_for_document j (retry_db replay run db) = Some (retry_run replay run db)"
proof -
  note i = worker_invD [OF inv] and id = run_id_of [OF run(1)]
  have none: "get_decision (wr_run_id run) db = None" using undecided [OF i(7) run] id by simp
  have r: "wr_run_id (retrying_run run) = wr_run_id run" "wr_document_id (retrying_run run) = wr_document_id run"
      "wr_processing_status (retrying_run run) = ''retrying''"
    by (simp_all add: retrying_run_def)
  have get: "get_run (wr_run_id (retrying_run run)) db = Some run" using run(1) id r by simp
  show "worker_inv pos cp (retry_db replay run db)"
    using worker_inv_save_run [OF inv _ get r(2)] none inv by (simp add: retry_db_def r)
  show "get_run i (retry_db replay run db) = Some (retry_run replay run db)"
    "wr_run_id (retry_run replay run db) = i" "wr_document_id (retry_run replay run db) = wr_document_id run"
    "wr_processing_status (retry_run replay run db) \<noteq> ''complete''" "documents (retry_db replay run db) = documents db"
    using run id by (simp_all add: retry_db_def retry_run_def get_run_save_run r)
  show "find_run_for_document j (retry_db replay run db) = Some (retry_run replay run db)"
    if "find_run_for_document j db = Some run"
    using that by (simp add: retry_db_def retry_run_def find_run_save_run [OF i(7) get r(2)] r)
qed

text \<open>What saving the outcome of a thread leaves: the run, and nothing else of the invariant.\<close>

lemma saved_outcome:
  assumes inv: "worker_inv pos cp db" and run: "get_run i db = Some run" "wr_processing_status run \<noteq> ''complete''"
    and r: "wr_run_id r = wr_run_id run" "wr_document_id r = wr_document_id run"
  shows "worker_inv pos cp (save_run r db)"
    "find_run_for_document j db = Some run \<Longrightarrow> find_run_for_document j (save_run r db) = Some (touch_run r db)"
proof -
  note i = worker_invD [OF inv] and id = run_id_of [OF run(1)]
  have get: "get_run (wr_run_id r) db = Some run" using run(1) id r(1) by simp
  have "get_decision (wr_run_id r) db = None" using undecided [OF i(7) run] id r(1) by simp
  then show "worker_inv pos cp (save_run r db)" using get r(2) by (rule worker_inv_save_run [OF inv])
  show "find_run_for_document j (save_run r db) = Some (touch_run r db)" if "find_run_for_document j db = Some run"
    using that by (simp add: find_run_save_run [OF i(7) get r(2)] r(1))
qed

lemma find_same_runs: "same_runs db db' \<Longrightarrow> find_run_for_document j db' = find_run_for_document j db"
  by (simp add: find_run_for_document_def same_runs_def)

lemma job_initial_state_simps:
  "initial_state (job_initial_state i j b job)" "ws_run_id (job_initial_state i j b job) = i"
  by (simp_all add: initial_state_def job_initial_state_def)

lemma stopped_run_ids [simp]:
  "wr_run_id (stopped_run run x) = wr_run_id run" "wr_document_id (stopped_run run x) = wr_document_id run"
  "wr_run_id (interrupted_run job m run) = wr_run_id run"
  "wr_document_id (interrupted_run job m run) = wr_document_id run"
  by (auto simp: stopped_run_def interrupted_run_def split: option.split)

lemma run_job_thread_inv:
  assumes eng: "graph_engine env eg pos" and inv: "worker_inv pos cp db"
    and run: "get_run i db = Some run" "wr_processing_status run \<noteq> ''complete''" "find_run_for_document j db = Some run"
    and out: "run_job_thread lib eg job replay i (job_initial_state i k b job) cp db = (out, cp', db')"
  shows "worker_inv pos cp' db'" "keeps_sources db db'"
    "out = Inr s \<Longrightarrow> \<exists>x run1 db0. find_run_for_document j db' = Some (touch_run (stopped_run run1 x) db0)
       \<and> s = stopped_summary job i run1 x \<and> wr_run_id run1 = i
       \<and> (if gr_interrupt x = None then finished_ok (gr_state x) else unfinished (gr_state x))"
    "out = Inl e \<Longrightarrow> \<exists>run'. find_run_for_document j db' = Some run' \<and> wr_processing_status run' = ''retrying''"
proof -
  let ?db1 = "retry_db replay run db" and ?run1 = "retry_run replay run db"
  note i = worker_invD [OF inv] and t = retry_facts [OF inv run(1,2), where replay = replay]
  obtain r cp1 db1 where res: "job_result eg i (job_initial_state i k b job) cp ?db1 = (r, cp1, db1)" by (metis prod_cases3)
  have "get_run i ?db1 \<noteq> None" using t(2) by simp
  note k = job_result_keeps [OF eng t(1) this job_initial_state_simps res]
  have get: "get_run i db1 = Some ?run1" "find_run_for_document j db1 = Some ?run1"
    using t(2) t(7) [OF run(3)] get_run_same_runs [OF k(2)] find_same_runs [OF k(2)] by simp_all
  note sv = saved_outcome [OF k(1) get(1) t(5)]
  have "keeps_sources db ?db1" using i(2) t(6) by (rule keeps_sources_same) (simp add: retry_db_def)
  then have src: "keeps_sources db db1" using k(3) by (rule keeps_sources_trans)
  have save: "keeps_sources db (save_run y db1)" for y
    using src keeps_sources_same [OF keeps_sources_inv [OF src]] by (rule keeps_sources_trans) simp_all
  note eq = run_job_thread_eq [OF i(7) run(1), of lib eg job replay "job_initial_state i k b job" cp, unfolded res out]
  show "worker_inv pos cp' db'" "keeps_sources db db'"
    using eq sv(1) [of "stopped_run ?run1 _"] sv(1) [of "interrupted_run job _ ?run1"] save by (auto split: sum.splits)
  show "\<exists>x run1 db0. find_run_for_document j db' = Some (touch_run (stopped_run run1 x) db0)
       \<and> s = stopped_summary job i run1 x \<and> wr_run_id run1 = i
       \<and> (if gr_interrupt x = None then finished_ok (gr_state x) else unfinished (gr_state x))" if "out = Inr s"
  proof -
    from that eq obtain x where x: "r = Inr x" "s = stopped_summary job i ?run1 x" "db' = save_run (stopped_run ?run1 x) db1"
      by (auto split: sum.splits)
    have "find_run_for_document j db' = Some (touch_run (stopped_run ?run1 x) db1)"
      using sv(2) [OF _ _ get(2), of "stopped_run ?run1 x"] by (simp add: x(3))
    with x k(4) [OF x(1)] t(3) show ?thesis by blast
  qed
  show "\<exists>run'. find_run_for_document j db' = Some run' \<and> wr_processing_status run' = ''retrying''" if "out = Inl e"
  proof -
    from that eq have "db' = save_run (interrupted_run job (str_exc lib e) ?run1) db1" by (auto split: sum.splits)
    then show ?thesis using sv(2) [OF _ _ get(2), of "interrupted_run job (str_exc lib e) ?run1"] by (simp add: interrupted_run_def)
  qed
qed

text \<open>A job, case by case.\<close>

lemma run_workflow_for_job_cases:
  assumes inv: "worker_inv pos cp db" and rely: "rely pos interfere"
    and out: "run_workflow_for_job lib eg interfere job replay cp db = (out, cp', db')"
  obtains (no_records) e where "out = Inl e" "cp' = cp" "worker_inv pos cp db'"
      "job_columns_fit job \<Longrightarrow> source_of (jb_idempotency_key job) db' = None"
  | (settled) d run where "source_of (jb_idempotency_key job) db' = Some d" "find_run_for_document (doc_id d) db' = Some run"
      "worker_inv pos cp db'" "cp' = cp" "wr_processing_status run \<in> {''failed'', ''complete'', ''awaiting_review''}"
      "out = (if wr_processing_status run = ''failed'' then Inl (RuntimeError (previous_error run))
              else Inr (redelivery_summary d run))"
  | (undecodable) e d run where "out = Inl e" "cp' = cp" "worker_inv pos cp db'" "source_of (jb_idempotency_key job) db' = Some d"
      "find_run_for_document (doc_id d) db' = Some run" "wr_processing_status run \<noteq> ''complete''"
  | (ran) d run db1 b where "get_or_create_job_records interfere job db = (Inr (d, run), db1)" "worker_inv pos cp db1"
      "source_of (jb_idempotency_key job) db1 = Some d" "find_run_for_document (doc_id d) db1 = Some run"
      "get_run (wr_run_id run) db1 = Some run" "wr_processing_status run \<notin> {''complete'', ''awaiting_review''}"
      "wr_processing_status run = ''failed'' \<longrightarrow> replay" "decoded_file_bytes job = Inr b"
      "run_job_thread lib eg job replay (wr_run_id run) (job_initial_state (wr_run_id run) (doc_id d) b job) cp db1
         = (out, cp', db')"
proof -
  obtain r db1 where get: "get_or_create_job_records interfere job db = (r, db1)" by fastforce
  note g = get_or_create_inv [OF inv rely get]
  show thesis
  proof (cases r)
    case (Inl e)
    with get out g(1) g(3) [OF Inl] show thesis by (intro no_records [of e]) (auto simp: run_workflow_for_job_def)
  next
    case (Inr x)
    then obtain d run where r: "r = Inr (d, run)" by (cases x) auto
    note rows = g(2) [OF r]
    show thesis
    proof (cases "(wr_processing_status run = ''failed'' \<and> \<not> replay) \<or> wr_processing_status run \<in> {''complete'', ''awaiting_review''}")
      case True
      with get r out g(1) rows show thesis
        by (intro settled [of d run])
          (auto simp: run_workflow_for_job_def REDELIVERY_SHORT_CIRCUIT_PROCESSING_STATUSES_def split: if_splits)
    next
      case go: False
      show thesis
      proof (cases "decoded_file_bytes job")
        case (Inl e)
        with go get r out g(1) rows show thesis
          by (intro undecodable [of e d run])
            (auto simp: run_workflow_for_job_def REDELIVERY_SHORT_CIRCUIT_PROCESSING_STATUSES_def split: if_splits)
      next
        case (Inr b)
        with go get r out g(1) rows find_run_get(1) [OF worker_invD(7) [OF g(1)]] show thesis
          by (intro ran [of d run db1 b])
            (auto simp: run_workflow_for_job_def REDELIVERY_SHORT_CIRCUIT_PROCESSING_STATUSES_def split: if_splits)
      qed
    qed
  qed
qed

lemma job_inv:
  assumes eng: "graph_engine env eg pos" and inv: "worker_inv pos cp db" and rely: "rely pos interfere"
    and out: "run_workflow_for_job lib eg interfere job replay cp db = (out, cp', db')"
  shows "worker_inv pos cp' db'"
  using inv rely out
proof (cases rule: run_workflow_for_job_cases)
  case (ran d run db1 b)
  have "wr_processing_status run \<noteq> ''complete''" using ran(6) by simp
  then show ?thesis using run_job_thread_inv(1) [OF eng ran(2,5) _ ran(4,9)] by blast
qed simp_all

text \<open>C27: whatever a job does and however it ends, an error or a crash of the graph included, the invariant of
  the service holds afterwards: the tables, the audit trail, the runs and their decisions, the unique document
  of every queued attachment with its run, and the checkpoints.\<close>

theorem job_keeps_invariant:
  assumes "graph_engine env eg pos" and "worker_inv pos cp db" and "rely pos interfere"
    and "run_workflow_for_job lib eg interfere job replay cp db = (out, cp', db')"
  shows "worker_inv pos cp' db'"
  using assms by (rule job_inv)

lemma stopped_agree:
  assumes "if gr_interrupt x = None then finished_ok (gr_state x) else unfinished (gr_state x)"
  shows "sm_run_id (stopped_summary job i run x) = i" "sm_status (stopped_summary job i run x) = wr_status (stopped_run run x)"
    "sm_processing_status (stopped_summary job i run x) = wr_processing_status (stopped_run run x)"
    "sm_posting_status (stopped_summary job i run x) = wr_posting_status (stopped_run run x)"
    "wr_processing_status (stopped_run run x) \<in> {''failed'', ''complete'', ''awaiting_review''}"
  using assms
  by (auto simp: stopped_summary_def stopped_run_def summary_result_def review_payload_of_def interrupt_payload_def Let_def
      finished_ok_def or_default_def split: option.splits)

lemma redelivery_agrees:
  "sm_run_id (redelivery_summary d run) = wr_run_id run" "sm_status (redelivery_summary d run) = wr_status run"
  "sm_processing_status (redelivery_summary d run) = wr_processing_status run"
  "sm_posting_status (redelivery_summary d run) = wr_posting_status run"
  by (simp_all add: redelivery_summary_def summary_result_def Let_def)

lemma settled_again:
  assumes inv: "worker_inv pos cp0 db" and d: "source_of (jb_idempotency_key job) db = Some d"
    and run: "find_run_for_document (doc_id d) db = Some run"
      "wr_processing_status run \<in> {''failed'', ''complete'', ''awaiting_review''}"
    and replay: "wr_processing_status run \<noteq> ''failed'' \<or> \<not> replay"
  shows "run_workflow_for_job lib eg interfere job replay cp db =
    (if wr_processing_status run = ''failed'' then Inl (RuntimeError (previous_error run))
     else Inr (redelivery_summary d run), cp, db)"
  using get_or_create_known [OF inv d run(1), of interfere] run(2) replay
  by (auto simp: run_workflow_for_job_def REDELIVERY_SHORT_CIRCUIT_PROCESSING_STATUSES_def)

text \<open>C24: a job that returned is settled. The stored run agrees with the summary, in one of the states
  failed, complete or awaiting review; and when its delivery comes back, to any worker and however often, nothing is
  run and nothing changes: the worker answers the same run, status and posting status, or, for a failed one that no
  operator replays, raises the stored error again.\<close>

theorem redelivery_settled:
  assumes eng: "graph_engine env (eg :: 'c engine) pos" and inv: "worker_inv pos cp db" and rely: "rely pos interfere"
    and out: "run_workflow_for_job lib eg interfere job replay cp db = (Inr s, cp', db')"
  shows "\<exists>d run. source_of (jb_idempotency_key job) db' = Some d \<and> find_run_for_document (doc_id d) db' = Some run
    \<and> sm_run_id s = wr_run_id run \<and> sm_status s = wr_status run \<and> sm_processing_status s = wr_processing_status run
    \<and> sm_posting_status s = wr_posting_status run
    \<and> wr_processing_status run \<in> {''failed'', ''complete'', ''awaiting_review''}
    \<and> (\<forall>lib' (eg' :: 'c engine) interfere' replay' cp''. wr_processing_status run \<noteq> ''failed'' \<or> \<not> replay' \<longrightarrow>
         run_workflow_for_job lib' eg' interfere' job replay' cp'' db' =
           (if wr_processing_status run = ''failed'' then Inl (RuntimeError (previous_error run))
            else Inr (redelivery_summary d run), cp'', db'))"
  using inv rely out
proof (cases rule: run_workflow_for_job_cases)
  case (settled d run)
  have again: "wr_processing_status run \<noteq> ''failed'' \<or> \<not> replay' \<Longrightarrow>
         run_workflow_for_job lib' eg' interfere' job replay' cp'' db' =
           (if wr_processing_status run = ''failed'' then Inl (RuntimeError (previous_error run))
            else Inr (redelivery_summary d run), cp'', db')" for lib' and eg' :: "'c engine" and interfere' replay' cp''
    by (rule settled_again [OF settled(3,1,2,5)])
  from settled(6) have "s = redelivery_summary d run" by (auto split: if_splits)
  then have "sm_run_id s = wr_run_id run" "sm_status s = wr_status run" "sm_processing_status s = wr_processing_status run"
    "sm_posting_status s = wr_posting_status run" by (simp_all add: redelivery_agrees)
  then show ?thesis
    by (intro exI [of _ d] exI [of _ run] conjI allI impI) (rule settled(1,2,5) again | assumption)+
next
  case (ran d run0 db1 b)
  have nc: "wr_processing_status run0 \<noteq> ''complete''" using ran(6) by simp
  note t = run_job_thread_inv [OF eng ran(2,5) nc ran(4,9)]
  from t(3) [OF refl] obtain x run1 db0 where x: "find_run_for_document (doc_id d) db' = Some (touch_run (stopped_run run1 x) db0)"
      "s = stopped_summary job (wr_run_id run0) run1 x" "wr_run_id run1 = wr_run_id run0"
      "if gr_interrupt x = None then finished_ok (gr_state x) else unfinished (gr_state x)" by blast
  define run where "run = touch_run (stopped_run run1 x) db0"
  have "map_option doc_id (source_of (jb_idempotency_key job) db') = Some (doc_id d)"
    using t(2) ran(3) by (simp add: keeps_sources_def)
  then obtain d' where d': "source_of (jb_idempotency_key job) db' = Some d'" "doc_id d' = doc_id d" by auto
  have find: "find_run_for_document (doc_id d') db' = Some run" using x(1) by (simp add: d' run_def)
  note agree = stopped_agree(1-4) [OF x(4), where job = job and i = "wr_run_id run0" and run = run1, folded x(2)]
    stopped_agree(5) [OF x(4), of run1]
  have st: "wr_processing_status run \<in> {''failed'', ''complete'', ''awaiting_review''}" using agree(5) by (simp add: run_def)
  have again: "wr_processing_status run \<noteq> ''failed'' \<or> \<not> replay' \<Longrightarrow>
         run_workflow_for_job lib' eg' interfere' job replay' cp'' db' =
           (if wr_processing_status run = ''failed'' then Inl (RuntimeError (previous_error run))
            else Inr (redelivery_summary d' run), cp'', db')" for lib' and eg' :: "'c engine" and interfere' replay' cp''
    by (rule settled_again [OF t(1) d'(1) find st])
  have "sm_run_id s = wr_run_id run" "sm_status s = wr_status run" "sm_processing_status s = wr_processing_status run"
    "sm_posting_status s = wr_posting_status run" using agree x(3) by (simp_all add: run_def)
  then show ?thesis
    by (intro exI [of _ d'] exI [of _ run] conjI allI impI) (rule d'(1) find st again | assumption)+
qed simp_all

section \<open>Two workers, one job\<close>

text \<open>C26: two workers that create the records of the same job agree. Let the second one look up, insert and commit
  between the lookup and the insert of the first: the first then answers exactly what the second did, the same document
  and run or the same error, and adds nothing to the tables.\<close>

theorem concurrent_creation_agrees:
  assumes inv: "worker_inv pos cp db" and rely: "rely pos interfere"
  shows "get_or_create_job_records (\<lambda>db. snd (get_or_create_job_records interfere job db)) job db
    = get_or_create_job_records interfere job db"
proof (cases "source_of (jb_idempotency_key job) db")
  case (Some d)
  obtain run where "find_run_for_document (doc_id d) db = Some run" using worker_invD(4) [OF inv] Some by (rule sourced_run)
  with get_or_create_known [OF inv Some] show ?thesis by simp
next
  case none: None
  have inv1: "worker_inv pos cp (interfere db)" using inv rely by (simp add: rely_def)
  obtain r db' where get: "get_or_create_job_records interfere job db = (r, db')" by fastforce
  have inv2: "worker_inv pos cp (snd (get_or_create_job_records interfere job db))"
    using get_or_create_inv(1) [OF inv rely get] by (simp add: get)
  note one = get_or_create_new [of pos cp db interfere, OF inv inv1 none]
  note two = get_or_create_new [of pos cp db "\<lambda>db. snd (get_or_create_job_records interfere job db)", OF inv inv2 none]
  show ?thesis
  proof (cases "insert_job_records job (interfere db)")
    case (Inl e)
    then have "db' = interfere db" using one get by (auto split: py_error.splits option.splits)
    then have "snd (get_or_create_job_records interfere job db) = interfere db" by (simp add: get)
    with two show ?thesis by (simp only: one [symmetric])
  next
    case (Inr x)
    obtain d run db1 where x: "x = (d, run, db1)" by (cases x)
    note ins = insert_job_records_inv [OF inv1 Inr [unfolded x]]
    have db': "db' = db1" "r = Inr (d, run)" using one get Inr x by simp_all
    have "insert_job_records job db1 = Inl IntegrityError"
      using Inr ins(2) by (auto simp: insert_job_records_def Let_def split: if_splits)
    then show ?thesis using two get ins(2,3) by (simp add: db' with_run_def)
  qed
qed

section \<open>A crash before the outcome is stored\<close>

lemma logged_after:
  "log_audit_event i t p a db = Inr db' \<Longrightarrow> list_ex (\<lambda>a. al_run_id a = i \<and> al_event_type a = t) (audit_logs db')"
  by (auto simp: log_audit_event_def Let_def split: if_splits)

lemma raised_again:
  "log_exception_raised_once i s db = Inr db' \<Longrightarrow> log_exception_raised_once i s db' = Inr db'"
  unfolding log_exception_raised_once_def by (auto split: if_splits dest: logged_after)

lemma paused_again:
  assumes "run_graph env now k c0 = (Paused p, c)"
  shows "run_graph env now' (Suc j) c = (Paused p, c)"
proof -
  have "\<forall>p. fst r = Paused p \<longrightarrow> run_graph env now' (Suc j) (snd r) = (Paused p, snd r)"
    if "r = run_graph env now k c0" for r
    unfolding that
  proof (rule run_graph_induct [where P = "\<lambda>k c r. \<forall>p. fst r = Paused p \<longrightarrow> run_graph env now' (Suc j) (snd r) = (Paused p, snd r)"],
      goal_cases)
    case int: (4 i c n p db)
    then have n: "n = Exception"
      by (cases n) (auto simp: extract_node_def match_node_def supervisor_node_def complete_node_def Let_def
          split: sum.splits option.splits if_splits prod.splits)
    with int(2) have c: "gc_resume c = None" "p = review_payload (gc_state c)"
        "log_exception_raised_once (ws_run_id (gc_state c)) (gc_state c) (gc_db c) = Inr db"
      by (auto simp: exception_node_def split: sum.splits option.splits)
    from c(3) have "log_exception_raised_once (ws_run_id (gc_state c)) (gc_state c) db = Inr db"
      by (rule raised_again)
    then have "run_node env now' Exception (gc_resume (c\<lparr>gc_db := db\<rparr>)) (gc_state (c\<lparr>gc_db := db\<rparr>)) (gc_db (c\<lparr>gc_db := db\<rparr>))
        = (Interrupted p, db)" using c(1,2) by (simp add: exception_node_def)
    with run_graph_one [of "c\<lparr>gc_db := db\<rparr>" Exception env now' _ db j] int(1) n show ?case by simp
  qed simp_all
  with assms show ?thesis by fastforce
qed

lemma graph_result_eq: "x = \<lparr>gr_state = gr_state x, gr_interrupt = gr_interrupt x\<rparr>"
  by simp

text \<open>A thread that stopped, run again from its checkpoint, stops at once where it was.\<close>

lemma job_result_again:
  assumes eng: "exact_engine env eg pos now" and res: "job_result eg i s cp db = (Inr x, cp1, db1)"
  shows "\<exists>cp2. job_result eg i s' cp1 db1 = (Inr x, cp2, db1) \<and> (\<forall>t. pos t cp2 = pos t cp1)"
proof -
  have eng': "graph_engine env eg pos" using eng by (simp add: exact_engine_def)
  note get = graph_engine.get_state [OF eng', of i]
  from eng' res show ?thesis
  proof (cases rule: job_result_cases)
    case (ended p)
    with get [of cp] show ?thesis by (intro exI [of _ cp]) (simp add: job_result_def)
  next
    case (invoked inp)
    from invoked(2) obtain c0 where "call_config inp (pos i cp) db = Some c0" by blast
    from exact_engine.invoke_exact [OF eng this invoked(1)] obtain e c where
      c: "run_graph env now 25 c0 = (e, c)" "pos i cp1 = Some (config_pos c)" "gc_db c = db1" "reports e c (Inr x)" by blast
    show ?thesis
    proof (cases e)
      case Finished
      then have "gc_next c = None" using run_graph_end [OF c(1)] by simp
      with c(2,4) Finished get [of cp1] show ?thesis
        by (intro exI [of _ cp1]) (simp add: job_result_def config_pos_def)
    next
      case (Paused p)
      then have nx: "gc_next c \<noteq> None" using run_graph_end [OF c(1)] by simp
      obtain r2 cp2 db2 where call: "eg_invoke eg Continue i cp1 db1 = (r2, cp2, db2)" by (metis prod_cases3)
      have c': "call_config Continue (pos i cp1) db1 = Some c" using c(2,3) by (auto simp: pos_config_def config_pos_def)
      have "run_graph env now 25 c = (Paused p, c)" using paused_again [of env now 25 c0 p c now 24] c(1) Paused by simp
      with exact_engine.invoke_exact [OF eng c' call] have "pos i cp2 = Some (config_pos c)" "db2 = db1" "r2 = Inr x"
        using c(3,4) Paused by auto
      moreover have "pos t cp2 = pos t cp1" for t
        using graph_engine.invoke_others [OF eng' call, of t] c(2) \<open>pos i cp2 = _\<close> by (cases "t = i") simp_all
      ultimately show ?thesis
        using call get [of cp1] c(2) nx by (intro exI [of _ cp2]) (simp add: job_result_def config_pos_def)
    qed (use c(4) in simp_all)
  qed
qed

text \<open>What a worker leaves that dies after its thread has stopped and before it has stored the outcome.\<close>

definition crashed_job ::
  "'c engine \<Rightarrow> (database \<Rightarrow> database) \<Rightarrow> envelope \<Rightarrow> bool \<Rightarrow> 'c \<Rightarrow> database \<Rightarrow> (graph_result result \<times> 'c \<times> database) option" where
  "crashed_job eg interfere job replay cp db =
     (case get_or_create_job_records interfere job db of
        (Inl e, db) \<Rightarrow> None
      | (Inr (d, run), db) \<Rightarrow>
          if wr_processing_status run = ''failed'' \<and> \<not> replay
            \<or> wr_processing_status run \<in> set REDELIVERY_SHORT_CIRCUIT_PROCESSING_STATUSES then None
          else (case decoded_file_bytes job of
              Inl e \<Rightarrow> None
            | Inr b \<Rightarrow> Some (job_result eg (wr_run_id run) (job_initial_state (wr_run_id run) (doc_id d) b job) cp
                              (retry_db replay run db))))"

text \<open>C25: a crash between the end of a thread and the commit of its outcome costs nothing. When the delivery comes
  back, the worker that takes it over answers the summary and leaves the tables exactly as the first one would have,
  for a thread that finished as for one that paused for review, and every checkpoint stays where it was.\<close>

theorem crash_before_save_equivalent:
  assumes eng: "exact_engine env eg pos now" and inv: "worker_inv pos cp db" and rely: "rely pos interfere"
    and crash: "crashed_job eg interfere job replay cp db = Some (Inr x, cp1, db1)"
  shows "\<exists>s db' cp2. run_workflow_for_job lib eg interfere job replay cp db = (Inr s, cp1, db')
    \<and> run_workflow_for_job lib eg interfere' job replay' cp1 db1 = (Inr s, cp2, db') \<and> (\<forall>t. pos t cp2 = pos t cp1)"
proof -
  have eng': "graph_engine env eg pos" using eng by (simp add: exact_engine_def)
  from crash obtain d run db0 b where
    get: "get_or_create_job_records interfere job db = (Inr (d, run), db0)"
    and st: "wr_processing_status run = ''failed'' \<longrightarrow> replay" "wr_processing_status run \<noteq> ''complete''"
      "wr_processing_status run \<noteq> ''awaiting_review''" and b: "decoded_file_bytes job = Inr b"
    and res: "job_result eg (wr_run_id run) (job_initial_state (wr_run_id run) (doc_id d) b job) cp (retry_db replay run db0)
        = (Inr x, cp1, db1)"
    by (auto simp: crashed_job_def REDELIVERY_SHORT_CIRCUIT_PROCESSING_STATUSES_def
        split: prod.splits sum.splits if_splits)
  note g = get_or_create_inv [OF inv rely get] and rows = get_or_create_inv(2) [OF inv rely get refl]
  let ?i = "wr_run_id run" and ?run1 = "retry_run replay run db0"
  have run: "get_run ?i db0 = Some run" using rows find_run_get(1) [OF worker_invD(7) [OF g(1)]] by blast
  note t = retry_facts [OF g(1) run st(2), where replay = replay]
  have "get_run ?i (retry_db replay run db0) \<noteq> None" using t(2) by simp
  note k = job_result_keeps [OF eng' t(1) this job_initial_state_simps res]
  have first: "run_workflow_for_job lib eg interfere job replay cp db
      = (Inr (stopped_summary job ?i ?run1 x), cp1, save_run (stopped_run ?run1 x) db1)"
    using get st b res
    by (simp add: run_workflow_for_job_def REDELIVERY_SHORT_CIRCUIT_PROCESSING_STATUSES_def
        run_job_thread_eq [OF worker_invD(7) [OF g(1)] run])
  have "map_option doc_id (source_of (jb_idempotency_key job) db1) = Some (doc_id d)"
    using k(3) rows t(6) by (simp add: keeps_sources_def source_of_def)
  then obtain d' where d': "source_of (jb_idempotency_key job) db1 = Some d'" "doc_id d' = doc_id d" by auto
  have find: "find_run_for_document (doc_id d') db1 = Some ?run1" "get_run ?i db1 = Some ?run1"
    using t(2,7) rows find_same_runs [OF k(2)] get_run_same_runs [OF k(2)] by (simp_all add: d')
  note get2 = get_or_create_known [OF k(1) d'(1) find(1), of interfere']
  have st2: "wr_processing_status ?run1 \<noteq> ''failed''" "wr_processing_status ?run1 \<noteq> ''complete''"
      "wr_processing_status ?run1 \<noteq> ''awaiting_review''"
    using st by (auto simp: retry_run_def retrying_run_def)
  then have same: "retry_run replay' ?run1 db1 = ?run1" "retry_db replay' ?run1 db1 = db1"
    by (simp_all add: retry_run_def retry_db_def)
  obtain cp2 where again: "job_result eg ?i (job_initial_state ?i (doc_id d') b job) cp1 db1 = (Inr x, cp2, db1)"
      "\<forall>t. pos t cp2 = pos t cp1" using job_result_again [OF eng res] by blast
  have "run_workflow_for_job lib eg interfere' job replay' cp1 db1
      = (Inr (stopped_summary job ?i ?run1 x), cp2, save_run (stopped_run ?run1 x) db1)"
    using get2 st2 b again(1) t(3) same
    by (simp add: run_workflow_for_job_def REDELIVERY_SHORT_CIRCUIT_PROCESSING_STATUSES_def
        run_job_thread_eq [OF worker_invD(7) [OF k(1)] find(2)])
  with first again(2) show ?thesis by blast
qed

section \<open>A concrete job\<close>

definition sample_job_id :: string where
  "sample_job_id = deterministic_run_id (jb_idempotency_key sample_job)"

definition sample_job_document :: document where
  "sample_job_document = job_document sample_job 1 0"

definition sample_job_run :: workflow_run where
  "sample_job_run = job_run sample_job 1 1 0"

definition sample_job_db :: database where
  "sample_job_db = (fresh_database 0)\<lparr>documents := [sample_job_document], workflow_runs := [sample_job_run],
     doc_seq := 1, run_seq := 1\<rparr>"

definition sample_job_state :: workflow_state where
  "sample_job_state = (job_initial_state sample_job_id 1 ''x'' sample_job)\<lparr>ws_status := ''complete'',
     ws_processing_status := Some ''complete''\<rparr>"

definition sample_job_cp :: checkpoints where
  "sample_job_cp = [sample_job_id \<mapsto> \<lparr>tp_next = None, tp_resume = None, tp_state = sample_job_state\<rparr>]"

lemma sample_insert:
  "insert_job_records sample_job (fresh_database 0) = Inr (sample_job_document, sample_job_run, sample_job_db)"
proof -
  have "job_columns_fit sample_job" by (simp add: job_columns_fit_def sample_job_def)
  then show ?thesis
    by (simp add: insert_job_records_def source_of_def get_run_def fresh_database_def sample_job_document_def
        sample_job_run_def sample_job_db_def add_document_def add_run_def Let_def)
qed

lemma fresh_worker_inv: "worker_inv model_pos Map.empty (fresh_database 0)"
  by (simp add: worker_inv_def service_inv_def runs_inv_def docs_inv_def sourced_def positions_ok_def model_pos_def
      audit_inv_def db_inv_def shipments_inv_def exceptions_inv_def results_inv_def results_constraints_def
      partial_unique_def fresh_database_def inj_replicate)

lemma sample_sources:
  "source_of (jb_idempotency_key sample_job) sample_job_db = Some sample_job_document"
  "find_run_for_document (doc_id sample_job_document) sample_job_db = Some sample_job_run"
  "get_run sample_job_id sample_job_db = Some sample_job_run" "doc_id sample_job_document = 1"
  "wr_run_id sample_job_run = sample_job_id" "wr_processing_status sample_job_run = ''running''"
  by (simp_all add: source_of_def find_run_for_document_def get_run_def sample_job_db_def sample_job_document_def
      sample_job_run_def job_document_def job_run_def sample_job_id_def)

lemma sample_worker_inv: "worker_inv model_pos sample_job_cp sample_job_db"
proof -
  note inv = worker_invD [OF insert_job_records_inv(1) [OF fresh_worker_inv sample_insert]]
  have "positions_ok model_pos sample_job_cp sample_job_db"
    by (simp add: positions_ok_def model_pos_def sample_job_cp_def sample_job_state_def sample_sources finished_ok_def
        reconciled_clean_def job_initial_state_def)
  with inv show ?thesis by (simp add: worker_inv_def)
qed

lemma rely_none: "rely pos (\<lambda>db. db)"
  by (simp add: rely_def)

lemma sample_bytes: "decoded_file_bytes sample_job = Inr ''x''"
  by (simp add: decoded_file_bytes_def sample_job_def b64_round_trip del: b64encode.simps)

lemma sample_crashed:
  "crashed_job (model_engine sample_env 0) (\<lambda>db. db) sample_job False sample_job_cp sample_job_db
     = Some (Inr \<lparr>gr_state = sample_job_state, gr_interrupt = None\<rparr>, sample_job_cp, sample_job_db)"
  using get_or_create_known [OF sample_worker_inv sample_sources(1,2), of "\<lambda>db. db"]
  by (simp add: crashed_job_def sample_sources REDELIVERY_SHORT_CIRCUIT_PROCESSING_STATUSES_def sample_bytes retry_db_def
      job_result_def model_engine_def sample_job_cp_def)

lemma sample_job_runs:
  "\<exists>s cp' db'. run_workflow_for_job (\<lambda>_. []) (model_engine sample_env 0) (\<lambda>db. db) sample_job False sample_job_cp sample_job_db
     = (Inr s, cp', db') \<and> sm_processing_status s = ''complete''"
  using get_or_create_known [OF sample_worker_inv sample_sources(1,2), of "\<lambda>db. db"]
  by (simp add: run_workflow_for_job_def sample_sources REDELIVERY_SHORT_CIRCUIT_PROCESSING_STATUSES_def sample_bytes
      run_job_thread_eq [OF worker_invD(7) [OF sample_worker_inv] sample_sources(3)] retry_db_def
      job_result_def model_engine_def sample_job_cp_def stopped_summary_def summary_result_def interrupt_payload_def Let_def
      or_default_def sample_job_state_def)

theorem crash_before_save_equivalent_witness:
  "\<exists>s db' cp2. run_workflow_for_job (\<lambda>_. []) (model_engine sample_env 0) (\<lambda>db. db) sample_job False sample_job_cp sample_job_db
       = (Inr s, sample_job_cp, db')
     \<and> run_workflow_for_job (\<lambda>_. []) (model_engine sample_env 0) (\<lambda>db. db) sample_job True sample_job_cp sample_job_db
       = (Inr s, cp2, db')"
  using crash_before_save_equivalent [OF model_exact_engine sample_worker_inv rely_none sample_crashed,
      of "\<lambda>_. []" "\<lambda>db. db" True] by blast

theorem concurrent_creation_agrees_witness:
  "get_or_create_job_records (\<lambda>db. snd (get_or_create_job_records (\<lambda>db. db) sample_job db)) sample_job (fresh_database 0)
     = (Inr (sample_job_document, sample_job_run), sample_job_db)"
proof -
  have "source_of (jb_idempotency_key sample_job) (fresh_database 0) = None" by (simp add: source_of_def fresh_database_def)
  from get_or_create_new [of model_pos Map.empty "fresh_database 0" "\<lambda>db. db", OF fresh_worker_inv fresh_worker_inv this]
  show ?thesis
    using concurrent_creation_agrees [OF fresh_worker_inv rely_none, of sample_job] by (simp add: sample_insert)
qed

theorem job_keeps_invariant_witness:
  "\<exists>out cp' db'. run_workflow_for_job (\<lambda>_. []) (model_engine sample_env 0) (\<lambda>db. db) sample_job False Map.empty (fresh_database 0)
     = (out, cp', db') \<and> worker_inv model_pos cp' db'"
proof -
  obtain out cp' db' where "run_workflow_for_job (\<lambda>_. []) (model_engine sample_env 0) (\<lambda>db. db) sample_job False
      Map.empty (fresh_database 0) = (out, cp', db')" by (metis prod_cases3)
  with job_keeps_invariant [OF model_graph_engine fresh_worker_inv rely_none this] show ?thesis by blast
qed

theorem redelivery_settled_witness:
  "\<exists>s db' cp' d run. run_workflow_for_job (\<lambda>_. []) (model_engine sample_env 0) (\<lambda>db. db) sample_job False sample_job_cp sample_job_db
       = (Inr s, cp', db') \<and> wr_status run = sm_status s
     \<and> run_workflow_for_job (\<lambda>_. []) (model_engine sample_env 0) (\<lambda>db. db) sample_job True cp' db'
       = (Inr (redelivery_summary d run), cp', db')"
proof -
  from sample_job_runs obtain s cp' db' where run: "run_workflow_for_job (\<lambda>_. []) (model_engine sample_env 0) (\<lambda>db. db)
      sample_job False sample_job_cp sample_job_db = (Inr s, cp', db')" "sm_processing_status s = ''complete''"
    by (elim exE conjE)
  from redelivery_settled [OF model_graph_engine sample_worker_inv rely_none run(1)]
  obtain d r where r: "sm_status s = wr_status r" "sm_processing_status s = wr_processing_status r"
    and again: "\<forall>lib' (eg' :: checkpoints engine) interfere' replay' cp''. wr_processing_status r \<noteq> ''failed'' \<or> \<not> replay' \<longrightarrow>
         run_workflow_for_job lib' eg' interfere' sample_job replay' cp'' db' =
           (if wr_processing_status r = ''failed'' then Inl (RuntimeError (previous_error r))
            else Inr (redelivery_summary d r), cp'', db')" by (elim exE conjE)
  have "wr_processing_status r = ''complete''" using r(2) run(2) by simp
  then have "run_workflow_for_job (\<lambda>_. []) (model_engine sample_env 0) (\<lambda>db. db) sample_job True cp' db'
       = (Inr (redelivery_summary d r), cp', db')" using again by simp
  with run(1) r(1) [symmetric] show ?thesis by blast
qed

end
