(* ===== verification/Health.thy ===== *)
theory Health
  imports Config PyDate PyFloat
begin

text \<open>
  Runtime health (\<open>app/services/health.py\<close>, \<open>app/schemas/health.py\<close>, and the task exit
  callback and the readiness route of \<open>app/main.py\<close>). The background tasks report to
  \<open>background_outcome\<close> values; \<open>readiness\<close> turns them, the probe results and the
  configuration into the report. What a probe met (an answer, a timeout, an exception) and
  how long it took are arguments. The lemmas relate an outcome to the history of its task,
  and the overall status to the parts.
\<close>

section \<open>Schemas\<close>

datatype OverallStatus = READY | OVERALL_DEGRADED | OVERALL_UNAVAILABLE
datatype ProcessPhase = PHASE_STARTING | RUNNING | STOPPING
datatype CheckStatus = AVAILABLE | STARTING | UNAVAILABLE
datatype CapabilityStatus = CAP_AVAILABLE | CAP_DEGRADED | CAP_STARTING | CAP_UNAVAILABLE
datatype VerificationKind = CONFIGURATION_ONLY | OBSERVED_RUNTIME | CONFIGURATION_AND_OBSERVED_RUNTIME

record dependency_check =
  dc_status :: CheckStatus
  dc_reason_code :: "string option"
  dc_latency_ms :: "pyfloat option"

record capability_check =
  cc_status :: CapabilityStatus
  cc_reason_code :: "string option"
  cc_verification :: VerificationKind
  cc_last_attempt_at :: "datetime option"
  cc_last_success_at :: "datetime option"
  cc_last_failure_at :: "datetime option"
  cc_last_result_count :: "nat option"
  cc_stale :: bool

record dependency_checks =
  ds_postgresql :: dependency_check
  ds_checkpoints :: dependency_check
  ds_redis :: dependency_check
  ds_invoice_worker :: dependency_check

record capability_checks =
  cs_gmail_ingestion :: capability_check
  cs_claude_processing :: capability_check
  cs_notifications :: capability_check
  cs_scheduled_sla_scanning :: capability_check

record liveness_response =
  lv_phase :: ProcessPhase
  lv_observed_at :: datetime

record readiness_response =
  ry_status :: OverallStatus
  ry_ready :: bool
  ry_phase :: ProcessPhase
  ry_observed_at :: datetime
  ry_dependencies :: dependency_checks
  ry_capabilities :: capability_checks

section \<open>Outcomes of background tasks\<close>

record background_outcome =
  bo_last_attempt_at :: "datetime option"
  bo_last_success_at :: "datetime option"
  bo_last_failure_at :: "datetime option"
  bo_last_result_count :: "nat option"
  bo_reason_code :: "string option"
  bo_in_progress :: bool

definition BackgroundOutcome :: background_outcome where
  "BackgroundOutcome = \<lparr>bo_last_attempt_at = None, bo_last_success_at = None, bo_last_failure_at = None,
     bo_last_result_count = None, bo_reason_code = None, bo_in_progress = False\<rparr>"

definition started :: "datetime \<Rightarrow> background_outcome \<Rightarrow> background_outcome" where
  "started now out = out\<lparr>bo_last_attempt_at := Some now, bo_in_progress := True\<rparr>"

definition succeeded :: "datetime \<Rightarrow> nat option \<Rightarrow> background_outcome \<Rightarrow> background_outcome" where
  "succeeded now count out = out\<lparr>bo_last_success_at := Some now, bo_last_result_count := count,
     bo_reason_code := None, bo_in_progress := False\<rparr>"

definition failed :: "datetime \<Rightarrow> string \<Rightarrow> background_outcome \<Rightarrow> background_outcome" where
  "failed now reason_code out = out\<lparr>bo_last_failure_at := Some now, bo_reason_code := Some reason_code,
     bo_in_progress := False\<rparr>"

record runtime_health =
  rh_phase :: ProcessPhase
  rh_started_at :: datetime
  rh_invoice_worker_status :: CheckStatus
  rh_invoice_worker_reason :: "string option"
  rh_gmail :: background_outcome
  rh_notifications :: background_outcome
  rh_sla_scanner :: background_outcome

definition RuntimeHealth :: "datetime \<Rightarrow> runtime_health" where
  "RuntimeHealth now = \<lparr>rh_phase = PHASE_STARTING, rh_started_at = now, rh_invoice_worker_status = STARTING,
     rh_invoice_worker_reason = None, rh_gmail = BackgroundOutcome, rh_notifications = BackgroundOutcome,
     rh_sla_scanner = BackgroundOutcome\<rparr>"

definition worker_started :: "runtime_health \<Rightarrow> runtime_health" where
  "worker_started h = h\<lparr>rh_invoice_worker_status := AVAILABLE, rh_invoice_worker_reason := None\<rparr>"

definition worker_failed :: "string \<Rightarrow> runtime_health \<Rightarrow> runtime_health" where
  "worker_failed reason_code h = h\<lparr>rh_invoice_worker_status := UNAVAILABLE, rh_invoice_worker_reason := Some reason_code\<rparr>"

definition liveness :: "runtime_health \<Rightarrow> datetime \<Rightarrow> liveness_response" where
  "liveness runtime now = \<lparr>lv_phase = rh_phase runtime, lv_observed_at = now\<rparr>"

text \<open>\<open>_record_unexpected_task_exit\<close>; a component that is not the worker is the attribute of
  that name.\<close>

datatype component = InvoiceWorker | GmailComponent | SlaScanner

definition record_unexpected_task_exit :: "bool \<Rightarrow> component \<Rightarrow> datetime \<Rightarrow> runtime_health \<Rightarrow> runtime_health" where
  "record_unexpected_task_exit cancelled c now h =
     (if rh_phase h \<noteq> RUNNING \<or> cancelled then h
      else (case c of
          InvoiceWorker \<Rightarrow> worker_failed ''background_task_exited'' h
        | GmailComponent \<Rightarrow> h\<lparr>rh_gmail := failed now ''background_task_exited'' (rh_gmail h)\<rparr>
        | SlaScanner \<Rightarrow> h\<lparr>rh_sla_scanner := failed now ''background_task_exited'' (rh_sla_scanner h)\<rparr>))"

definition reason_code_for_exception :: "string \<Rightarrow> string" where
  "reason_code_for_exception message =
     (if contains ''No Gmail token found'' message then ''gmail_token_missing'' else ''operation_failed'')"

section \<open>Probes\<close>

definition CHECKPOINT_TABLES :: "string list" where
  "CHECKPOINT_TABLES = [''checkpoint_migrations'', ''checkpoints'', ''checkpoint_blobs'', ''checkpoint_writes'']"

text \<open>What a probe call met.\<close>

datatype probe_event = Answered | TimedOut | Lookup | OtherException

text \<open>\<open>probe_checkpoints\<close> after a connection: the table names the first query returned, and
  whether the second found the column.\<close>

definition probe_checkpoints :: "string list \<Rightarrow> bool \<Rightarrow> probe_event" where
  "probe_checkpoints rows task_path =
     (if set rows \<noteq> set CHECKPOINT_TABLES then Lookup else if \<not> task_path then Lookup else Answered)"

text \<open>What reading the token file met; its credentials are valid or not, with a refresh token
  or not.\<close>

datatype credentials = Unreadable | UnexpectedError | Credentials bool "string option"

definition inspect_gmail_token :: "bool \<Rightarrow> nat \<Rightarrow> credentials \<Rightarrow> probe_event + string option" where
  "inspect_gmail_token is_file st_size credentials =
     (if \<not> is_file \<or> st_size = 0 then Inr (Some ''gmail_token_missing'')
      else (case credentials of
          Unreadable \<Rightarrow> Inr (Some ''gmail_token_invalid'')
        | UnexpectedError \<Rightarrow> Inl OtherException
        | Credentials valid refresh \<Rightarrow>
            if \<not> valid \<and> (refresh = None \<or> refresh = Some []) then Inr (Some ''gmail_token_invalid'') else Inr None))"

definition inspect_anthropic_configuration :: "settings \<Rightarrow> string option" where
  "inspect_anthropic_configuration cfg = (let key = py_strip (ANTHROPIC_API_KEY cfg) in
     if key = [] \<or> key = ''sk-ant-your-key-here'' then Some ''anthropic_not_configured'' else None)"

text \<open>\<open>round(x, 1)\<close>: the nearest tenth of the exact value, ties to even, as a double.\<close>

definition round_tenth :: "pyfloat \<Rightarrow> pyfloat" where
  "round_tenth x = (case x of Fin v \<Rightarrow> round64 (of_int (round_half_even (v * 10)) / 10) | _ \<Rightarrow> x)"

definition latency :: "pyfloat \<Rightarrow> pyfloat" where
  "latency seconds = round_tenth (fmul seconds (Fin 1000))"

definition bounded_probe :: "probe_event \<Rightarrow> pyfloat \<Rightarrow> pyfloat \<Rightarrow> dependency_check" where
  "bounded_probe event elapsed timeout = (case event of
     TimedOut \<Rightarrow> \<lparr>dc_status = UNAVAILABLE, dc_reason_code = Some ''probe_timeout'', dc_latency_ms = Some (latency timeout)\<rparr>
   | Lookup \<Rightarrow> \<lparr>dc_status = UNAVAILABLE, dc_reason_code = Some ''checkpoint_schema_missing'',
                 dc_latency_ms = Some (latency elapsed)\<rparr>
   | OtherException \<Rightarrow> \<lparr>dc_status = UNAVAILABLE, dc_reason_code = Some ''connection_failed'',
                 dc_latency_ms = Some (latency elapsed)\<rparr>
   | Answered \<Rightarrow> \<lparr>dc_status = AVAILABLE, dc_reason_code = None, dc_latency_ms = Some (latency elapsed)\<rparr>)"

definition bounded_configuration_probe :: "probe_event + string option \<Rightarrow> string \<Rightarrow> string option" where
  "bounded_configuration_probe res unavailable_code = (case res of
     Inr reason \<Rightarrow> reason | Inl TimedOut \<Rightarrow> Some ''probe_timeout'' | Inl _ \<Rightarrow> Some unavailable_code)"

section \<open>Readiness\<close>

definition total_seconds :: "timedelta \<Rightarrow> pyfloat" where
  "total_seconds d = round64 (of_int d / 1000000)"

definition reference_time :: "background_outcome \<Rightarrow> datetime option" where
  "reference_time out = (case bo_last_success_at out of Some t \<Rightarrow> Some t | None \<Rightarrow> bo_last_attempt_at out)"

definition is_stale :: "background_outcome \<Rightarrow> datetime \<Rightarrow> pyfloat option \<Rightarrow> bool" where
  "is_stale out now stale_after = (case (stale_after, reference_time out) of
     (Some s, Some t) \<Rightarrow> flt s (total_seconds (now - t)) | _ \<Rightarrow> False)"

definition capability_of ::
  "background_outcome \<Rightarrow> CapabilityStatus \<Rightarrow> string option \<Rightarrow> VerificationKind \<Rightarrow> bool \<Rightarrow> capability_check" where
  "capability_of out status reason verification stale = \<lparr>cc_status = status, cc_reason_code = reason,
     cc_verification = verification, cc_last_attempt_at = bo_last_attempt_at out,
     cc_last_success_at = bo_last_success_at out, cc_last_failure_at = bo_last_failure_at out,
     cc_last_result_count = bo_last_result_count out, cc_stale = stale\<rparr>"

definition runtime_capability ::
  "background_outcome \<Rightarrow> datetime \<Rightarrow> pyfloat option \<Rightarrow> VerificationKind \<Rightarrow> string option \<Rightarrow> capability_check" where
  "runtime_capability out now stale_after verification configuration_reason =
     (case configuration_reason of
        Some reason \<Rightarrow> capability_of out CAP_UNAVAILABLE (Some reason) CONFIGURATION_ONLY False
      | None \<Rightarrow>
          (let stale = is_stale out now stale_after in
           if bo_reason_code out \<noteq> None
           then capability_of out (if bo_last_success_at out \<noteq> None then CAP_DEGRADED else CAP_UNAVAILABLE)
                  (bo_reason_code out) verification stale
           else if stale then capability_of out CAP_DEGRADED (Some ''background_success_stale'') verification stale
           else if bo_last_success_at out = None then capability_of out CAP_STARTING None verification stale
           else capability_of out CAP_AVAILABLE None verification stale))"

definition configured_capability :: "CapabilityStatus \<Rightarrow> string option \<Rightarrow> capability_check" where
  "configured_capability status reason = capability_of BackgroundOutcome status reason CONFIGURATION_ONLY False"

definition stale_seconds :: "settings \<Rightarrow> int \<Rightarrow> pyfloat" where
  "stale_seconds cfg interval = fmul (round64 (of_int interval)) (Fin (HEALTH_STALE_AFTER_MULTIPLIER cfg))"

definition overall_status :: "bool \<Rightarrow> capability_check list \<Rightarrow> OverallStatus" where
  "overall_status core_ready capability_values =
     (if \<not> core_ready then OVERALL_UNAVAILABLE
      else if list_ex (\<lambda>c. cc_status c \<noteq> CAP_AVAILABLE) capability_values then OVERALL_DEGRADED
      else READY)"

text \<open>\<open>readiness\<close>: the five gathered probe results are its arguments.\<close>

definition readiness ::
  "runtime_health \<Rightarrow> settings \<Rightarrow> datetime \<Rightarrow> dependency_check \<Rightarrow> dependency_check \<Rightarrow> dependency_check
   \<Rightarrow> string option \<Rightarrow> string option \<Rightarrow> readiness_response" where
  "readiness runtime cfg now postgresql checkpoints0 redis gmail_reason anthropic_reason =
     (let checkpoints = (if dc_status postgresql = UNAVAILABLE
            then \<lparr>dc_status = UNAVAILABLE, dc_reason_code = Some ''postgresql_unavailable'', dc_latency_ms = None\<rparr>
            else checkpoints0);
          worker = \<lparr>dc_status = rh_invoice_worker_status runtime, dc_reason_code = rh_invoice_worker_reason runtime,
                    dc_latency_ms = None\<rparr>;
          dependencies = \<lparr>ds_postgresql = postgresql, ds_checkpoints = checkpoints, ds_redis = redis,
                          ds_invoice_worker = worker\<rparr>;
          gmail = runtime_capability (rh_gmail runtime) now (Some (stale_seconds cfg (GMAIL_POLL_INTERVAL_SECONDS cfg)))
                    CONFIGURATION_AND_OBSERVED_RUNTIME gmail_reason;
          notifications = (if gmail_reason = None \<and> bo_last_attempt_at (rh_notifications runtime) = None
            then configured_capability CAP_AVAILABLE None
            else runtime_capability (rh_notifications runtime) now None CONFIGURATION_AND_OBSERVED_RUNTIME gmail_reason);
          sla0 = runtime_capability (rh_sla_scanner runtime) now
                   (Some (stale_seconds cfg (MISSING_DOCUMENT_SCAN_INTERVAL_SECONDS cfg))) OBSERVED_RUNTIME None;
          sla = (if dc_status postgresql = UNAVAILABLE
            then sla0\<lparr>cc_status := (if bo_last_success_at (rh_sla_scanner runtime) \<noteq> None then CAP_DEGRADED
                                    else CAP_UNAVAILABLE),
                      cc_reason_code := Some ''postgresql_unavailable''\<rparr>
            else sla0);
          claude = configured_capability
            (if (case anthropic_reason of None \<Rightarrow> False | Some r \<Rightarrow> r \<noteq> []) then CAP_UNAVAILABLE else CAP_AVAILABLE)
            anthropic_reason;
          capabilities = \<lparr>cs_gmail_ingestion = gmail, cs_claude_processing = claude, cs_notifications = notifications,
                          cs_scheduled_sla_scanning = sla\<rparr>;
          core_ready = (rh_phase runtime = RUNNING
            \<and> list_all (\<lambda>c. dc_status c = AVAILABLE) [postgresql, checkpoints, redis, worker]);
          overall = overall_status core_ready [gmail, claude, notifications, sla] in
      \<lparr>ry_status = overall, ry_ready = core_ready, ry_phase = rh_phase runtime, ry_observed_at = now,
       ry_dependencies = dependencies, ry_capabilities = capabilities\<rparr>)"

definition health_ready_code :: "readiness_response \<Rightarrow> nat" where
  "health_ready_code payload = (if \<not> ry_ready payload then 503 else 200)"

section \<open>Histories\<close>

text \<open>The reference reading of an outcome: only the last finished attempt counts for the
  reason, only the last success for the success time, only the last start for the attempt.\<close>

datatype task_event = TaskStarted datetime | TaskSucceeded datetime "nat option" | TaskFailed datetime string

fun apply_event :: "task_event \<Rightarrow> background_outcome \<Rightarrow> background_outcome" where
  "apply_event (TaskStarted t) = started t"
| "apply_event (TaskSucceeded t n) = succeeded t n"
| "apply_event (TaskFailed t r) = failed t r"

definition after_events :: "task_event list \<Rightarrow> background_outcome" where
  "after_events es = fold apply_event es BackgroundOutcome"

fun last_finish :: "task_event list \<Rightarrow> string option" where
  "last_finish [] = None"
| "last_finish (TaskStarted t # es) = last_finish es"
| "last_finish (TaskSucceeded t n # es) = None"
| "last_finish (TaskFailed t r # es) = Some r"

fun last_success :: "task_event list \<Rightarrow> datetime option" where
  "last_success [] = None"
| "last_success (TaskSucceeded t n # es) = Some t"
| "last_success (e # es) = last_success es"

fun last_start :: "task_event list \<Rightarrow> datetime option" where
  "last_start [] = None"
| "last_start (TaskStarted t # es) = Some t"
| "last_start (e # es) = last_start es"

lemma after_events_fields:
  "bo_reason_code (after_events es) = last_finish (rev es)"
  "bo_last_success_at (after_events es) = last_success (rev es)"
  "bo_last_attempt_at (after_events es) = last_start (rev es)"
proof -
  have "bo_reason_code (after_events es) = last_finish (rev es) \<and> bo_last_success_at (after_events es) = last_success (rev es)
      \<and> bo_last_attempt_at (after_events es) = last_start (rev es)"
  proof (induction es rule: rev_induct)
    case Nil
    then show ?case by (simp add: after_events_def BackgroundOutcome_def)
  next
    case (snoc e es)
    then show ?case
      by (cases e) (simp_all add: after_events_def started_def succeeded_def failed_def)
  qed
  then show "bo_reason_code (after_events es) = last_finish (rev es)"
    "bo_last_success_at (after_events es) = last_success (rev es)"
    "bo_last_attempt_at (after_events es) = last_start (rev es)" by simp_all
qed

lemma capability_of_status [simp]: "cc_status (capability_of out st r v b) = st"
  by (simp add: capability_of_def)

text \<open>C28: a configured background capability is reported available exactly when the last
  attempt of its task that finished was a success and that success is not stale; whatever
  happened before, and whatever attempt is running, does not matter.\<close>

theorem capability_available_iff:
  "cc_status (runtime_capability (after_events es) now stale_after v None) = CAP_AVAILABLE \<longleftrightarrow>
     last_finish (rev es) = None
     \<and> (\<exists>t. last_success (rev es) = Some t
          \<and> (case stale_after of None \<Rightarrow> True | Some s \<Rightarrow> \<not> flt s (total_seconds (now - t))))"
  by (auto simp: runtime_capability_def is_stale_def reference_time_def after_events_fields Let_def split: option.splits)

section \<open>The overall status\<close>

text \<open>C29: the readiness report is exact. It is ready, and answered with 200 instead of 503,
  exactly when the process runs, the worker is started and PostgreSQL, the checkpoint
  schema and Redis all answered in time; the overall status is READY exactly when in
  addition Claude and Gmail are configured and every background task is available; and an
  unreachable PostgreSQL always shows up in the checkpoints and in the SLA scanner.\<close>

theorem readiness_exact:
  assumes r: "r = readiness runtime cfg now pg cps redis gmail claude"
  shows "(ry_ready r \<longleftrightarrow> rh_phase runtime = RUNNING \<and> rh_invoice_worker_status runtime = AVAILABLE
      \<and> dc_status pg = AVAILABLE \<and> dc_status cps = AVAILABLE \<and> dc_status redis = AVAILABLE)
    \<and> (ry_status r = OVERALL_UNAVAILABLE \<longleftrightarrow> \<not> ry_ready r)
    \<and> (health_ready_code r = 200 \<longleftrightarrow> ry_ready r)
    \<and> (ry_status r = READY \<longleftrightarrow> ry_ready r \<and> gmail = None \<and> (claude = None \<or> claude = Some [])
      \<and> cc_status (cs_gmail_ingestion (ry_capabilities r)) = CAP_AVAILABLE
      \<and> cc_status (cs_notifications (ry_capabilities r)) = CAP_AVAILABLE
      \<and> cc_status (cs_scheduled_sla_scanning (ry_capabilities r)) = CAP_AVAILABLE)
    \<and> (dc_status pg = UNAVAILABLE \<longrightarrow>
        dc_reason_code (ds_checkpoints (ry_dependencies r)) = Some ''postgresql_unavailable''
      \<and> cc_status (cs_scheduled_sla_scanning (ry_capabilities r)) \<noteq> CAP_AVAILABLE)"
proof -
  have ready: "ry_ready r \<longleftrightarrow> rh_phase runtime = RUNNING \<and> rh_invoice_worker_status runtime = AVAILABLE
      \<and> dc_status pg = AVAILABLE \<and> dc_status cps = AVAILABLE \<and> dc_status redis = AVAILABLE"
    by (auto simp: r readiness_def Let_def)
  have codes: "health_ready_code r = 200 \<longleftrightarrow> ry_ready r"
    by (simp add: health_ready_code_def)
  have down: "dc_status pg = UNAVAILABLE \<longrightarrow>
        dc_reason_code (ds_checkpoints (ry_dependencies r)) = Some ''postgresql_unavailable''
      \<and> cc_status (cs_scheduled_sla_scanning (ry_capabilities r)) \<noteq> CAP_AVAILABLE"
    by (simp add: r readiness_def Let_def)
  have claude: "cc_status (cs_claude_processing (ry_capabilities r)) = CAP_AVAILABLE \<longleftrightarrow> claude = None \<or> claude = Some []"
    by (simp add: r readiness_def Let_def configured_capability_def split: option.split)
  have gm: "cc_status (cs_gmail_ingestion (ry_capabilities r)) = CAP_AVAILABLE \<Longrightarrow> gmail = None"
    by (auto simp: r readiness_def Let_def runtime_capability_def split: option.splits)
  have overall: "ry_status r = overall_status (ry_ready r) [cs_gmail_ingestion (ry_capabilities r),
      cs_claude_processing (ry_capabilities r), cs_notifications (ry_capabilities r), cs_scheduled_sla_scanning (ry_capabilities r)]"
    by (simp only: r readiness_def Let_def readiness_response.simps capability_checks.simps)
  then have "ry_status r = OVERALL_UNAVAILABLE \<longleftrightarrow> \<not> ry_ready r"
    and "ry_status r = READY \<longleftrightarrow> ry_ready r \<and> cc_status (cs_gmail_ingestion (ry_capabilities r)) = CAP_AVAILABLE
      \<and> cc_status (cs_claude_processing (ry_capabilities r)) = CAP_AVAILABLE
      \<and> cc_status (cs_notifications (ry_capabilities r)) = CAP_AVAILABLE
      \<and> cc_status (cs_scheduled_sla_scanning (ry_capabilities r)) = CAP_AVAILABLE"
    by (simp_all add: overall_status_def)
  with claude gm ready codes down show ?thesis by blast
qed

text \<open>A started process whose tasks have all succeeded once, and the same with PostgreSQL down.\<close>

definition healthy_runtime :: runtime_health where
  "healthy_runtime = worker_started ((RuntimeHealth 0)\<lparr>rh_phase := RUNNING,
     rh_gmail := after_events [TaskStarted 1, TaskSucceeded 2 (Some 0)],
     rh_sla_scanner := after_events [TaskStarted 1, TaskFailed 2 ''scan_failed'', TaskStarted 3, TaskSucceeded 4 (Some 7)]\<rparr>)"

lemma readiness_exact_witness:
  "(\<exists>r. r = readiness healthy_runtime default_settings 5 (bounded_probe Answered (Fin 0) (Fin 1)) (bounded_probe Answered (Fin 0) (Fin 1))
      (bounded_probe Answered (Fin 0) (Fin 1)) None None \<and> ry_ready r)
   \<and> (\<exists>r. r = readiness healthy_runtime default_settings 5 (bounded_probe TimedOut (Fin 0) (Fin 1)) (bounded_probe Answered (Fin 0) (Fin 1))
      (bounded_probe Answered (Fin 0) (Fin 1)) None None \<and> \<not> ry_ready r \<and> health_ready_code r \<noteq> 200
      \<and> cc_status (cs_scheduled_sla_scanning (ry_capabilities r)) \<noteq> CAP_AVAILABLE)"
  using readiness_exact [OF refl, of healthy_runtime default_settings 5 "bounded_probe Answered (Fin 0) (Fin 1)"
      "bounded_probe Answered (Fin 0) (Fin 1)" "bounded_probe Answered (Fin 0) (Fin 1)" None None]
    readiness_exact [OF refl, of healthy_runtime default_settings 5 "bounded_probe TimedOut (Fin 0) (Fin 1)"
      "bounded_probe Answered (Fin 0) (Fin 1)" "bounded_probe Answered (Fin 0) (Fin 1)" None None]
  by (simp add: bounded_probe_def healthy_runtime_def worker_started_def RuntimeHealth_def)

end
