(* ===== verification/Notifier.thy ===== *)
theory Notifier
  imports Invoice_Worker SLA_Scanner Health
begin

text \<open>
  Outgoing mail (\<open>app/services/notifier.py\<close>): the batch summary with its notification row, and
  the dispatch of pending shipment exception events. The Gmail client is the parameter
  \<open>mailer\<close> (one value per attempt, since it may fail once and work later); a mail that was
  accepted is appended to the outbox, which stands for the user's inbox. Mail text is in
  UTF-8, so the signs of the headings are several characters each. The lemmas show what
  each dispatch does to the events, that it ends, and that mail and records agree.
\<close>

section \<open>Mail\<close>

record mail =
  ma_from :: string
  ma_to :: string
  ma_subject :: string
  ma_body :: string

record mailer =
  ml_service :: "unit result"
  ml_address :: "string result"
  ml_send :: "mail \<Rightarrow> unit result"

definition em_dash :: string where
  "em_dash = [CHR 0xE2, CHR 0x80, CHR 0x94]"

definition no_gmail_token :: string where
  "no_gmail_token = ''No Gmail token found '' @ em_dash @ '' run /gmail/auth first''"

text \<open>The client, or \<open>False\<close> when there is no token yet.\<close>

definition mail_service :: "mailer \<Rightarrow> bool result" where
  "mail_service m = (case ml_service m of
     Inr _ \<Rightarrow> Inr True
   | Inl (RuntimeError msg) \<Rightarrow> if msg = no_gmail_token then Inr False else Inl (RuntimeError msg)
   | Inl e \<Rightarrow> Inl e)"

section \<open>The batch summary\<close>

fun group_thousands :: "nat \<Rightarrow> string \<Rightarrow> string" where
  "group_thousands 0 s = s"
| "group_thousands (Suc n) s = (if length s \<le> 3 then s
     else group_thousands n (take (length s - 3) s) @ '','' @ drop (length s - 3) s)"

text \<open>The format \<open>,.2f\<close> of a float.\<close>

definition format_2f :: "pyfloat \<Rightarrow> string" where
  "format_2f x = (case x of
     Fin v \<Rightarrow>
       (let n = round_half_even (\<bar>v\<bar> * 100); units = show_int (n div 100); cents = show_int (n mod 100) in
        (if v < 0 then ''-'' else []) @ group_thousands (length units) units @ ''.''
          @ (if length cents < 2 then ''0'' @ cents else cents))
   | PInf \<Rightarrow> ''inf'' | NInf \<Rightarrow> ''-inf'' | NaN \<Rightarrow> ''nan'')"

definition format_amount :: "json \<Rightarrow> string result" where
  "format_amount amount =
     (if amount = JNull then Inr ''unknown amount''
      else (case float_of_json amount of
          Inr x \<Rightarrow> Inr (''$'' @ format_2f x)
        | Inl (TypeError m) \<Rightarrow> Inr (py_str amount)
        | Inl (ValueError m) \<Rightarrow> Inr (py_str amount)
        | Inl e \<Rightarrow> Inl e))"

definition or_none :: "string list \<Rightarrow> string list" where
  "or_none items = (if items = [] then [''- None''] else items)"

fun ready_lines :: "summary list \<Rightarrow> string list result" where
  "ready_lines [] = Inr []"
| "ready_lines (s # ss) =
     (let carrier = py_str (py_or (sm_carrier_name s) (JStr ''Unknown carrier'')) in
      case format_amount (sm_total_amount s) of
        Inl e \<Rightarrow> Inl e
      | Inr amount \<Rightarrow> (case ready_lines ss of Inl e \<Rightarrow> Inl e
          | Inr ls \<Rightarrow> Inr ((''- '' @ sm_filename s @ '': '' @ carrier @ '', '' @ amount) # ls)))"

definition run_line :: "summary \<Rightarrow> string" where
  "run_line s = ''- '' @ sm_filename s @ '' ('' @ sm_run_id s @ '')''"

definition is_ready :: "summary \<Rightarrow> bool" where "is_ready s \<longleftrightarrow> sm_posting_status s = ''ready_for_posting''"
definition is_rejected :: "summary \<Rightarrow> bool" where "is_rejected s \<longleftrightarrow> sm_review_disposition s = ''rejected''"
definition is_not_ready :: "summary \<Rightarrow> bool" where
  "is_not_ready s \<longleftrightarrow> sm_processing_status s = ''complete'' \<and> sm_posting_status s = ''not_ready''"
definition needs_review :: "summary \<Rightarrow> bool" where "needs_review s \<longleftrightarrow> sm_processing_status s = ''awaiting_review''"
definition is_failed :: "summary \<Rightarrow> bool" where "is_failed s \<longleftrightarrow> sm_processing_status s = ''failed''"

definition build_summary_body :: "summary list \<Rightarrow> string result" where
  "build_summary_body results =
     (case ready_lines (filter is_ready results) of
        Inl e \<Rightarrow> Inl e
      | Inr ready \<Rightarrow>
          Inr (py_join [CHR 0x0A] (
             [''AP Workflow batch summary'', []]
             @ [[CHR 0xE2, CHR 0x9C, CHR 0x85] @ '' Ready for Posting''] @ or_none ready
             @ [[], [CHR 0xE2, CHR 0x9B, CHR 0x94] @ '' Rejected / Blocked'']
             @ or_none (map run_line (filter is_rejected results))
             @ [[], [CHR 0xE2, CHR 0x8F, CHR 0xB3] @ '' Processed, Not Ready'']
             @ or_none (map run_line (filter is_not_ready results))
             @ [[], [CHR 0xE2, CHR 0x9A, CHR 0xA0, CHR 0xEF, CHR 0xB8, CHR 0x8F] @ '' Needs Review'']
             @ or_none (map (\<lambda>s. run_line s @ '': '' @ py_str (py_or (sm_exception_reason s) (JStr ''No reason provided'')))
                          (filter needs_review results))
             @ [[], [CHR 0xE2, CHR 0x9D, CHR 0x8C] @ '' Failed'']
             @ or_none (map (\<lambda>s. ''- '' @ sm_filename s @ '': ''
                               @ py_str (py_or (sm_exception_reason s) (JStr ''Unknown error'')))
                          (filter is_failed results)))))"

definition count_of :: "('a \<Rightarrow> bool) \<Rightarrow> 'a list \<Rightarrow> nat" where
  "count_of P xs = length (filter P xs)"

definition notification_counts :: "nat \<Rightarrow> datetime \<Rightarrow> summary list \<Rightarrow> notification" where
  "notification_counts i now results = \<lparr>nt_id = i, nt_sent_at = now, nt_total_count = length results,
     nt_complete_count = count_of (\<lambda>s. sm_processing_status s = ''complete'') results,
     nt_awaiting_review_count = count_of needs_review results, nt_failed_count = count_of is_failed results,
     nt_approved_count = count_of (\<lambda>s. sm_review_disposition s = ''approved'') results,
     nt_rejected_count = count_of is_rejected results, nt_ready_for_posting_count = count_of is_ready results\<rparr>"

definition insert_notification_record :: "summary list \<Rightarrow> database \<Rightarrow> database" where
  "insert_notification_record results db =
     db\<lparr>notifications := notifications db @ [notification_counts (Suc (notif_seq db)) (pg_now db) results],
        notif_seq := Suc (notif_seq db)\<rparr>"

definition summary_subject :: "summary list \<Rightarrow> string" where
  "summary_subject results = ''AP Workflow '' @ em_dash @ '' '' @ show_int (int (length results)) @ '' invoices processed, ''
     @ show_int (int (count_of needs_review results)) @ '' need review''"

definition send_summary_email :: "mailer \<Rightarrow> summary list \<Rightarrow> mail list \<Rightarrow> bool result \<times> mail list" where
  "send_summary_email m results outbox =
     (case mail_service m of
        Inl e \<Rightarrow> (Inl e, outbox)
      | Inr False \<Rightarrow> (Inr False, outbox)
      | Inr True \<Rightarrow>
          (case ml_address m of
             Inl e \<Rightarrow> (Inl e, outbox)
           | Inr address \<Rightarrow>
               (case build_summary_body results of
                  Inl e \<Rightarrow> (Inl e, outbox)
                | Inr body \<Rightarrow>
                    (let message = \<lparr>ma_from = address, ma_to = address, ma_subject = summary_subject results, ma_body = body\<rparr> in
                     case ml_send m message of
                       Inl e \<Rightarrow> (Inl e, outbox) | Inr _ \<Rightarrow> (Inr True, outbox @ [message])))))"

definition send_batch_summary :: "mailer \<Rightarrow> summary list \<Rightarrow> mail list \<Rightarrow> database \<Rightarrow> unit result \<times> mail list \<times> database" where
  "send_batch_summary m results outbox db =
     (if results = [] then (Inr (), outbox, db)
      else (case send_summary_email m results outbox of
          (Inl e, outbox) \<Rightarrow> (Inl e, outbox, db)
        | (Inr sent, outbox) \<Rightarrow> (Inr (), outbox, if sent then insert_notification_record results db else db)))"

section \<open>Exception events\<close>

record event_mail =
  em_transition :: string
  em_load_number :: string
  em_missing_docs :: "string list"
  em_reason_codes :: "string list"

definition join_or_none :: "string list \<Rightarrow> string" where
  "join_or_none xs = (if xs = [] then ''none'' else py_join '', '' xs)"

definition send_shipment_exception_email :: "mailer \<Rightarrow> event_mail \<Rightarrow> mail list \<Rightarrow> bool result \<times> mail list" where
  "send_shipment_exception_email m payload outbox =
     (case mail_service m of
        Inl e \<Rightarrow> (Inl e, outbox)
      | Inr False \<Rightarrow> (Inr False, outbox)
      | Inr True \<Rightarrow>
          (case ml_address m of
             Inl e \<Rightarrow> (Inl e, outbox)
           | Inr address \<Rightarrow>
               (let message = \<lparr>ma_from = address, ma_to = address,
                    ma_subject = ''AP Workflow '' @ em_dash @ '' shipment '' @ em_load_number payload @ '' SLA exception ''
                       @ em_transition payload,
                    ma_body = py_join [CHR 0x0A]
                      [''Shipment '' @ em_load_number payload,
                       ''Missing-document SLA exception: '' @ em_transition payload,
                       ''Missing required documents: '' @ join_or_none (em_missing_docs payload),
                       ''Reason codes: '' @ join_or_none (em_reason_codes payload)]\<rparr> in
                case ml_send m message of
                  Inl e \<Rightarrow> (Inl e, outbox) | Inr _ \<Rightarrow> (Inr True, outbox @ [message]))))"

definition event_pending :: "exception_event \<Rightarrow> bool" where
  "event_pending e \<longleftrightarrow> ev_notification_status e = ''pending'' \<or> ev_notification_status e = ''failed''"

text \<open>The joined rows of the select; an event whose exception or shipment is gone is not in
  them.\<close>

definition event_shipment :: "database \<Rightarrow> exception_event \<Rightarrow> shipment option" where
  "event_shipment db e = Option.bind (List.find (\<lambda>x. ex_id x = ev_exception_id e) (shipment_exceptions db))
     (\<lambda>x. List.find (\<lambda>s. sh_id s = ex_shipment_id x) (shipments db))"

definition pending_rows :: "uuid list \<Rightarrow> database \<Rightarrow> exception_event list" where
  "pending_rows locked db = sort_key ev_occurred_at
     (filter (\<lambda>e. event_pending e \<and> event_shipment db e \<noteq> None \<and> ev_id e \<notin> set locked) (exception_events db))"

definition get_event :: "uuid \<Rightarrow> database \<Rightarrow> exception_event option" where
  "get_event i db = get_row ev_id i (exception_events db)"

definition put_event :: "exception_event \<Rightarrow> database \<Rightarrow> database" where
  "put_event e db = db\<lparr>exception_events := set_row ev_id e (exception_events db)\<rparr>"

definition sending :: "exception_event \<Rightarrow> exception_event" where
  "sending e = e\<lparr>ev_notification_status := ''sending'',
     ev_notification_attempt_count := Suc (ev_notification_attempt_count e), ev_notification_last_error := None\<rparr>"

definition mail_failed :: "string \<Rightarrow> exception_event \<Rightarrow> exception_event" where
  "mail_failed msg e = e\<lparr>ev_notification_status := ''failed'', ev_notification_last_error := Some msg\<rparr>"

definition mail_sent :: "datetime \<Rightarrow> exception_event \<Rightarrow> exception_event" where
  "mail_sent now e = e\<lparr>ev_notification_status := ''sent'', ev_notification_sent_at := Some now\<rparr>"

definition event_payload :: "database \<Rightarrow> exception_event \<Rightarrow> event_mail" where
  "event_payload db e = \<lparr>em_transition = ev_transition e,
     em_load_number = (case event_shipment db e of None \<Rightarrow> [] | Some s \<Rightarrow> sh_load_number s),
     em_missing_docs = es_missing_docs (ev_after_state e), em_reason_codes = es_reason_codes (ev_after_state e)\<rparr>"

definition update_event :: "uuid \<Rightarrow> (exception_event \<Rightarrow> exception_event) \<Rightarrow> database \<Rightarrow> database" where
  "update_event i f db = (case get_event i db of None \<Rightarrow> db | Some e \<Rightarrow> put_event (f e) db)"

text \<open>One round: the event is taken (committed as sending), mailed, and recorded; the flag says
  whether the mail went out.\<close>

definition dispatch_round ::
  "(py_error \<Rightarrow> string) \<Rightarrow> mailer \<Rightarrow> datetime \<Rightarrow> exception_event \<Rightarrow> runtime_health option \<Rightarrow> mail list \<Rightarrow> database
   \<Rightarrow> bool \<times> runtime_health option \<times> mail list \<times> database" where
  "dispatch_round lib m now event h outbox db =
     (let payload = event_payload db event; db = put_event (sending event) db in
      case send_shipment_exception_email m payload outbox of
        (res, outbox) \<Rightarrow>
          if res = Inr True then (True, h, outbox, update_event (ev_id event) (mail_sent now) db)
          else (let exc = (case res of Inl e \<Rightarrow> str_exc lib e | Inr _ \<Rightarrow> ''Gmail is not authenticated'') in
                (False,
                 map_option (\<lambda>h. h\<lparr>rh_notifications := failed now (reason_code_for_exception exc) (rh_notifications h)\<rparr>) h,
                 outbox, update_event (ev_id event) (mail_failed exc) db)))"

text \<open>The \<open>while True\<close> around it; a failed mail ends it. Time and mailer of the n-th round are
  \<open>clock n\<close> and \<open>mailers n\<close>, the rows locked then \<open>locked n\<close>.\<close>

partial_function (option) dispatch_pending_sla_notifications ::
  "(py_error \<Rightarrow> string) \<Rightarrow> (nat \<Rightarrow> mailer) \<Rightarrow> (nat \<Rightarrow> datetime) \<Rightarrow> (nat \<Rightarrow> uuid list) \<Rightarrow> nat \<Rightarrow> runtime_health option
   \<Rightarrow> mail list \<Rightarrow> database \<Rightarrow> (nat \<times> runtime_health option \<times> mail list \<times> database) option" where
  "dispatch_pending_sla_notifications lib mailers clock locked sent_count h outbox db =
     (case pending_rows (locked sent_count) db of
        [] \<Rightarrow> Some (sent_count, h, outbox, db)
      | event # _ \<Rightarrow>
          (case dispatch_round lib (mailers sent_count) (clock sent_count) event h outbox db of
             (sent, h, outbox, db) \<Rightarrow>
               if sent then dispatch_pending_sla_notifications lib mailers clock locked (Suc sent_count) h outbox db
               else Some (sent_count, h, outbox, db)))"

declare dispatch_pending_sla_notifications.simps [code]

section \<open>A round\<close>

lemma set_row_set_row: "key r = key r' \<Longrightarrow> set_row key r (set_row key r' t) = set_row key r t"
  by (simp add: set_row_def)

lemma event_ids [simp]:
  "ev_id (sending e) = ev_id e" "ev_id (mail_failed m e) = ev_id e" "ev_id (mail_sent t e) = ev_id e"
  by (simp_all add: sending_def mail_failed_def mail_sent_def)

lemma event_statuses [simp]:
  "ev_notification_status (mail_failed m e) = ''failed''" "ev_notification_status (mail_sent t e) = ''sent''"
  "\<not> event_pending (mail_sent t e)" "event_pending (mail_failed m e)"
  by (simp_all add: mail_failed_def mail_sent_def event_pending_def)

lemma update_sending:
  assumes "distinct (map ev_id (exception_events db))" and "e \<in> set (exception_events db)" and "ev_id (f (sending e)) = ev_id e"
  shows "update_event (ev_id e) f (put_event (sending e) db) = put_event (f (sending e)) db"
proof -
  have "get_row ev_id (ev_id e) (exception_events db) = Some e" using assms(1,2) by (simp add: get_row_distinct)
  then have "get_event (ev_id e) (put_event (sending e) db) = Some (sending e)"
    by (simp add: get_event_def put_event_def get_row_set_row')
  with assms(3) show ?thesis by (simp add: update_event_def put_event_def set_row_set_row)
qed

text \<open>Changing the mail columns of the event \<open>e\<close> only.\<close>

definition only_event :: "exception_event \<Rightarrow> exception_event \<Rightarrow> exception_event \<Rightarrow> exception_event" where
  "only_event e e' x = (if x = e then e' else x)"

lemma put_event_map:
  assumes "distinct (map ev_id (exception_events db))" and "e \<in> set (exception_events db)" and "ev_id e' = ev_id e"
  shows "put_event e' db = db\<lparr>exception_events := map (only_event e e') (exception_events db)\<rparr>"
proof -
  have "ev_id x = ev_id e \<longleftrightarrow> x = e" if "x \<in> set (exception_events db)" for x
    using that assms(1,2) by (auto simp: distinct_map inj_on_def)
  with assms(3) show ?thesis by (simp add: put_event_def set_row_def only_event_def)
qed

lemma dispatch_round_effect:
  assumes "distinct (map ev_id (exception_events db))" and "e \<in> set (exception_events db)"
    and "dispatch_round lib m now e h outbox db = (sent, h', outbox', db')"
  obtains (sent) mail where "sent" "h' = h" "outbox' = outbox @ [mail]"
      "db' = db\<lparr>exception_events := map (only_event e (mail_sent now (sending e))) (exception_events db)\<rparr>"
  | (failed) msg where "\<not> sent" "outbox' = outbox"
      "h' = map_option (\<lambda>h. h\<lparr>rh_notifications := failed now (reason_code_for_exception msg) (rh_notifications h)\<rparr>) h"
      "db' = db\<lparr>exception_events := map (only_event e (mail_failed msg (sending e))) (exception_events db)\<rparr>"
proof -
  obtain res ob where mail: "send_shipment_exception_email m (event_payload db e) outbox = (res, ob)" by fastforce
  have ob: "if res = Inr True then \<exists>x. ob = outbox @ [x] else ob = outbox"
    using mail by (auto simp: send_shipment_exception_email_def Let_def split: sum.splits bool.splits)
  have up: "update_event (ev_id e) f (put_event (sending e) db) = db\<lparr>exception_events := map (only_event e (f (sending e))) (exception_events db)\<rparr>"
    if "ev_id (f (sending e)) = ev_id e" for f
    using update_sending [of db e f, OF assms(1,2) that] put_event_map [OF assms(1,2) that] by simp
  show thesis
  proof (cases "res = Inr True")
    case True
    with ob obtain x where "ob = outbox @ [x]" by auto
    with True assms(3) mail up [of "mail_sent now"] show thesis by (intro sent [of x]) (auto simp: dispatch_round_def Let_def)
  next
    case False
    define msg where "msg = (case res of Inl e \<Rightarrow> str_exc lib e | Inr _ \<Rightarrow> ''Gmail is not authenticated'')"
    from False assms(3) mail ob up [of "mail_failed msg"] show thesis
      by (intro failed [of msg]) (auto simp: dispatch_round_def Let_def msg_def)
  qed
qed

section \<open>What a dispatch does\<close>

definition newly_sent :: "exception_event \<Rightarrow> exception_event \<Rightarrow> bool" where
  "newly_sent e e' \<longleftrightarrow> event_pending e \<and> (\<exists>t. e' = mail_sent t (sending e))"

definition newly_failed :: "exception_event \<Rightarrow> exception_event \<Rightarrow> bool" where
  "newly_failed e e' \<longleftrightarrow> event_pending e \<and> (\<exists>m. e' = mail_failed m (sending e))"

definition mail_step :: "exception_event \<Rightarrow> exception_event \<Rightarrow> bool" where
  "mail_step e e' \<longleftrightarrow> e' = e \<or> newly_sent e e' \<or> newly_failed e e'"

lemma mail_step_ids: "mail_step e e' \<Longrightarrow> ev_id e' = ev_id e"
  by (auto simp: mail_step_def newly_sent_def newly_failed_def)

lemma not_pending_step: "mail_step e e' \<Longrightarrow> \<not> event_pending e \<Longrightarrow> e' = e"
  by (auto simp: mail_step_def newly_sent_def newly_failed_def)

lemma sending_neq: "mail_sent t (sending e) \<noteq> e" "mail_failed m (sending e) \<noteq> e" "mail_sent t (sending e) \<noteq> mail_failed m (sending e')"
proof -
  have "ev_notification_attempt_count (mail_sent t (sending e)) \<noteq> ev_notification_attempt_count e"
    "ev_notification_attempt_count (mail_failed m (sending e)) \<noteq> ev_notification_attempt_count e"
    by (simp_all add: sending_def mail_sent_def mail_failed_def)
  then show "mail_sent t (sending e) \<noteq> e" "mail_failed m (sending e) \<noteq> e" by metis+
  show "mail_sent t (sending e) \<noteq> mail_failed m (sending e')" by (metis event_statuses(3,4))
qed

lemma step_kinds:
  "newly_sent e (mail_sent t (sending e)) = event_pending e" "\<not> newly_failed e (mail_sent t (sending e))"
  "newly_failed e (mail_failed m (sending e)) = event_pending e" "\<not> newly_sent e (mail_failed m (sending e))"
  "\<not> newly_sent e e" "\<not> newly_failed e e"
  using sending_neq by (auto simp: newly_sent_def newly_failed_def) metis+

lemma count_one:
  assumes "distinct xs" and "e \<in> set xs" and "\<And>x. x \<in> set xs \<Longrightarrow> P x \<longleftrightarrow> x = e \<or> Q x" and "\<not> Q e"
  shows "count_of P xs = Suc (count_of Q xs)"
proof -
  have "{x. P x} \<inter> set xs = insert e ({x. Q x} \<inter> set xs)" using assms(2,3) by auto
  with assms show ?thesis by (simp add: count_of_def distinct_length_filter)
qed

lemma count_map: "count_of P (map f xs) = count_of (\<lambda>x. P (f x)) xs"
  by (simp add: count_of_def comp_def)

lemma count_cong: "(\<And>x. x \<in> set xs \<Longrightarrow> P x = Q x) \<Longrightarrow> count_of P xs = count_of Q xs"
  unfolding count_of_def by (metis filter_cong)

lemma only_event_simps: "only_event e e' e = e'" "x \<noteq> e \<Longrightarrow> only_event e e' x = x"
  by (simp_all add: only_event_def)

lemma pending_rows_mem:
  assumes "pending_rows locked db = e # es"
  shows "e \<in> set (exception_events db)" "event_pending e"
proof -
  have "e \<in> set (pending_rows locked db)" by (simp add: assms)
  then show "e \<in> set (exception_events db)" "event_pending e" by (simp_all add: pending_rows_def)
qed

text \<open>The account of a dispatch: \<open>g\<close> says what became of each event.\<close>

definition dispatched :: "nat \<Rightarrow> runtime_health option \<Rightarrow> mail list \<Rightarrow> database \<Rightarrow> (nat \<Rightarrow> uuid list)
    \<Rightarrow> nat \<times> runtime_health option \<times> mail list \<times> database \<Rightarrow> (exception_event \<Rightarrow> exception_event) \<Rightarrow> bool" where
  "dispatched n h outbox db locked res g \<longleftrightarrow> (case res of (n', h', outbox', db') \<Rightarrow>
     db' = db\<lparr>exception_events := map g (exception_events db)\<rparr>
   \<and> (\<forall>e \<in> set (exception_events db). mail_step e (g e))
   \<and> n' = n + count_of (\<lambda>e. newly_sent e (g e)) (exception_events db)
   \<and> (\<exists>ms. outbox' = outbox @ ms \<and> length ms = count_of (\<lambda>e. newly_sent e (g e)) (exception_events db))
   \<and> (if list_ex (\<lambda>e. newly_failed e (g e)) (exception_events db)
      then count_of (\<lambda>e. newly_failed e (g e)) (exception_events db) = 1
        \<and> (\<exists>t r. h' = map_option (\<lambda>h. h\<lparr>rh_notifications := failed t r (rh_notifications h)\<rparr>) h)
      else h' = h \<and> pending_rows (locked n') db' = []))"

lemma dispatched_sent:
  assumes dist: "distinct (map ev_id (exception_events db))" and e: "e \<in> set (exception_events db)" "event_pending e"
    and rest: "dispatched (Suc n) h (outbox @ [m]) (db\<lparr>exception_events := map (only_event e (mail_sent t (sending e))) (exception_events db)\<rparr>)
      locked res g"
  shows "dispatched n h outbox db locked res (\<lambda>x. g (only_event e (mail_sent t (sending e)) x))"
proof -
  let ?e = "mail_sent t (sending e)" and ?evs = "exception_events db"
  let ?o = "only_event e ?e"
  obtain n' h' outbox' db' where res: "res = (n', h', outbox', db')" by (metis prod_cases4)
  define db1 where "db1 = db\<lparr>exception_events := map ?o ?evs\<rparr>"
  have evs1: "exception_events db1 = map ?o ?evs" by (simp add: db1_def)
  have c1: "count_of P (exception_events db1) = count_of (\<lambda>x. P (?o x)) ?evs" for P by (simp add: evs1 count_map)
  have ex1: "list_ex P (exception_events db1) = list_ex (\<lambda>x. P (?o x)) ?evs" for P by (simp add: evs1 list_ex_iff)
  note r = rest [folded db1_def, unfolded dispatched_def res prod.case c1 ex1]
  have step: "mail_step (?o x) (g (?o x))" if "x \<in> set ?evs" for x using r that by (simp add: evs1)
  have db': "db' = db\<lparr>exception_events := map (\<lambda>x. g (?o x)) ?evs\<rparr>"
    using conjunct1 [OF r] by (simp add: evs1 comp_def) (simp add: db1_def)
  have ge: "g ?e = ?e" using step [OF e(1)] not_pending_step [of ?e] by (simp add: only_event_simps)
  have kinds: "newly_sent x (g (?o x)) \<longleftrightarrow> x = e \<or> newly_sent (?o x) (g (?o x))"
      "newly_failed x (g (?o x)) \<longleftrightarrow> newly_failed (?o x) (g (?o x))" for x
    by (cases "x = e"; simp add: only_event_simps ge e(2) step_kinds)+
  have "distinct ?evs" using dist by (simp add: distinct_map)
  then have cnt: "count_of (\<lambda>x. newly_sent x (g (?o x))) ?evs = Suc (count_of (\<lambda>x. newly_sent (?o x) (g (?o x))) ?evs)"
    by (rule count_one [OF _ e(1)]) (simp_all add: kinds(1), simp add: only_event_simps ge step_kinds)
  have steps: "mail_step x (g (?o x))" if "x \<in> set ?evs" for x
    using step [OF that] e(2) by (cases "x = e") (simp_all add: only_event_simps ge mail_step_def step_kinds)
  have n': "n' = Suc n + count_of (\<lambda>x. newly_sent (?o x) (g (?o x))) ?evs" using r by (elim conjE)
  from r obtain ms where "outbox' = (outbox @ [m]) @ ms" "length ms = count_of (\<lambda>x. newly_sent (?o x) (g (?o x))) ?evs"
    by (elim conjE exE)
  then have out: "\<exists>ms. outbox' = outbox @ ms \<and> length ms = count_of (\<lambda>x. newly_sent x (g (?o x))) ?evs"
    by (intro exI [of _ "m # ms"]) (simp add: cnt)
  have "n' = n + count_of (\<lambda>x. newly_sent x (g (?o x))) ?evs" using n' cnt by simp
  moreover have "\<forall>x \<in> set ?evs. mail_step x (g (?o x))" using steps by blast
  moreover from r have "if list_ex (\<lambda>x. newly_failed (?o x) (g (?o x))) ?evs
      then count_of (\<lambda>x. newly_failed (?o x) (g (?o x))) ?evs = 1
        \<and> (\<exists>t r. h' = map_option (\<lambda>h. h\<lparr>rh_notifications := failed t r (rh_notifications h)\<rparr>) h)
      else h' = h \<and> pending_rows (locked n') db' = []" by (elim conjE)
  ultimately show ?thesis unfolding dispatched_def res prod.case kinds(2) using db' out by (intro conjI)
qed

lemma dispatch_accounts:
  assumes "distinct (map ev_id (exception_events db))"
  shows "\<exists>res g. dispatch_pending_sla_notifications lib mailers clock locked n h outbox db = Some res
     \<and> dispatched n h outbox db locked res g"
  using assms
proof (induction "count_of event_pending (exception_events db)" arbitrary: n outbox db rule: less_induct)
  case less
  let ?evs = "exception_events db"
  show ?case
  proof (cases "pending_rows (locked n) db")
    case Nil
    have "dispatched n h outbox db locked (n, h, outbox, db) (\<lambda>e. e)"
      by (simp add: dispatched_def mail_step_def step_kinds Nil count_of_def list_ex_iff)
    with Nil show ?thesis by (subst dispatch_pending_sla_notifications.simps) (auto simp del: not_None_eq)
  next
    case (Cons e es)
    note e = pending_rows_mem [OF Cons]
    obtain sent h1 ob1 db1 where round: "dispatch_round lib (mailers n) (clock n) e h outbox db = (sent, h1, ob1, db1)"
      by (metis prod_cases4)
    from less.prems e(1) round show ?thesis
    proof (cases rule: dispatch_round_effect)
      case (sent m)
      let ?o = "only_event e (mail_sent (clock n) (sending e))"
      have ids: "map ev_id (map ?o ?evs) = map ev_id ?evs" by (simp add: only_event_def)
      have "distinct ?evs" using less.prems by (simp add: distinct_map)
      then have "count_of event_pending ?evs = Suc (count_of (\<lambda>x. event_pending (?o x)) ?evs)"
        by (rule count_one [OF _ e(1)]) (use e(2) in \<open>auto simp: only_event_def\<close>)
      then have "count_of event_pending (exception_events db1) < count_of event_pending ?evs"
        by (simp add: sent(4) count_map)
      moreover have "distinct (map ev_id (exception_events db1))"
        using ids less.prems by (simp add: sent(4) del: map_map)
      ultimately obtain res g where
        res: "dispatch_pending_sla_notifications lib mailers clock locked (Suc n) h ob1 db1 = Some res"
          "dispatched (Suc n) h ob1 db1 locked res g" using less.hyps [of db1 "Suc n" ob1] by blast
      have "dispatch_pending_sla_notifications lib mailers clock locked n h outbox db = Some res"
        using Cons round sent(1,2) res(1) by (subst dispatch_pending_sla_notifications.simps) simp
      with dispatched_sent [OF less.prems e res(2) [unfolded sent(3,4)]] show ?thesis by blast
    next
      case (failed msg)
      let ?o = "only_event e (mail_failed msg (sending e))"
      have "distinct ?evs" using less.prems by (simp add: distinct_map)
      then have one: "count_of (\<lambda>x. newly_failed x (?o x)) ?evs = Suc (count_of (\<lambda>_. False) ?evs)"
        by (rule count_one [OF _ e(1)]) (use e(2) in \<open>auto simp: only_event_def step_kinds\<close>)
      moreover have "count_of (\<lambda>x. newly_sent x (?o x)) ?evs = count_of (\<lambda>_. False) ?evs"
        by (rule count_cong) (auto simp: only_event_def step_kinds)
      moreover have "mail_step x (?o x)" for x using e(2) by (auto simp: only_event_def mail_step_def step_kinds)
      moreover have "list_ex (\<lambda>x. newly_failed x (?o x)) ?evs"
        using e by (auto simp: list_ex_iff only_event_def step_kinds intro!: bexI [of _ e])
      ultimately have "dispatched n h outbox db locked (n, h1, ob1, db1) ?o"
        using failed(2-4) by (auto simp: dispatched_def count_of_def)
      moreover have "dispatch_pending_sla_notifications lib mailers clock locked n h outbox db = Some (n, h1, ob1, db1)"
        using Cons round failed(1) by (subst dispatch_pending_sla_notifications.simps) simp
      ultimately show ?thesis by blast
    qed
  qed
qed

section \<open>Properties\<close>

text \<open>C30: a dispatch of shipment exception mails ends, whatever the mail service does, and its record is exact. Only
  events that were pending or failed change, each at most once, to sent or failed with one more attempt; the returned
  count and the mails that went out are as many as the events now sent; at most one mail failed, and if none did, no
  event that can be taken is left. Nothing but these columns changes.\<close>

theorem dispatch_exact:
  assumes "distinct (map ev_id (exception_events db))"
  shows "\<exists>n h' outbox' db' g. dispatch_pending_sla_notifications lib mailers clock locked 0 h outbox db = Some (n, h', outbox', db')
    \<and> db' = db\<lparr>exception_events := map g (exception_events db)\<rparr>
    \<and> (\<forall>e \<in> set (exception_events db). g e = e \<or> (event_pending e
         \<and> ((\<exists>t. g e = mail_sent t (sending e)) \<or> (\<exists>msg. g e = mail_failed msg (sending e)))))
    \<and> n = count_of (\<lambda>e. newly_sent e (g e)) (exception_events db)
    \<and> (\<exists>ms. outbox' = outbox @ ms \<and> length ms = n)
    \<and> count_of (\<lambda>e. newly_failed e (g e)) (exception_events db) \<le> 1
    \<and> (count_of (\<lambda>e. newly_failed e (g e)) (exception_events db) = 0 \<longrightarrow> h' = h \<and> pending_rows (locked n) db' = [])"
proof -
  obtain n h' outbox' db' g where
    run: "dispatch_pending_sla_notifications lib mailers clock locked 0 h outbox db = Some (n, h', outbox', db')"
    and d: "dispatched 0 h outbox db locked (n, h', outbox', db') g"
    using dispatch_accounts [OF assms, of lib mailers clock locked 0 h outbox] by (metis prod_cases4)
  note d = d [unfolded dispatched_def prod.case]
  have none: "count_of (\<lambda>e. newly_failed e (g e)) (exception_events db) = 0
      \<longleftrightarrow> \<not> list_ex (\<lambda>e. newly_failed e (g e)) (exception_events db)"
    by (auto simp: count_of_def list_ex_iff filter_empty_conv)
  have "\<forall>e \<in> set (exception_events db). g e = e \<or> (event_pending e
         \<and> ((\<exists>t. g e = mail_sent t (sending e)) \<or> (\<exists>msg. g e = mail_failed msg (sending e))))"
    using d unfolding mail_step_def newly_sent_def newly_failed_def by blast
  moreover have "count_of (\<lambda>e. newly_failed e (g e)) (exception_events db) \<le> 1"
    "count_of (\<lambda>e. newly_failed e (g e)) (exception_events db) = 0 \<longrightarrow> h' = h \<and> pending_rows (locked n) db' = []"
    using d none by (auto split: if_splits)
  moreover have "n = count_of (\<lambda>e. newly_sent e (g e)) (exception_events db)" "\<exists>ms. outbox' = outbox @ ms \<and> length ms = n"
    "db' = db\<lparr>exception_events := map g (exception_events db)\<rparr>" using d by auto
  ultimately show ?thesis
    using run by - (rule exI [of _ n], rule exI [of _ h'], rule exI [of _ outbox'], rule exI [of _ db'], rule exI [of _ g],
      intro conjI)
qed

text \<open>An event left in the state sending, by a process that died between the commit of that state and the record
  of the outcome, is never mailed again: no dispatch touches it.\<close>

theorem sending_event_stuck:
  assumes "distinct (map ev_id (exception_events db))" and "e \<in> set (exception_events db)"
    and "ev_notification_status e = ''sending''"
  shows "\<exists>n h' outbox' db'. dispatch_pending_sla_notifications lib mailers clock locked 0 h outbox db = Some (n, h', outbox', db')
    \<and> get_event (ev_id e) db' = Some e"
proof -
  obtain n h' outbox' db' g where
    run: "dispatch_pending_sla_notifications lib mailers clock locked 0 h outbox db = Some (n, h', outbox', db')"
    and d: "dispatched 0 h outbox db locked (n, h', outbox', db') g"
    using dispatch_accounts [OF assms(1), of lib mailers clock locked 0 h outbox] by (metis prod_cases4)
  from d have db': "exception_events db' = map g (exception_events db)"
    and step: "\<And>x. x \<in> set (exception_events db) \<Longrightarrow> mail_step x (g x)"
    by (auto simp: dispatched_def)
  have "map ev_id (map g (exception_events db)) = map ev_id (exception_events db)"
    using step mail_step_ids by simp
  then have "distinct (map ev_id (exception_events db'))" using assms(1) by (simp only: db')
  moreover have "g e = e" using step [OF assms(2)] by (rule not_pending_step) (simp add: event_pending_def assms(3))
  then have "e \<in> set (exception_events db')" using assms(2) by (metis db' image_eqI list.set_map)
  ultimately have "get_event (ev_id e) db' = Some e" by (simp add: get_event_def get_row_distinct)
  with run show ?thesis by blast
qed

lemma counts_partition:
  assumes "\<And>s. s \<in> set results \<Longrightarrow> sm_processing_status s \<in> {''complete'', ''awaiting_review'', ''failed''}"
  shows "count_of (\<lambda>s. sm_processing_status s = ''complete'') results + count_of needs_review results
    + count_of is_failed results = length results"
  using assms by (induction results) (auto simp: count_of_def needs_review_def is_failed_def)

text \<open>A batch summary is recorded exactly when it was mailed. A non-empty batch either changes nothing (no token, or
  an error), or sends one mail and adds one notification row; its counts add up: every invoice of the batch is counted
  once as complete, awaiting review or failed.\<close>

theorem batch_summary_recorded:
  assumes "results \<noteq> []" and "\<And>s. s \<in> set results \<Longrightarrow> sm_processing_status s \<in> {''complete'', ''awaiting_review'', ''failed''}"
    and "send_batch_summary m results outbox db = (r, outbox', db')"
  shows "(outbox' = outbox \<and> db' = db)
    \<or> (r = Inr () \<and> (\<exists>mail row. outbox' = outbox @ [mail]
        \<and> db' = db\<lparr>notifications := notifications db @ [row], notif_seq := Suc (notif_seq db)\<rparr>
        \<and> nt_total_count row = length results
        \<and> nt_complete_count row + nt_awaiting_review_count row + nt_failed_count row = nt_total_count row
        \<and> nt_ready_for_posting_count row = count_of is_ready results))"
proof -
  obtain res ob where mail: "send_summary_email m results outbox = (res, ob)" by fastforce
  have ob: "if res = Inr True then \<exists>x. ob = outbox @ [x] else ob = outbox"
    using mail by (auto simp: send_summary_email_def Let_def split: sum.splits bool.splits)
  show ?thesis
  proof (cases "res = Inr True")
    case True
    with ob obtain x where x: "ob = outbox @ [x]" by auto
    have r: "r = Inr ()" "outbox' = outbox @ [x]" "db' = insert_notification_record results db"
      using assms(1,3) mail True x by (auto simp: send_batch_summary_def)
    show ?thesis
      using counts_partition [OF assms(2)]
      by (intro disjI2 conjI r(1) exI [of _ x] exI [of _ "notification_counts (Suc (notif_seq db)) (pg_now db) results"])
        (simp_all add: r insert_notification_record_def notification_counts_def)
  next
    case False
    with ob assms(1,3) mail show ?thesis by (intro disjI1) (auto simp: send_batch_summary_def split: sum.splits)
  qed
qed

section \<open>A concrete dispatch\<close>

definition working_mailer :: mailer where
  "working_mailer = \<lparr>ml_service = Inr (), ml_address = Inr ''ap@example.com'', ml_send = (\<lambda>_. Inr ())\<rparr>"

definition sample_mail_event :: "string \<Rightarrow> string \<Rightarrow> exception_event" where
  "sample_mail_event i st = \<lparr>ev_id = i, ev_exception_id = ''x'', ev_reconciliation_result_id = None, ev_version = 1,
     ev_transition = ''opened'', ev_before_state = None,
     ev_after_state = \<lparr>es_status = ''active'', es_missing_docs = [''pod''], es_reason_codes = [''missing_pod''],
       es_deadline_at = []\<rparr>, ev_occurred_at = 5, ev_notification_status = st, ev_notification_attempt_count = 0,
     ev_notification_last_error = None, ev_notification_sent_at = None\<rparr>"

definition sample_mail_db :: database where
  "sample_mail_db = (fresh_database 0)\<lparr>exception_events := [sample_mail_event ''e1'' ''sending'', sample_mail_event ''e2'' ''pending'']\<rparr>"

lemma sample_mail_ids: "distinct (map ev_id (exception_events sample_mail_db))"
  by (simp add: sample_mail_db_def sample_mail_event_def)

theorem dispatch_exact_witness:
  "\<exists>n h' outbox' db'. dispatch_pending_sla_notifications (\<lambda>_. []) (\<lambda>_. working_mailer) (\<lambda>_. 9) (\<lambda>_. []) 0 None [] sample_mail_db
     = Some (n, h', outbox', db') \<and> length outbox' = n"
  using dispatch_exact [OF sample_mail_ids, of "\<lambda>_. []" "\<lambda>_. working_mailer" "\<lambda>_. 9" "\<lambda>_. []" None "[]"] by auto

theorem sending_event_stuck_witness:
  "\<exists>n h' outbox' db'. dispatch_pending_sla_notifications (\<lambda>_. []) (\<lambda>_. working_mailer) (\<lambda>_. 9) (\<lambda>_. []) 0 None [] sample_mail_db
     = Some (n, h', outbox', db') \<and> get_event ''e1'' db' = Some (sample_mail_event ''e1'' ''sending'')"
proof -
  have e: "sample_mail_event ''e1'' ''sending'' \<in> set (exception_events sample_mail_db)"
    "ev_notification_status (sample_mail_event ''e1'' ''sending'') = ''sending''"
    "ev_id (sample_mail_event ''e1'' ''sending'') = ''e1''"
    by (simp_all add: sample_mail_db_def sample_mail_event_def)
  show ?thesis using sending_event_stuck [OF sample_mail_ids e(1,2)] unfolding e(3) by blast
qed

definition sample_summary :: summary where
  "sample_summary = summary_result ''a.pdf'' ''r'' ''failed'' None (JStr ''boom'') None None None None"

theorem batch_summary_recorded_witness:
  "\<exists>mail row db'. send_batch_summary working_mailer [sample_summary] [] (fresh_database 0) = (Inr (), [mail], db')
     \<and> notifications db' = [row] \<and> nt_complete_count row + nt_awaiting_review_count row + nt_failed_count row = 1"
proof -
  have st: "sm_processing_status s \<in> {''complete'', ''awaiting_review'', ''failed''}" if "s \<in> set [sample_summary]" for s
    using that by (simp add: sample_summary_def summary_result_def Let_def)
  have "fst (snd (send_batch_summary working_mailer [sample_summary] [] (fresh_database 0))) \<noteq> []"
    by code_simp
  then obtain r outbox' db' where run: "send_batch_summary working_mailer [sample_summary] [] (fresh_database 0) = (r, outbox', db')"
    "outbox' \<noteq> []" by (metis fst_conv prod_cases3 snd_conv)
  from batch_summary_recorded [OF _ st run(1)] run(2) obtain mail row where
    "r = Inr ()" "outbox' = [mail]" "db' = (fresh_database 0)\<lparr>notifications := notifications (fresh_database 0) @ [row],
        notif_seq := Suc (notif_seq (fresh_database 0))\<rparr>" "nt_total_count row = length [sample_summary]"
      "nt_complete_count row + nt_awaiting_review_count row + nt_failed_count row = nt_total_count row" by auto
  with run(1) show ?thesis by (auto simp: fresh_database_def)
qed

end
