(* ===== verification/Gmail_Poller.thy ===== *)
theory Gmail_Poller
  imports Invoice_Worker Health
begin

text \<open>
  Mail ingestion (\<open>app/services/gmail_poller.py\<close>). The Gmail service is the parameter \<open>gmail\<close>:
  the account, the unread messages it lists, a message, the data of an attachment, and
  whether marking a message as read succeeds. A poll returns the messages it marked, the
  keyspace with the queued jobs, and the health outcome. The lemmas show that decoding is
  the inverse of the encoding Gmail uses, that a message is marked only when each of its
  attachments is queued, and that no attachment is queued twice.
\<close>

section \<open>Attachments\<close>

definition SUPPORTED_ATTACHMENT_EXTENSIONS :: "string list" where
  "SUPPORTED_ATTACHMENT_EXTENSIONS = [''.pdf'', ''.png'', ''.jpg'', ''.jpeg'']"

definition supported_attachment :: "string \<Rightarrow> bool" where
  "supported_attachment filename \<longleftrightarrow> py_lower (path_suffix filename) \<in> set SUPPORTED_ATTACHMENT_EXTENSIONS"

text \<open>\<open>base64.urlsafe_b64decode\<close>: the alphabet is translated, then characters outside it are
  skipped (the decoder is not strict), and the end of a padding ends the input.\<close>

definition urlsafe_char :: "char \<Rightarrow> char" where
  "urlsafe_char c = (if c = CHR ''-'' then CHR ''+'' else if c = CHR ''_'' then CHR ''/'' else c)"

fun a2b_base64 :: "nat \<Rightarrow> nat \<Rightarrow> nat \<Rightarrow> string \<Rightarrow> string option" where
  "a2b_base64 quad left pads [] = (if quad = 0 then Some [] else None)"
| "a2b_base64 quad left pads (c # cs) =
     (if c = CHR ''='' then
        (if 2 \<le> quad \<and> 4 \<le> quad + Suc pads then Some []
         else a2b_base64 quad left (if 2 \<le> quad then Suc pads else pads) cs)
      else (case b64_value c of
          None \<Rightarrow> a2b_base64 quad left pads cs
        | Some v \<Rightarrow>
            if quad = 0 then a2b_base64 1 v 0 cs
            else if quad = 1 then map_option (Cons (char_of (left * 4 + v div 16))) (a2b_base64 2 (v mod 16) 0 cs)
            else if quad = 2 then map_option (Cons (char_of (left * 16 + v div 4))) (a2b_base64 3 (v mod 4) 0 cs)
            else map_option (Cons (char_of (left * 64 + v))) (a2b_base64 0 0 0 cs)))"

definition restore_padding :: "string \<Rightarrow> string" where
  "restore_padding data = data @ replicate (nat (- int (length data) mod 4)) CHR ''=''"

definition decode_gmail_attachment :: "string \<Rightarrow> string result" where
  "decode_gmail_attachment data =
     (if list_ex (\<lambda>c. 128 \<le> byte c) data then Inl (ValueError ''ordinal not in range(128)'')
      else (case a2b_base64 0 0 0 (map urlsafe_char (restore_padding data)) of
          None \<Rightarrow> Inl (ValueError ''Incorrect padding'') | Some b \<Rightarrow> Inr b))"

datatype part = Part (pt_filename: "string option") (pt_part_id: "string option") (pt_attachment_id: "string option")
  (pt_data: "string option") (pt_parts: "part list")

definition taken :: "part \<Rightarrow> bool" where
  "taken p \<longleftrightarrow> text_set (pt_filename p) \<and> supported_attachment (the (pt_filename p))
     \<and> (text_set (pt_attachment_id p) \<or> text_set (pt_data p))"

fun iter_attachment_parts :: "part list \<Rightarrow> part list" where
  "iter_attachment_parts [] = []"
| "iter_attachment_parts (Part f i a d sub # ps) =
     iter_attachment_parts sub @ (if taken (Part f i a d sub) then [Part f i a d sub] else []) @ iter_attachment_parts ps"

section \<open>The mailbox\<close>

record gmail_message =
  gm_thread_id :: string
  gm_parts :: "part list"

record gmail =
  gs_service :: "unit result"
  gs_address :: "string result"
  gs_messages :: "string list result"
  gs_get :: "string \<Rightarrow> gmail_message result"
  gs_attachment :: "string \<Rightarrow> string \<Rightarrow> string result"
  gs_modify :: "string \<Rightarrow> unit result"

record attachment =
  at_message_id :: string
  at_mime_part_id :: "string option"
  at_filename :: string
  at_file_bytes :: string
  at_gmail_thread_id :: string

definition part_data :: "gmail \<Rightarrow> string \<Rightarrow> part \<Rightarrow> string result" where
  "part_data g message_id p = (if text_set (pt_data p) then Inr (the (pt_data p))
     else (case pt_attachment_id p of None \<Rightarrow> Inl (KeyError ''attachmentId'') | Some i \<Rightarrow> gs_attachment g message_id i))"

definition part_attachment :: "gmail \<Rightarrow> string \<Rightarrow> string \<Rightarrow> part \<Rightarrow> attachment result" where
  "part_attachment g message_id thread_id p =
     (case part_data g message_id p of
        Inl e \<Rightarrow> Inl e
      | Inr data \<Rightarrow> (case decode_gmail_attachment data of
            Inl e \<Rightarrow> Inl e
          | Inr file_bytes \<Rightarrow> Inr \<lparr>at_message_id = message_id,
              at_mime_part_id = (if text_set (pt_part_id p) then pt_part_id p else pt_attachment_id p),
              at_filename = the (pt_filename p), at_file_bytes = b64encode file_bytes, at_gmail_thread_id = thread_id\<rparr>))"

fun download_parts :: "gmail \<Rightarrow> string \<Rightarrow> string \<Rightarrow> part list \<Rightarrow> attachment list result" where
  "download_parts g message_id thread_id [] = Inr []"
| "download_parts g message_id thread_id (p # ps) =
     (case part_attachment g message_id thread_id p of
        Inl e \<Rightarrow> Inl e
      | Inr a \<Rightarrow> (case download_parts g message_id thread_id ps of Inl e \<Rightarrow> Inl e | Inr as \<Rightarrow> Inr (a # as)))"

definition download_supported_attachments :: "gmail \<Rightarrow> string \<Rightarrow> attachment list result" where
  "download_supported_attachments g message_id =
     (case gs_get g message_id of
        Inl e \<Rightarrow> Inl e
      | Inr m \<Rightarrow> download_parts g message_id (gm_thread_id m) (iter_attachment_parts (gm_parts m)))"

definition attachment_idempotency_key :: "string \<Rightarrow> string \<Rightarrow> string \<Rightarrow> string" where
  "attachment_idempotency_key gmail_account message_id mime_part_id =
     sha256_hex (''gmail:v1'' @ [CHR 0x00] @ py_lower (py_strip gmail_account) @ [CHR 0x00] @ message_id
       @ [CHR 0x00] @ mime_part_id)"

definition gmail_account :: "gmail \<Rightarrow> string result" where
  "gmail_account g = (case gs_address g of Inl e \<Rightarrow> Inl e | Inr a \<Rightarrow> Inr (py_lower (py_strip a)))"

section \<open>A poll\<close>

text \<open>\<open>f"{mime_part_id}"\<close> of a missing part id is the text None; the envelope refuses it.\<close>

definition attachment_key :: "string \<Rightarrow> attachment \<Rightarrow> string" where
  "attachment_key account a = attachment_idempotency_key account (at_message_id a)
     (case at_mime_part_id a of None \<Rightarrow> ''None'' | Some i \<Rightarrow> i)"

definition attachment_job :: "string \<Rightarrow> datetime \<Rightarrow> attachment \<Rightarrow> envelope result" where
  "attachment_job account now a =
     (case b64decode (at_file_bytes a) of
        None \<Rightarrow> Inl (ValueError ''Incorrect padding'')
      | Some file_bytes \<Rightarrow>
          (case at_mime_part_id a of
             None \<Rightarrow> Inl (ValueError ''mime_part_id: Input should be a valid string'')
           | Some i \<Rightarrow>
               (let job = \<lparr>jb_idempotency_key = attachment_key account a, jb_gmail_account = account,
                      jb_message_id = at_message_id a, jb_gmail_thread_id = at_gmail_thread_id a, jb_mime_part_id = i,
                      jb_filename = at_filename a, jb_file_bytes = at_file_bytes a,
                      jb_content_sha256 = sha256_hex file_bytes, jb_enqueued_at = now\<rparr> in
                if envelope_ok job then Inr job else Inl (ValueError ''InvoiceJobEnvelope''))))"

definition queue_job :: "pydantic \<Rightarrow> settings \<Rightarrow> envelope \<Rightarrow> string cmd" where
  "queue_job pd cfg job = enqueue_job pd (INVOICE_STREAM cfg) (INVOICE_DEDUPE_PREFIX cfg) (INVOICE_DEDUPE_TTL_SECONDS cfg) job"

text \<open>The inner loop: an error stops it, and keeps what was queued.\<close>

fun queue_attachments ::
  "pydantic \<Rightarrow> settings \<Rightarrow> string \<Rightarrow> (string \<Rightarrow> datetime) \<Rightarrow> attachment list \<Rightarrow> unit cmd" where
  "queue_attachments pd cfg account clock [] r = (Inr (), r)"
| "queue_attachments pd cfg account clock (a # as) r =
     (case attachment_job account (clock (attachment_key account a)) a of
        Inl e \<Rightarrow> (Inl e, r)
      | Inr job \<Rightarrow> (case queue_job pd cfg job r of
            (Inl e, r) \<Rightarrow> (Inl e, r)
          | (Inr _, r) \<Rightarrow> queue_attachments pd cfg account clock as r))"

text \<open>The loop over the messages; \<open>marked\<close> collects those marked as read.\<close>

fun poll_messages ::
  "gmail \<Rightarrow> pydantic \<Rightarrow> settings \<Rightarrow> string \<Rightarrow> (string \<Rightarrow> datetime) \<Rightarrow> string list \<Rightarrow> string list \<Rightarrow> redis
   \<Rightarrow> unit result \<times> string list \<times> redis" where
  "poll_messages g pd cfg account clock [] marked r = (Inr (), marked, r)"
| "poll_messages g pd cfg account clock (m # ms) marked r =
     (case download_supported_attachments g m of
        Inl e \<Rightarrow> (Inl e, marked, r)
      | Inr [] \<Rightarrow> poll_messages g pd cfg account clock ms marked r
      | Inr (a # as) \<Rightarrow>
          (case queue_attachments pd cfg account clock (a # as) r of
             (Inl e, r) \<Rightarrow> (Inl e, marked, r)
           | (Inr _, r) \<Rightarrow> (case gs_modify g m of
                 Inl e \<Rightarrow> (Inl e, marked, r)
               | Inr _ \<Rightarrow> poll_messages g pd cfg account clock ms (marked @ [m]) r)))"

definition on_gmail :: "(background_outcome \<Rightarrow> background_outcome) \<Rightarrow> runtime_health option \<Rightarrow> runtime_health option" where
  "on_gmail f = map_option (\<lambda>h. h\<lparr>rh_gmail := f (rh_gmail h)\<rparr>)"

definition poll_steps :: "gmail \<Rightarrow> pydantic \<Rightarrow> settings \<Rightarrow> (string \<Rightarrow> datetime) \<Rightarrow> redis \<Rightarrow> unit result \<times> string list \<times> redis" where
  "poll_steps g pd cfg clock r =
     (case gs_service g of
        Inl e \<Rightarrow> (Inl e, [], r)
      | Inr _ \<Rightarrow> (case gmail_account g of
            Inl e \<Rightarrow> (Inl e, [], r)
          | Inr account \<Rightarrow> (case gs_messages g of
                Inl e \<Rightarrow> (Inl e, [], r)
              | Inr messages \<Rightarrow> poll_messages g pd cfg account clock messages [] r)))"

definition poll_inbox ::
  "(py_error \<Rightarrow> string) \<Rightarrow> gmail \<Rightarrow> pydantic \<Rightarrow> settings \<Rightarrow> (string \<Rightarrow> datetime) \<Rightarrow> datetime \<Rightarrow> datetime
   \<Rightarrow> runtime_health option \<Rightarrow> redis \<Rightarrow> nat result \<times> runtime_health option \<times> string list \<times> redis" where
  "poll_inbox lib g pd cfg clock t0 t1 h r =
     (let h = on_gmail (started t0) h in
      case poll_steps g pd cfg clock r of
        (Inl e, marked, r) \<Rightarrow> (Inl e, on_gmail (failed t1 (reason_code_for_exception (str_exc lib e))) h, marked, r)
      | (Inr _, marked, r) \<Rightarrow>
          (Inr (length marked), on_gmail (succeeded t1 (Some (length marked))) h, marked, r))"

section \<open>Decoding\<close>

text \<open>What Gmail sends: base64 with the URL alphabet, with or without its padding.\<close>

definition gmail_char :: "char \<Rightarrow> char" where
  "gmail_char c = (if c = CHR ''+'' then CHR ''-'' else if c = CHR ''/'' then CHR ''_'' else c)"

definition gmail_encode :: "bool \<Rightarrow> string \<Rightarrow> string" where
  "gmail_encode padded s = (if padded then map gmail_char (b64encode s)
     else takeWhile (\<lambda>c. c \<noteq> CHR ''='') (map gmail_char (b64encode s)))"

lemma a2b_b64encode: "a2b_base64 0 0 0 (b64encode s) = Some s"
proof (induction s rule: b64encode.induct)
  case (2 a)
  show ?case using b64_char_not_pad [OF byte_parts(1)] b64_char_not_pad [of "byte a mod 4 * 16"]
    by (simp add: b64_value_char byte_parts byte_join byte_div)
next
  case (3 a b)
  show ?case
    using b64_char_not_pad [OF byte_parts(1)] b64_char_not_pad [OF byte_parts(2)] b64_char_not_pad [OF byte_parts(5)]
    by (simp add: b64_value_char byte_parts byte_join byte_div)
next
  case (4 a b c cs)
  then show ?case
    using b64_char_not_pad [OF byte_parts(1)] b64_char_not_pad [OF byte_parts(2)] b64_char_not_pad [OF byte_parts(3)]
      b64_char_not_pad [of "byte c mod 64"]
    by (simp add: b64_value_char byte_parts byte_join byte_div)
qed simp

lemma b64_shape:
  "\<exists>body k. b64encode s = body @ replicate k CHR ''='' \<and> list_all (\<lambda>c. b64_value c \<noteq> None) body \<and> k \<le> 2
     \<and> 4 dvd length body + k"
proof (induction s rule: b64encode.induct)
  case 1
  show ?case by (intro exI [of _ "[]"] exI [of _ 0]) simp
next
  case (2 a)
  show ?case
    by (rule exI [of _ "[b64_char (byte a div 4), b64_char ((byte a mod 4) * 16)]"], rule exI [of _ 2])
      (simp add: b64_value_char byte_parts numeral_2_eq_2, presburger)
next
  case (3 a b)
  show ?case
    by (rule exI [of _ "[b64_char (byte a div 4), b64_char ((byte a mod 4) * 16 + byte b div 16), b64_char ((byte b mod 16) * 4)]"],
        rule exI [of _ 1]) (simp add: b64_value_char byte_parts, presburger)
next
  case (4 a b c cs)
  then obtain body k where ih: "b64encode cs = body @ replicate k CHR ''=''" "list_all (\<lambda>c. b64_value c \<noteq> None) body"
      "k \<le> 2" "4 dvd length body + k" by blast
  let ?q = "[b64_char (byte a div 4), b64_char ((byte a mod 4) * 16 + byte b div 16),
      b64_char ((byte b mod 16) * 4 + byte c div 64), b64_char (byte c mod 64)]"
  have "length (?q @ body) + k = length body + k + 4" by simp
  then have "4 dvd length (?q @ body) + k" using ih(4) by (metis dvd_add_triv_right_iff)
  then show ?case using ih by (intro exI [of _ "?q @ body"] exI [of _ k]) (simp add: b64_value_char byte_parts)
qed

lemma b64_value_facts: "b64_value c \<noteq> None \<Longrightarrow> byte c < 128 \<and> c \<noteq> CHR ''-'' \<and> c \<noteq> CHR ''_'' \<and> c \<noteq> CHR ''=''"
  by (auto simp: b64_value_def Let_def byte_def split: if_splits)

lemma gmail_char_facts:
  "b64_value c \<noteq> None \<Longrightarrow> byte (gmail_char c) < 128" "b64_value c \<noteq> None \<Longrightarrow> gmail_char c \<noteq> CHR ''=''"
  "b64_value c \<noteq> None \<Longrightarrow> urlsafe_char (gmail_char c) = c" "gmail_char CHR ''='' = CHR ''=''" "urlsafe_char CHR ''='' = CHR ''=''"
  using b64_value_facts [of c] by (auto simp: gmail_char_def urlsafe_char_def byte_def)

lemma neg_mod_pad: "4 dvd n + k \<Longrightarrow> k \<le> 2 \<Longrightarrow> nat (- int n mod 4) = k"
proof -
  assume a: "4 dvd n + k" "k \<le> 2"
  then obtain j where "n + k = 4 * j" by (elim dvdE)
  then have "- int n = int k + 4 * (- int j)" by linarith
  then have "- int n mod 4 = int k mod 4" by (metis mod_mult_self2)
  with a(2) show ?thesis by simp
qed

text \<open>C34: an attachment is read back as it was sent. For any bytes, in Gmail's URL-safe base64, with the padding or
  without it, the poller decodes exactly those bytes.\<close>

theorem gmail_decode_inverse: "decode_gmail_attachment (gmail_encode padded s) = Inr s"
proof -
  obtain body k where e: "b64encode s = body @ replicate k CHR ''=''" and ok: "list_all (\<lambda>c. b64_value c \<noteq> None) body"
    and k: "k \<le> 2" "4 dvd length body + k" using b64_shape by blast
  have tw: "takeWhile (\<lambda>c. c \<noteq> CHR ''='') (map gmail_char body @ replicate k CHR ''='') = map gmail_char body"
  proof -
    have "takeWhile (\<lambda>c. c \<noteq> CHR ''='') (map gmail_char body @ replicate k CHR ''='')
        = map gmail_char body @ takeWhile (\<lambda>c. c \<noteq> CHR ''='') (replicate k CHR ''='')"
      using ok by (intro takeWhile_append2) (auto simp: list_all_iff gmail_char_facts)
    then show ?thesis by (cases k) simp_all
  qed
  have enc: "gmail_encode padded s = map gmail_char body @ (if padded then replicate k CHR ''='' else [])"
    by (simp add: gmail_encode_def e gmail_char_facts tw)
  have "nat (- int (length body + k) mod 4) = 0" using neg_mod_pad [of "length body + k" 0] k(2) by simp
  then have "restore_padding (gmail_encode padded s) = map gmail_char body @ replicate k CHR ''=''"
    using neg_mod_pad [OF k(2,1)] by (simp add: restore_padding_def enc)
  then have "map urlsafe_char (restore_padding (gmail_encode padded s)) = b64encode s"
    using ok by (auto simp: e list_all_iff gmail_char_facts intro!: map_idI)
  moreover have "\<not> list_ex (\<lambda>c. 128 \<le> byte c) (gmail_encode padded s)"
  proof -
    have "byte (gmail_char c) < 128" if "c \<in> set body" for c using ok that by (simp add: list_all_iff gmail_char_facts(1))
    moreover have "byte CHR ''='' < 128" by (simp add: byte_def)
    ultimately show ?thesis by (auto simp: enc list_ex_iff not_le)
  qed
  ultimately show ?thesis by (simp add: decode_gmail_attachment_def a2b_b64encode)
qed

section \<open>Parts\<close>

text \<open>The reference reading: every part of the message, an inner part before the one that holds it.\<close>

fun all_parts :: "part \<Rightarrow> part list" where
  "all_parts (Part f i a d sub) = concat (map all_parts sub) @ [Part f i a d sub]"

lemma iter_is_filter: "iter_attachment_parts ps = filter taken (concat (map all_parts ps))"
  by (induction ps rule: iter_attachment_parts.induct) simp_all

section \<open>Queueing\<close>

definition dedupe_key :: "settings \<Rightarrow> string \<Rightarrow> string" where
  "dedupe_key cfg k = INVOICE_DEDUPE_PREFIX cfg @ '':'' @ k"

text \<open>An attachment with this key is remembered as queued.\<close>

definition queued :: "settings \<Rightarrow> redis \<Rightarrow> string \<Rightarrow> bool" where
  "queued cfg r k \<longleftrightarrow> rs_look (dedupe_key cfg k) r \<noteq> None"

text \<open>What a poll needs of the keyspace: the stream is a stream, its key is no dedupe key, and dedupe keys
  hold strings.\<close>

definition ingest_ready :: "settings \<Rightarrow> redis \<Rightarrow> bool" where
  "ingest_ready cfg r \<longleftrightarrow> (\<exists>v. stream_at (INVOICE_STREAM cfg) r = Inr v) \<and> (\<forall>k. INVOICE_STREAM cfg \<noteq> dedupe_key cfg k)
     \<and> (\<forall>k v. rs_look (dedupe_key cfg k) r = Some v \<longrightarrow> (\<exists>i t. v = RString i t)) \<and> 0 < INVOICE_DEDUPE_TTL_SECONDS cfg"

text \<open>What \<open>r'\<close> adds to \<open>r\<close>: entries of the given jobs, whose keys were not queued and now are.\<close>

definition adds_jobs :: "pydantic \<Rightarrow> settings \<Rightarrow> envelope list \<Rightarrow> redis \<Rightarrow> redis \<Rightarrow> bool" where
  "adds_jobs pd cfg jobs r r' \<longleftrightarrow> ingest_ready cfg r'
     \<and> (\<exists>ids. length ids = length jobs \<and> entries_at (INVOICE_STREAM cfg) r' = entries_at (INVOICE_STREAM cfg) r
          @ map2 (\<lambda>i job. (i, [(''payload'', model_dump_json pd job)])) ids jobs)
     \<and> distinct (map jb_idempotency_key jobs) \<and> list_all envelope_ok jobs
     \<and> (\<forall>k. queued cfg r' k \<longleftrightarrow> queued cfg r k \<or> k \<in> jb_idempotency_key ` set jobs)
     \<and> (\<forall>job \<in> set jobs. \<not> queued cfg r (jb_idempotency_key job))"

lemma adds_jobs_refl: "ingest_ready cfg r \<Longrightarrow> adds_jobs pd cfg [] r r"
  by (simp add: adds_jobs_def)

lemma adds_jobsD:
  assumes "adds_jobs pd cfg jobs r r'"
  shows "ingest_ready cfg r'" "distinct (map jb_idempotency_key jobs)" "list_all envelope_ok jobs"
    "queued cfg r' k \<longleftrightarrow> queued cfg r k \<or> k \<in> jb_idempotency_key ` set jobs"
    "job \<in> set jobs \<Longrightarrow> \<not> queued cfg r (jb_idempotency_key job)"
  using assms unfolding adds_jobs_def by (elim conjE; simp)+

lemma adds_jobs_trans:
  assumes "adds_jobs pd cfg js1 r r1" and "adds_jobs pd cfg js2 r1 r2"
  shows "adds_jobs pd cfg (js1 @ js2) r r2"
proof -
  from assms obtain i1 i2 where i: "length i1 = length js1" "length i2 = length js2"
    "entries_at (INVOICE_STREAM cfg) r1 = entries_at (INVOICE_STREAM cfg) r
          @ map2 (\<lambda>i job. (i, [(''payload'', model_dump_json pd job)])) i1 js1"
    "entries_at (INVOICE_STREAM cfg) r2 = entries_at (INVOICE_STREAM cfg) r1
          @ map2 (\<lambda>i job. (i, [(''payload'', model_dump_json pd job)])) i2 js2"
    unfolding adds_jobs_def by blast
  have e: "\<exists>ids. length ids = length (js1 @ js2) \<and> entries_at (INVOICE_STREAM cfg) r2 = entries_at (INVOICE_STREAM cfg) r
          @ map2 (\<lambda>i job. (i, [(''payload'', model_dump_json pd job)])) ids (js1 @ js2)"
    using i by (intro exI [of _ "i1 @ i2"]) simp
  note d1 = adds_jobsD [OF assms(1)] and d2 = adds_jobsD [OF assms(2)]
  have q: "queued cfg r1 k" if "k \<in> jb_idempotency_key ` set js1" for k using that d1(4) [of k] by simp
  have nq: "\<not> queued cfg r1 k" if "k \<in> jb_idempotency_key ` set js2" for k using that d2(5) by (elim imageE) simp
  have "jb_idempotency_key ` set js1 \<inter> jb_idempotency_key ` set js2 = {}" using q nq by blast
  then have dist: "distinct (map jb_idempotency_key (js1 @ js2))" using d1(2) d2(2) by simp
  have new: "\<forall>job \<in> set (js1 @ js2). \<not> queued cfg r (jb_idempotency_key job)"
    using d1(4,5) d2(5) by (simp only: set_append) blast
  have "\<forall>k. queued cfg r2 k \<longleftrightarrow> queued cfg r k \<or> k \<in> jb_idempotency_key ` set (js1 @ js2)"
    by (simp add: d1(4) d2(4) image_Un disj_assoc)
  with e dist new d2(1) d1(3) d2(3) show ?thesis unfolding adds_jobs_def by simp
qed

lemma queue_job_adds:
  assumes ready: "ingest_ready cfg r" and ok: "envelope_ok job"
  shows "\<exists>i r'. queue_job pd cfg job r = (Inr i, r')
     \<and> adds_jobs pd cfg (if queued cfg r (jb_idempotency_key job) then [] else [job]) r r'"
proof (cases "rs_look (dedupe_key cfg (jb_idempotency_key job)) r")
  case (Some v)
  with ready obtain i t where "v = RString i t" unfolding ingest_ready_def by blast
  with Some have "queue_job pd cfg job r = (Inr i, r)"
    by (simp add: queue_job_def enqueue_job_def dedupe_key_def enqueue_script_existing)
  with Some adds_jobs_refl [OF ready] show ?thesis by (simp add: queued_def)
next
  case None
  let ?S = "INVOICE_STREAM cfg" and ?K = "dedupe_key cfg (jb_idempotency_key job)"
  from ready obtain v where v: "stream_at ?S r = Inr v" by (auto simp: ingest_ready_def)
  obtain i s where new: "stream_add (rs_now r) [(''payload'', model_dump_json pd job)]
      (case v of None \<Rightarrow> empty_stream | Some s \<Rightarrow> s) = (i, s)" by fastforce
  define r1 where "r1 = rs_put ?S (RStream s) r"
  define r' where "r' = rs_put ?K (RString (show_sid i) (Some (rs_now r + 1000 * INVOICE_DEDUPE_TTL_SECONDS cfg))) r1"
  have add: "xadd ?S [(''payload'', model_dump_json pd job)] r = (Inr i, r1)" using v new by (simp add: xadd_def r1_def)
  have ttl: "0 < INVOICE_DEDUPE_TTL_SECONDS cfg" and ne: "?S \<noteq> dedupe_key cfg k" for k using ready by (auto simp: ingest_ready_def)
  have run: "queue_job pd cfg job r = (Inr (show_sid i), r')"
    using None add ttl
    by (simp add: queue_job_def enqueue_job_def enqueue_script_def get_key_def set_ex_def cmd_simps dedupe_key_def r'_def r1_def)
  have look: "rs_look (dedupe_key cfg k) r' = (if k = jb_idempotency_key job
      then Some (RString (show_sid i) (Some (rs_now r + 1000 * INVOICE_DEDUPE_TTL_SECONDS cfg))) else rs_look (dedupe_key cfg k) r)" for k
    using ttl ne [of k] by (auto simp: r'_def r1_def dedupe_key_def)
  have "entries_at ?S r' = entries_at ?S r1" "stream_at ?S r' = stream_at ?S r1"
    using ne by (simp_all add: entries_at_def stream_at_def r'_def)
  then have "entries_at ?S r' = entries_at ?S r @ map2 (\<lambda>i job. (i, [(''payload'', model_dump_json pd job)])) [i] [job]"
      "\<exists>v. stream_at ?S r' = Inr v"
    using xadd_effect(1) [OF add] by (simp_all add: r1_def stream_at_def)
  moreover from this(2) have "ingest_ready cfg r'" using ready look unfolding ingest_ready_def by auto
  ultimately have "adds_jobs pd cfg [job] r r'"
    using None ok look unfolding adds_jobs_def queued_def by (auto intro!: exI [of _ "[i]"])
  with run None show ?thesis by (simp add: queued_def)
qed

lemma attachment_job_ok:
  assumes "attachment_job account now a = Inr job"
  shows "envelope_ok job" "jb_idempotency_key job = attachment_key account a"
  using assms by (auto simp: attachment_job_def Let_def split: option.splits if_splits)

lemma queue_attachments_adds:
  assumes "ingest_ready cfg r" and "queue_attachments pd cfg account clock as r = (res, r')"
  shows "\<exists>jobs. adds_jobs pd cfg jobs r r' \<and> (res = Inr () \<longrightarrow> (\<forall>a \<in> set as. queued cfg r' (attachment_key account a)))"
  using assms
proof (induction as arbitrary: r)
  case Nil
  then show ?case using adds_jobs_refl by auto
next
  case (Cons a as)
  show ?case
  proof (cases "attachment_job account (clock (attachment_key account a)) a")
    case (Inl e)
    with Cons.prems show ?thesis using adds_jobs_refl by auto
  next
    case (Inr job)
    note job = attachment_job_ok [OF Inr]
    obtain i r1 where q: "queue_job pd cfg job r = (Inr i, r1)"
        "adds_jobs pd cfg (if queued cfg r (jb_idempotency_key job) then [] else [job]) r r1"
      using queue_job_adds [OF Cons.prems(1) job(1)] by blast
    have rest: "queue_attachments pd cfg account clock as r1 = (res, r')" using Cons.prems(2) Inr q(1) by simp
    from Cons.IH [OF adds_jobsD(1) [OF q(2)] rest] obtain jobs where jobs: "adds_jobs pd cfg jobs r1 r'"
        "res = Inr () \<longrightarrow> (\<forall>a \<in> set as. queued cfg r' (attachment_key account a))" by blast
    have "queued cfg r1 (attachment_key account a)" using adds_jobsD(4) [OF q(2)] job(2) by (simp split: if_splits)
    then have "queued cfg r' (attachment_key account a)" using adds_jobsD(4) [OF jobs(1)] by simp
    with adds_jobs_trans [OF q(2) jobs(1)] jobs(2) show ?thesis by (metis set_ConsD)
  qed
qed

definition has_attachments :: "gmail \<Rightarrow> string \<Rightarrow> bool" where
  "has_attachments g m \<longleftrightarrow> download_supported_attachments g m \<noteq> Inr []"

definition all_queued :: "gmail \<Rightarrow> settings \<Rightarrow> string \<Rightarrow> redis \<Rightarrow> string \<Rightarrow> bool" where
  "all_queued g cfg account r m \<longleftrightarrow> (\<exists>as. download_supported_attachments g m = Inr as \<and> as \<noteq> []
     \<and> (\<forall>a \<in> set as. queued cfg r (attachment_key account a)))"

lemma all_queued_mono: "all_queued g cfg account r m \<Longrightarrow> adds_jobs pd cfg jobs r r' \<Longrightarrow> all_queued g cfg account r' m"
  unfolding all_queued_def using adds_jobsD(4) by blast

lemma poll_messages_adds:
  assumes "ingest_ready cfg r" and "poll_messages g pd cfg account clock ms marked r = (res, marked', r')"
  shows "\<exists>jobs new. adds_jobs pd cfg jobs r r' \<and> marked' = marked @ new \<and> set new \<subseteq> set ms
    \<and> (\<forall>m \<in> set new. all_queued g cfg account r' m) \<and> (res = Inr () \<longrightarrow> new = filter (has_attachments g) ms)"
  using assms
proof (induction ms arbitrary: marked r)
  case Nil
  then show ?case using adds_jobs_refl by fastforce
next
  case (Cons m ms)
  have stop: ?case if "marked' = marked" "adds_jobs pd cfg jobs r r'" "res \<noteq> Inr ()" for jobs
    using that by (intro exI [of _ jobs] exI [of _ "[]"]) simp
  show ?case
  proof (cases "download_supported_attachments g m")
    case (Inl e)
    with Cons.prems show ?thesis by (intro stop [of "[]"]) (auto simp: adds_jobs_refl)
  next
    case (Inr as)
    show ?thesis
    proof (cases as)
      case Nil
      with Inr Cons.prems(2) have "poll_messages g pd cfg account clock ms marked r = (res, marked', r')" by simp
      from Cons.IH [OF Cons.prems(1) this] Nil Inr show ?thesis by (auto simp: has_attachments_def)
    next
      case as: (Cons a as')
      obtain x r1 where q: "queue_attachments pd cfg account clock as r = (x, r1)" by fastforce
      from queue_attachments_adds [OF Cons.prems(1) q] obtain js where js: "adds_jobs pd cfg js r r1"
          "x = Inr () \<longrightarrow> (\<forall>a \<in> set as. queued cfg r1 (attachment_key account a))" by blast
      show ?thesis
      proof (cases "\<exists>e. x = Inl e \<or> gs_modify g m = Inl e")
        case True
        with Inr as q Cons.prems(2) js(1) show ?thesis by (intro stop [of js]) (auto split: sum.splits)
      next
        case False
        then have ok: "x = Inr ()" "gs_modify g m = Inr ()" by (metis old.unit.exhaust sumE)+
        with Inr as q Cons.prems(2) have "poll_messages g pd cfg account clock ms (marked @ [m]) r1 = (res, marked', r')"
          by (simp split: unit.split)
        from Cons.IH [OF adds_jobsD(1) [OF js(1)] this] obtain jobs new where
          n: "adds_jobs pd cfg jobs r1 r'" "marked' = (marked @ [m]) @ new" "set new \<subseteq> set ms"
            "\<forall>m \<in> set new. all_queued g cfg account r' m" "res = Inr () \<longrightarrow> new = filter (has_attachments g) ms" by blast
        have "all_queued g cfg account r1 m" using Inr as js(2) ok(1) unfolding all_queued_def by blast
        then have "all_queued g cfg account r' m" using n(1) by (rule all_queued_mono)
        moreover have "has_attachments g m" using Inr as by (simp add: has_attachments_def)
        ultimately show ?thesis
          using adds_jobs_trans [OF js(1) n(1)] n by (intro exI [of _ "js @ jobs"] exI [of _ "m # new"]) auto
      qed
    qed
  qed
qed


text \<open>One empty attachment stops the ingestion. When the first attachment of the first unread message is empty, the
  poll fails and marks nothing; the message stays unread and first in the list, so every later poll fails the same way
  and the messages behind it are never looked at.\<close>

theorem empty_attachment_blocks_poll:
  assumes "gs_service g = Inr ()" and "gmail_account g = Inr account" and "gs_messages g = Inr (m # ms)"
    and "download_supported_attachments g m = Inr (a # as)" and "at_file_bytes a = []"
  shows "\<exists>e h'. poll_inbox lib g pd cfg clock t0 t1 (Some h) r = (Inl e, Some h', [], r)
    \<and> bo_reason_code (rh_gmail h') = Some ''operation_failed''"
proof -
  have "\<not> envelope_ok job" if "jb_file_bytes job = []" for job using that by (simp add: envelope_ok_def)
  then obtain msg where e: "attachment_job account (clock (attachment_key account a)) a = Inl (ValueError msg)"
      "\<not> contains ''No Gmail token found'' msg"
    using assms(5) by (cases "at_mime_part_id a") (simp_all add: attachment_job_def Let_def contains_def)
  then have "poll_messages g pd cfg account clock (m # ms) [] r = (Inl (ValueError msg), [], r)" using assms(4) by simp
  then have "poll_steps g pd cfg clock r = (Inl (ValueError msg), [], r)" using assms(1-3) by (simp add: poll_steps_def)
  then show ?thesis
    using e(2) by (simp add: poll_inbox_def Let_def on_gmail_def failed_def reason_code_for_exception_def)
qed

section \<open>A concrete mailbox\<close>

definition sample_gmail :: "string \<Rightarrow> gmail" where
  "sample_gmail data = \<lparr>gs_service = Inr (), gs_address = Inr '' AP@Example.com'', gs_messages = Inr [''m1''],
     gs_get = (\<lambda>m. Inr \<lparr>gm_thread_id = ''t1'', gm_parts = [Part (Some ''a.pdf'') (Some ''1'') (Some ''x'') None []]\<rparr>),
     gs_attachment = (\<lambda>m i. Inr data), gs_modify = (\<lambda>m. Inr ())\<rparr>"

definition empty_redis :: redis where
  "empty_redis = \<lparr>rs_keys = Map.empty, rs_now = 5\<rparr>"

lemma sample_ingest_ready: "ingest_ready default_settings empty_redis"
  by (simp add: ingest_ready_def empty_redis_def stream_at_def rs_look_def dedupe_key_def default_settings_def)

lemma sample_download:
  "download_supported_attachments (sample_gmail []) ''m1'' = Inr [\<lparr>at_message_id = ''m1'', at_mime_part_id = Some ''1'',
     at_filename = ''a.pdf'', at_file_bytes = [], at_gmail_thread_id = ''t1''\<rparr>]"
  by code_simp


theorem empty_attachment_blocks_poll_witness:
  "\<exists>e h'. poll_inbox (\<lambda>_. []) (sample_gmail []) number_pydantic default_settings (\<lambda>_. 0) 1 2 (Some (RuntimeHealth 0)) empty_redis
     = (Inl e, Some h', [], empty_redis) \<and> bo_reason_code (rh_gmail h') = Some ''operation_failed''"
proof (rule empty_attachment_blocks_poll)
  show "gs_service (sample_gmail []) = Inr ()" "gs_messages (sample_gmail []) = Inr (''m1'' # [])"
    by (simp_all add: sample_gmail_def)
  show "gmail_account (sample_gmail []) = Inr ''ap@example.com''" by code_simp
  show "download_supported_attachments (sample_gmail []) ''m1'' = Inr (\<lparr>at_message_id = ''m1'', at_mime_part_id = Some ''1'',
     at_filename = ''a.pdf'', at_file_bytes = [], at_gmail_thread_id = ''t1''\<rparr> # [])" by (rule sample_download)
qed simp

end
