(* ===== verification/Delivery_Lifecycle.thy ===== *)
theory Delivery_Lifecycle
  imports Worker_Safety
begin

text \<open>
  The life of a delivery. The specification is a queue of three parts, what is live, what
  is pending with a worker and what was dead-lettered, and three ways to settle a delivery:
  acknowledged, dead-lettered with its evidence, or kept for another attempt while attempts
  are left. The Redis commands of \<open>app/services/invoice_queue.py\<close> implement operations of that
  queue, and \<open>process_delivery\<close> and \<open>process_batch\<close> of \<open>app/services/invoice_worker.py\<close> refine it.
\<close>

section \<open>Specification\<close>

record aqueue =
  aq_live :: "(stream_id \<times> fields) list"
  aq_pending :: "stream_id list"
  aq_dead :: "fields list"

definition without :: "stream_id \<Rightarrow> aqueue \<Rightarrow> aqueue" where
  "without i q = q\<lparr>aq_live := filter (\<lambda>e. fst e \<noteq> i) (aq_live q), aq_pending := filter (\<lambda>j. j \<noteq> i) (aq_pending q)\<rparr>"

definition buried :: "fields \<Rightarrow> aqueue \<Rightarrow> aqueue" where
  "buried fs q = q\<lparr>aq_dead := aq_dead q @ [fs]\<rparr>"

datatype settlement = Acknowledged | Dead_Lettered | Kept

inductive settles :: "int \<Rightarrow> delivery \<Rightarrow> aqueue \<Rightarrow> settlement \<Rightarrow> aqueue \<Rightarrow> bool" for attempts d where
  acked: "settles attempts d q Acknowledged (without (dv_id d) q)"
| dead: "settles attempts d q Dead_Lettered (without (dv_id d) (buried (dead_letter_fields now d reason) q))"
| kept: "int (dv_attempt d) < attempts \<Longrightarrow> settles attempts d q Kept q"

inductive_cases settlesE: "settles attempts d q l q'"

lemma last_attempt: "settles attempts d q l q' \<Longrightarrow> attempts \<le> int (dv_attempt d) \<Longrightarrow> l \<noteq> Kept"
  by (erule settlesE) auto

inductive settle_all :: "int \<Rightarrow> delivery list \<Rightarrow> aqueue \<Rightarrow> settlement list \<Rightarrow> aqueue \<Rightarrow> bool" for attempts where
  none: "settle_all attempts [] q [] q"
| more: "settles attempts d q l q1 \<Longrightarrow> settle_all attempts ds q1 ls q2 \<Longrightarrow> settle_all attempts (d # ds) q (l # ls) q2"

inductive_cases settle_all_NilE: "settle_all attempts [] q ls q'"
inductive_cases settle_all_ConsE: "settle_all attempts (d # ds) q ls q'"

section \<open>The keyspace that stands for it\<close>

definition hash_key :: "settings \<Rightarrow> string \<Rightarrow> bool" where
  "hash_key cfg k \<longleftrightarrow> (\<exists>x. k = INVOICE_METADATA_PREFIX cfg @ '':'' @ x \<or> k = INVOICE_DLQ_REPLAY_PREFIX cfg @ '':'' @ x)"

text \<open>The settings name different keys, the group exists, and no key holds another type.\<close>

definition names_ok :: "settings \<Rightarrow> bool" where
  "names_ok cfg \<longleftrightarrow> INVOICE_STREAM cfg \<noteq> INVOICE_DEAD_LETTER_STREAM cfg \<and> \<not> hash_key cfg (INVOICE_STREAM cfg)
     \<and> \<not> hash_key cfg (INVOICE_DEAD_LETTER_STREAM cfg)"

definition queue_ready :: "settings \<Rightarrow> redis \<Rightarrow> bool" where
  "queue_ready cfg r \<longleftrightarrow> (\<exists>s x. group_at (INVOICE_STREAM cfg) (INVOICE_CONSUMER_GROUP cfg) r = Inr (s, x))
     \<and> (\<exists>v. stream_at (INVOICE_DEAD_LETTER_STREAM cfg) r = Inr v) \<and> (\<forall>k. hash_key cfg k \<longrightarrow> (\<exists>h. hash_at k r = Inr h))"

definition abs_queue :: "settings \<Rightarrow> redis \<Rightarrow> aqueue" where
  "abs_queue cfg r = \<lparr>aq_live = entries_at (INVOICE_STREAM cfg) r,
     aq_pending = map pe_id (pending_at (INVOICE_STREAM cfg) (INVOICE_CONSUMER_GROUP cfg) r),
     aq_dead = map snd (entries_at (INVOICE_DEAD_LETTER_STREAM cfg) r)\<rparr>"

text \<open>A command that always succeeds on a ready keyspace and does \<open>f\<close> to the queue.\<close>

definition implements :: "settings \<Rightarrow> unit cmd \<Rightarrow> (aqueue \<Rightarrow> aqueue) \<Rightarrow> bool" where
  "implements cfg c f \<longleftrightarrow> (\<forall>r. queue_ready cfg r \<longrightarrow>
     (\<exists>r'. c r = (Inr (), r') \<and> queue_ready cfg r' \<and> rs_now r' = rs_now r \<and> abs_queue cfg r' = f (abs_queue cfg r)))"

lemma implementsE:
  assumes "implements cfg c f" and "queue_ready cfg r"
  obtains r' where "c r = (Inr (), r')" "queue_ready cfg r'" "rs_now r' = rs_now r" "abs_queue cfg r' = f (abs_queue cfg r)"
  using assms unfolding implements_def by blast

lemma implements_Nil: "implements cfg (rpipe []) (\<lambda>q. q)"
  by (simp add: implements_def)

lemma implements_Cons:
  assumes "implements cfg c f" and "implements cfg (rpipe cs) g"
  shows "implements cfg (rpipe (c # cs)) (\<lambda>q. g (f q))"
  unfolding implements_def
proof (intro allI impI)
  fix r assume "queue_ready cfg r"
  with assms(1) obtain r1 where r1: "c r = (Inr (), r1)" "queue_ready cfg r1" "rs_now r1 = rs_now r" "abs_queue cfg r1 = f (abs_queue cfg r)"
    by (rule implementsE)
  from assms(2) r1(2) obtain r2 where "rpipe cs r1 = (Inr (), r2)" "queue_ready cfg r2" "rs_now r2 = rs_now r1"
      "abs_queue cfg r2 = g (abs_queue cfg r1)" by (rule implementsE)
  with r1 show "\<exists>r'. rpipe (c # cs) r = (Inr (), r') \<and> queue_ready cfg r' \<and> rs_now r' = rs_now r \<and> abs_queue cfg r' = g (f (abs_queue cfg r))"
    by (auto simp: rpipe_Cons_ok simp del: rpipe.simps(2))
qed

lemma queue_ready_only:
  assumes "queue_ready cfg r" and "only_key k r r'"
    and "k = INVOICE_STREAM cfg \<Longrightarrow> \<exists>y. group_at k (INVOICE_CONSUMER_GROUP cfg) r' = Inr y"
    and "k = INVOICE_DEAD_LETTER_STREAM cfg \<Longrightarrow> \<exists>v. stream_at k r' = Inr v"
    and "hash_key cfg k \<Longrightarrow> \<exists>h. hash_at k r' = Inr h"
  shows "queue_ready cfg r'"
proof -
  have "group_at j g r' = group_at j g r" "stream_at j r' = stream_at j r" "hash_at j r' = hash_at j r" if "j \<noteq> k" for j g
    using only_key_at [OF assms(2) that] by (simp_all add: group_at_def)
  with assms show ?thesis unfolding queue_ready_def by (metis surj_pair)
qed

lemma implements_hset:
  assumes names: "names_ok cfg" and k: "hash_key cfg k"
  shows "implements cfg (hset k kvs) (\<lambda>q. q)"
  unfolding implements_def
proof (intro allI impI)
  fix r assume ready: "queue_ready cfg r"
  with k obtain h where "hash_at k r = Inr h" unfolding queue_ready_def by blast
  then obtain r' where r': "hset k kvs r = (Inr (), r')" by (simp add: hset_def)
  note e = hset_effect [OF r']
  have ne: "INVOICE_STREAM cfg \<noteq> k" "INVOICE_DEAD_LETTER_STREAM cfg \<noteq> k" using names k by (auto simp: names_ok_def)
  have "queue_ready cfg r'" using ready e(1) by (rule queue_ready_only) (use ne e(2) in auto)
  with r' only_key_at(1,2) [OF e(1) ne(1)] only_key_at(1) [OF e(1) ne(2)]
  show "\<exists>r'. hset k kvs r = (Inr (), r') \<and> queue_ready cfg r' \<and> rs_now r' = rs_now r \<and> abs_queue cfg r' = abs_queue cfg r"
    using e by (simp add: abs_queue_def only_key_def)
qed

lemma implements_bury:
  assumes names: "names_ok cfg"
  shows "implements cfg (xadd_unit (INVOICE_DEAD_LETTER_STREAM cfg) fs) (buried fs)"
  unfolding implements_def
proof (intro allI impI)
  let ?D = "INVOICE_DEAD_LETTER_STREAM cfg"
  fix r assume ready: "queue_ready cfg r"
  then obtain v where v: "stream_at ?D r = Inr v" by (auto simp: queue_ready_def)
  obtain i s where new: "stream_add (rs_now r) fs (case v of None \<Rightarrow> empty_stream | Some s \<Rightarrow> s) = (i, s)" by fastforce
  define r' where "r' = rs_put ?D (RStream s) r"
  have add: "xadd ?D fs r = (Inr i, r')" using v new by (simp add: xadd_def r'_def)
  note e = xadd_effect [OF add]
  have "\<exists>v. stream_at ?D r' = Inr v" by (simp add: stream_at_def r'_def)
  then have "queue_ready cfg r'" using ready e(2) names queue_ready_only [of cfg r ?D r'] by (auto simp: names_ok_def)
  moreover have "INVOICE_STREAM cfg \<noteq> ?D" using names by (simp add: names_ok_def)
  ultimately show "\<exists>r'. xadd_unit ?D fs r = (Inr (), r') \<and> queue_ready cfg r' \<and> rs_now r' = rs_now r \<and> abs_queue cfg r' = buried fs (abs_queue cfg r)"
    using add e(1) only_key_at(1,2) [OF e(2)] e(2) by (simp add: abs_queue_def buried_def xadd_unit_def cmd_simps only_key_def)
qed

lemma group_at_look:
  "group_at k g r = Inr (s, x) \<longleftrightarrow> rs_look k r = Some (RStream s) \<and> map_of (st_groups s) g = Some x"
  by (auto simp: group_at_def stream_at_def split: option.splits rvalue.splits)

lemma implements_ack:
  assumes names: "names_ok cfg"
  shows "implements cfg (xack (INVOICE_STREAM cfg) (INVOICE_CONSUMER_GROUP cfg) i)
     (\<lambda>q. q\<lparr>aq_pending := filter (\<lambda>j. j \<noteq> i) (aq_pending q)\<rparr>)"
  unfolding implements_def
proof (intro allI impI)
  let ?S = "INVOICE_STREAM cfg" and ?G = "INVOICE_CONSUMER_GROUP cfg"
  fix r assume ready: "queue_ready cfg r"
  then obtain s x where s: "rs_look ?S r = Some (RStream s)" "map_of (st_groups s) ?G = Some x"
    by (auto simp: queue_ready_def group_at_look)
  then obtain r' where r': "xack ?S ?G i r = (Inr (), r')" "\<exists>y. group_at ?S ?G r' = Inr y"
    by (simp add: xack_def stream_at_def group_at_def set_group_def map_of_gset)
  note e = xack_effect [OF r'(1)]
  have ne: "INVOICE_DEAD_LETTER_STREAM cfg \<noteq> ?S" "\<not> hash_key cfg ?S" using names by (auto simp: names_ok_def)
  have "queue_ready cfg r'" using ready e(2) by (rule queue_ready_only) (use r'(2) ne in auto)
  with r' e(1,3) only_key_at(1) [OF e(2) ne(1)]
  show "\<exists>r'. xack ?S ?G i r = (Inr (), r') \<and> queue_ready cfg r' \<and> rs_now r' = rs_now r
      \<and> abs_queue cfg r' = abs_queue cfg r\<lparr>aq_pending := filter (\<lambda>j. j \<noteq> i) (aq_pending (abs_queue cfg r))\<rparr>"
    using e by (simp add: abs_queue_def filter_map comp_def only_key_def)
qed

lemma implements_del:
  assumes names: "names_ok cfg"
  shows "implements cfg (xdel (INVOICE_STREAM cfg) i) (\<lambda>q. q\<lparr>aq_live := filter (\<lambda>e. fst e \<noteq> i) (aq_live q)\<rparr>)"
  unfolding implements_def
proof (intro allI impI)
  let ?S = "INVOICE_STREAM cfg" and ?G = "INVOICE_CONSUMER_GROUP cfg"
  fix r assume ready: "queue_ready cfg r"
  then obtain s x where s: "rs_look ?S r = Some (RStream s)" "map_of (st_groups s) ?G = Some x"
    by (auto simp: queue_ready_def group_at_look)
  then obtain r' where r': "xdel ?S i r = (Inr (), r')" "\<exists>y. group_at ?S ?G r' = Inr y"
    by (simp add: xdel_def stream_at_def group_at_def stream_del_def)
  note e = xdel_effect [OF r'(1)]
  have ne: "INVOICE_DEAD_LETTER_STREAM cfg \<noteq> ?S" "\<not> hash_key cfg ?S" using names by (auto simp: names_ok_def)
  have "queue_ready cfg r'" using ready e(2) by (rule queue_ready_only) (use r'(2) ne in auto)
  with r' e(1,3) only_key_at(1) [OF e(2) ne(1)]
  show "\<exists>r'. xdel ?S i r = (Inr (), r') \<and> queue_ready cfg r' \<and> rs_now r' = rs_now r
      \<and> abs_queue cfg r' = abs_queue cfg r\<lparr>aq_live := filter (\<lambda>e. fst e \<noteq> i) (aq_live (abs_queue cfg r))\<rparr>"
    using e by (simp add: abs_queue_def only_key_def)
qed

lemma implements_replay_update:
  assumes names: "names_ok cfg"
  shows "implements cfg (rpipe (replay_update (INVOICE_DLQ_REPLAY_PREFIX cfg) now d st w)) (\<lambda>q. q)"
proof (cases "replay_metadata_key (INVOICE_DLQ_REPLAY_PREFIX cfg) d")
  case None
  then show ?thesis by (simp add: replay_update_def implements_Nil)
next
  case (Some k)
  then have "hash_key cfg k" by (auto simp: replay_metadata_key_def hash_key_def)
  with Some implements_Cons [OF implements_hset [OF names this] implements_Nil] show ?thesis
    by (simp add: replay_update_def del: rpipe.simps)
qed

lemma implements_optional:
  "names_ok cfg \<Longrightarrow> implements cfg (rpipe (if INVOICE_DLQ_REPLAY_PREFIX cfg = [] then []
     else replay_update (INVOICE_DLQ_REPLAY_PREFIX cfg) now d st w)) (\<lambda>q. q)"
  by (simp add: implements_Nil implements_replay_update del: rpipe.simps)

lemma without_steps:
  "(\<lambda>q. q\<lparr>aq_pending := filter (\<lambda>j. j \<noteq> i) (aq_pending q),
          aq_live := filter (\<lambda>e. fst e \<noteq> i) (aq_live (q\<lparr>aq_pending := filter (\<lambda>j. j \<noteq> i) (aq_pending q)\<rparr>))\<rparr>) = without i"
  by (rule ext) (simp add: without_def)

lemma implements_drop:
  assumes names: "names_ok cfg" and tail: "implements cfg (rpipe cs) (\<lambda>q. q)"
  shows "implements cfg (rpipe (xack (INVOICE_STREAM cfg) (INVOICE_CONSUMER_GROUP cfg) i # xdel (INVOICE_STREAM cfg) i # cs)) (without i)"
  using implements_Cons [OF implements_ack [OF names, of i] implements_Cons [OF implements_del [OF names, of i] tail]]
  by (simp only: without_steps)

lemma implements_acknowledge:
  assumes names: "names_ok cfg"
  shows "implements cfg (acknowledge (INVOICE_STREAM cfg) (INVOICE_CONSUMER_GROUP cfg) (INVOICE_DLQ_REPLAY_PREFIX cfg) now d w)
     (without (dv_id d))"
  unfolding acknowledge_def append_Cons append_Nil by (rule implements_drop [OF names implements_optional [OF names]])

lemma implements_dead_letter:
  assumes names: "names_ok (wk_settings w)"
  shows "implements (wk_settings w) (dead_letter_delivery w now d reason)
     (\<lambda>q. without (dv_id d) (buried (dead_letter_fields now d reason) q))"
  unfolding dead_letter_delivery_def dead_letter_def append_Cons append_Nil Let_def
  by (rule implements_Cons [OF implements_bury [OF names] implements_drop [OF names implements_optional [OF names]]])

lemma implements_record_failure:
  assumes names: "names_ok cfg"
  shows "implements cfg (record_failure (INVOICE_METADATA_PREFIX cfg) (INVOICE_DLQ_REPLAY_PREFIX cfg) now d reason) (\<lambda>q. q)"
proof -
  have "hash_key cfg (INVOICE_METADATA_PREFIX cfg @ '':'' @ show_sid (dv_id d))" by (auto simp: hash_key_def)
  from implements_Cons [OF implements_hset [OF names this] implements_optional [OF names]] show ?thesis
    unfolding record_failure_def .
qed

lemma implements_record_replay:
  "names_ok cfg \<Longrightarrow> implements cfg (record_replay_processing (INVOICE_DLQ_REPLAY_PREFIX cfg) now d) (\<lambda>q. q)"
  unfolding record_replay_processing_def by (rule implements_replay_update)

section \<open>The heartbeat\<close>

lemma rs_look_advance:
  assumes "rs_now r \<le> t"
  shows "rs_look k (r\<lparr>rs_now := t\<rparr>) = rs_look k r \<or> (rs_look k (r\<lparr>rs_now := t\<rparr>) = None \<and> (\<exists>s e. rs_look k r = Some (RString s e)))"
  using assms by (auto simp: rs_look_def split: option.splits rvalue.splits)

lemma advance_ready:
  assumes "queue_ready cfg r" and "rs_now r \<le> t"
  shows "queue_ready cfg (r\<lparr>rs_now := t\<rparr>)" "abs_queue cfg (r\<lparr>rs_now := t\<rparr>) = abs_queue cfg r"
proof -
  note adv = rs_look_advance [OF assms(2)]
  have str: "stream_at k (r\<lparr>rs_now := t\<rparr>) = stream_at k r" if "\<exists>v. stream_at k r = Inr v" for k
    using that adv [of k] by (auto simp: stream_at_def)
  have look: "entries_at k (r\<lparr>rs_now := t\<rparr>) = entries_at k r" "pending_at k g (r\<lparr>rs_now := t\<rparr>) = pending_at k g r" for k g
    using adv [of k] by (auto simp: entries_at_def pending_at_def)
  have hash: "\<exists>h. hash_at k (r\<lparr>rs_now := t\<rparr>) = Inr h" if "\<exists>h. hash_at k r = Inr h" for k
    using that adv [of k] by (auto simp: hash_at_def)
  have grp: "group_at k g (r\<lparr>rs_now := t\<rparr>) = group_at k g r" if "\<exists>y. group_at k g r = Inr y" for k g
    using that adv [of k] by (auto simp: group_at_def stream_at_def)
  show "queue_ready cfg (r\<lparr>rs_now := t\<rparr>)"
    using assms(1) str grp hash unfolding queue_ready_def by metis
  show "abs_queue cfg (r\<lparr>rs_now := t\<rparr>) = abs_queue cfg r" by (simp add: abs_queue_def look)
qed

lemma claim_keeps:
  assumes names: "names_ok cfg" and ready: "queue_ready cfg r" and live: "i \<in> fst ` set (aq_live (abs_queue cfg r))"
  obtains r' where "xclaim_justid (INVOICE_STREAM cfg) (INVOICE_CONSUMER_GROUP cfg) consumer i n r = (Inr (), r')"
    "queue_ready cfg r'" "abs_queue cfg r' = abs_queue cfg r" "rs_now r' = rs_now r"
proof -
  let ?S = "INVOICE_STREAM cfg" and ?G = "INVOICE_CONSUMER_GROUP cfg"
  from ready obtain s x where s: "group_at ?S ?G r = Inr (s, x)" "rs_look ?S r = Some (RStream s)" "map_of (st_groups s) ?G = Some x"
    by (auto simp: queue_ready_def group_at_look)
  have entry: "map_of (st_entries s) i \<noteq> None" using live s(2) by (simp add: abs_queue_def entries_at_def map_of_eq_None_iff)
  define ps where "ps = map (\<lambda>p. if pe_id p = i then p\<lparr>pe_consumer := consumer, pe_delivered_at := rs_now r,
      pe_count := n\<rparr> else p) (gp_pending x)"
  define r' where "r' = rs_put ?S (RStream (set_group ?G (x\<lparr>gp_pending := ps\<rparr>) s)) r"
  have c: "xclaim_justid ?S ?G consumer i n r = (Inr (), r')"
    using entry by (simp only: xclaim_justid_def Let_def s(1) sum.case prod.case if_False ps_def r'_def)
  have e: "only_key ?S r r'" "group_at ?S ?G r' = Inr (set_group ?G (x\<lparr>gp_pending := ps\<rparr>) s, x\<lparr>gp_pending := ps\<rparr>)"
    by (simp_all add: r'_def group_at_look set_group_def map_of_gset)
  have ne: "INVOICE_DEAD_LETTER_STREAM cfg \<noteq> ?S" "\<not> hash_key cfg ?S" using names by (auto simp: names_ok_def)
  have "queue_ready cfg r'" using ready e(1) by (rule queue_ready_only) (use e(2) ne in auto)
  moreover have "map pe_id ps = map pe_id (gp_pending x)" by (simp add: ps_def comp_def cong: if_cong)
  then have "abs_queue cfg r' = abs_queue cfg r"
    using only_key_at(1) [OF e(1) ne(1)] s by (simp add: abs_queue_def r'_def entries_at_def pending_at_def set_group_def map_of_gset)
  ultimately show thesis using c that [of r'] by (simp add: r'_def)
qed

lemma heartbeat_keeps:
  assumes "names_ok cfg" and "queue_ready cfg r" and "dv_id d \<in> fst ` set (aq_live (abs_queue cfg r))"
    and "sorted (rs_now r # beats)"
  shows "\<exists>r'. heartbeat cfg consumer d beats r = (Inr (), r') \<and> queue_ready cfg r' \<and> abs_queue cfg r' = abs_queue cfg r
    \<and> rs_now r' = last (rs_now r # beats)"
  using assms(2-4)
proof (induction beats arbitrary: r)
  case (Cons t ts)
  then have t: "rs_now r \<le> t" by simp
  note a = advance_ready [OF Cons.prems(1) t]
  have "dv_id d \<in> fst ` set (aq_live (abs_queue cfg (r\<lparr>rs_now := t\<rparr>)))" using Cons.prems(2) by (simp add: a(2))
  from claim_keeps [OF assms(1) a(1) this, of consumer "dv_attempt d"] obtain r' where r': "xclaim_justid (INVOICE_STREAM cfg) (INVOICE_CONSUMER_GROUP cfg) consumer (dv_id d)
      (dv_attempt d) (r\<lparr>rs_now := t\<rparr>) = (Inr (), r')" "queue_ready cfg r'" "abs_queue cfg r' = abs_queue cfg r" "rs_now r' = t"
    unfolding a(2) by auto
  have "heartbeat cfg consumer d (t # ts) r = heartbeat cfg consumer d ts r'"
    by (simp only: heartbeat.simps r'(1) prod.case sum.case old.unit.case)
  moreover have "\<exists>r1. heartbeat cfg consumer d ts r' = (Inr (), r1) \<and> queue_ready cfg r1 \<and> abs_queue cfg r1 = abs_queue cfg r'
      \<and> rs_now r1 = last (rs_now r' # ts)"
    using Cons.IH [OF r'(2)] Cons.prems(2,3) r'(3,4) by simp
  ultimately show ?case using r'(3,4) by simp
qed simp

section \<open>A delivery\<close>

text \<open>The run of the job, if there is one, is not complete.\<close>

definition open_job :: "envelope \<Rightarrow> database \<Rightarrow> bool" where
  "open_job job db \<longleftrightarrow> (\<forall>d run. source_of (jb_idempotency_key job) db = Some d \<and>
     find_run_for_document (doc_id d) db = Some run \<longrightarrow> wr_processing_status run \<noteq> ''complete'')"

lemma mark_job_failed_inv:
  assumes inv: "worker_inv pos cp db" and open_run: "open_job job db"
  obtains db' where "mark_job_failed job reason db = Inr db'" "worker_inv pos cp db'"
proof (cases "source_of (jb_idempotency_key job) db")
  case None
  with find_source [OF worker_invD(2) [OF inv], of job] inv that show thesis by (simp add: mark_job_failed_def)
next
  case (Some d)
  obtain run where run: "find_run_for_document (doc_id d) db = Some run" using worker_invD(4) [OF inv] Some by (rule sourced_run)
  define r where "r = run\<lparr>wr_status := ''failed'', wr_processing_status := ''failed'', wr_posting_status := ''not_ready'',
      wr_interrupt_payload := Some (dset ''error'' (JStr reason) (payload_dict run))\<rparr>"
  have "wr_processing_status run \<noteq> ''complete''" using open_run Some run by (simp add: open_job_def)
  note saved = saved_outcome(1) [OF inv find_run_get(1) [OF worker_invD(7) [OF inv] run] this, of r]
  have "mark_job_failed job reason db = Inr (save_run r db)"
    using find_source [OF worker_invD(2) [OF inv], of job] Some run by (simp add: mark_job_failed_def r_def)
  moreover have "worker_inv pos cp (save_run r db)"
    using saved by (simp add: r_def)
  ultimately show thesis by (rule that)
qed

lemma failed_job_open:
  assumes eng: "graph_engine env eg pos" and inv: "worker_inv pos cp db" and rely: "rely pos interfere"
    and fit: "job_columns_fit job" and out: "run_workflow_for_job lib eg interfere job replay cp db = (Inl e, cp', db')"
  shows "open_job job db'"
  unfolding open_job_def
proof (intro allI impI, elim conjE)
  fix d run
  assume d: "source_of (jb_idempotency_key job) db' = Some d" and run: "find_run_for_document (doc_id d) db' = Some run"
  from inv rely out show "wr_processing_status run \<noteq> ''complete''"
  proof (cases rule: run_workflow_for_job_cases)
    case no_records
    with fit d show ?thesis by simp
  next
    case (settled d' run')
    with d run show ?thesis by (auto split: if_splits)
  next
    case (undecodable e' d' run')
    with d run show ?thesis by auto
  next
    case (ran d' run' db1 b)
    have "wr_processing_status run' \<noteq> ''complete''" using ran(6) by simp
    note t = run_job_thread_inv [OF eng ran(2,5) this ran(4,9)]
    have "map_option doc_id (Some d) = map_option doc_id (Some d')"
      using t(2) unfolding keeps_sources_def d [symmetric] ran(3) [symmetric] by blast
    then have "doc_id d = doc_id d'" by simp
    with t(4) [OF refl] run show ?thesis by auto
  qed
qed

text \<open>What a worker answers for a delivery it settled.\<close>

fun answers :: "settlement \<Rightarrow> summary option result \<Rightarrow> bool" where
  "answers Acknowledged out \<longleftrightarrow> (\<exists>s. out = Inr (Some s))"
| "answers Dead_Lettered out \<longleftrightarrow> (\<exists>s. out = Inr (Some s) \<and> sm_status s = ''failed'')"
| "answers Kept out \<longleftrightarrow> out = Inr None"

text \<open>What holds of a worker between two deliveries.\<close>

definition worker_ready :: "(string \<Rightarrow> 'c \<Rightarrow> thread_pos option) \<Rightarrow> 'c worker \<Rightarrow> 'c wstate \<Rightarrow> bool" where
  "worker_ready pos w st \<longleftrightarrow> worker_inv pos (wt_cp st) (wt_db st) \<and> rely pos (wk_interfere w)
     \<and> names_ok (wk_settings w) \<and> queue_ready (wk_settings w) (wt_redis st)"

definition settled_as :: "(string \<Rightarrow> 'c \<Rightarrow> thread_pos option) \<Rightarrow> 'c worker \<Rightarrow> delivery \<Rightarrow> 'c wstate
    \<Rightarrow> summary option result \<Rightarrow> 'c wstate \<Rightarrow> bool" where
  "settled_as pos w d st out st' \<longleftrightarrow> worker_ready pos w st'
     \<and> (\<exists>l. answers l out \<and> settles (INVOICE_MAX_ATTEMPTS (wk_settings w)) d (abs_queue (wk_settings w) (wt_redis st)) l
              (abs_queue (wk_settings w) (wt_redis st')))"

lemma on_redis_does:
  assumes "worker_ready pos w st" and "implements (wk_settings w) c f"
  obtains st' where "on_redis c x st = (Inr x, st')" "worker_ready pos w st'" "rs_now (wt_redis st') = rs_now (wt_redis st)"
    "abs_queue (wk_settings w) (wt_redis st') = f (abs_queue (wk_settings w) (wt_redis st))"
proof -
  from assms(1) have "queue_ready (wk_settings w) (wt_redis st)" by (simp add: worker_ready_def)
  with assms(2) obtain r' where r': "c (wt_redis st) = (Inr (), r')" "queue_ready (wk_settings w) r'" "rs_now r' = rs_now (wt_redis st)"
      "abs_queue (wk_settings w) r' = f (abs_queue (wk_settings w) (wt_redis st))" by (rule implementsE)
  show thesis
    by (rule that [of "st\<lparr>wt_redis := r'\<rparr>"]) (use r' assms(1) in \<open>simp_all add: on_redis_def worker_ready_def\<close>)
qed

lemma job_failed_settles:
  assumes ready: "worker_ready pos w st" and fit: "job_columns_fit job"
    and open_run: "open_job job (wt_db st)"
  obtains out st' where "job_failed w now d job e st = (out, st')" "settled_as pos w d st out st'"
    "rs_now (wt_redis st') = rs_now (wt_redis st)"
proof (cases "INVOICE_MAX_ATTEMPTS (wk_settings w) \<le> int (dv_attempt d)")
  case True
  let ?sum = "summary_result (jb_filename job) (deterministic_run_id (jb_idempotency_key job)) ''failed'' None
      (JStr (failure_reason w e)) None None None None"
  from ready have names: "names_ok (wk_settings w)" and inv: "worker_inv pos (wt_cp st) (wt_db st)" by (simp_all add: worker_ready_def)
  obtain db' where m: "mark_job_failed job (failure_reason w e) (wt_db st) = Inr db'" "worker_inv pos (wt_cp st) db'"
    using mark_job_failed_inv [OF inv open_run] by blast
  have "worker_ready pos w (st\<lparr>wt_db := db'\<rparr>)" using ready m(2) by (simp add: worker_ready_def)
  from on_redis_does [OF this implements_dead_letter [OF names, of now d "failure_reason w e"], of "Some ?sum"]
  obtain st' where st': "on_redis (dead_letter_delivery w now d (failure_reason w e)) (Some ?sum) (st\<lparr>wt_db := db'\<rparr>) = (Inr (Some ?sum), st')"
    "worker_ready pos w st'" "rs_now (wt_redis st') = rs_now (wt_redis st)"
    "abs_queue (wk_settings w) (wt_redis st') = without (dv_id d) (buried (dead_letter_fields now d (failure_reason w e))
        (abs_queue (wk_settings w) (wt_redis st)))" by auto
  show thesis
  proof (rule that)
    show "job_failed w now d job e st = (Inr (Some ?sum), st')" using True m(1) st'(1) by (simp add: job_failed_def Let_def)
    have "answers Dead_Lettered (Inr (Some ?sum))" by (simp add: summary_result_def Let_def)
    then show "settled_as pos w d st (Inr (Some ?sum)) st'"
      using st'(2) settles.dead unfolding settled_as_def st'(4) by blast
  qed (rule st'(3))
next
  case False
  then have "int (dv_attempt d) < INVOICE_MAX_ATTEMPTS (wk_settings w)" by simp
  note kept = settles.kept [OF this]
  from ready have "names_ok (wk_settings w)" by (simp add: worker_ready_def)
  from on_redis_does [OF ready implements_record_failure [OF this, of now d "failure_reason w e"], of "None :: summary option"]
  obtain st' where st': "on_redis (record_failure (INVOICE_METADATA_PREFIX (wk_settings w)) (INVOICE_DLQ_REPLAY_PREFIX (wk_settings w))
      now d (failure_reason w e)) (None :: summary option) st = (Inr None, st')"
    "worker_ready pos w st'" "rs_now (wt_redis st') = rs_now (wt_redis st)"
    "abs_queue (wk_settings w) (wt_redis st') = abs_queue (wk_settings w) (wt_redis st)" by blast
  show thesis
  proof (rule that)
    show "job_failed w now d job e st = (Inr None, st')" using False st'(1) by (simp add: job_failed_def Let_def)
    have "answers Kept (Inr None)" by simp
    then show "settled_as pos w d st (Inr None) st'" using st'(2) kept unfolding settled_as_def st'(4) by blast
  qed (rule st'(3))
qed

lemma run_delivery_settles:
  assumes eng: "graph_engine env (wk_engine w) pos" and ready: "worker_ready pos w st" and fit: "job_columns_fit job"
    and live: "dv_id d \<in> fst ` set (aq_live (abs_queue (wk_settings w) (wt_redis st)))"
    and beats: "sorted (rs_now (wt_redis st) # beats)"
  obtains out st' where "run_delivery w now beats d job st = (out, st')" "settled_as pos w d st out st'"
    "rs_now (wt_redis st') = last (rs_now (wt_redis st) # beats)"
proof -
  let ?cfg = "wk_settings w"
  from ready have names: "names_ok ?cfg" and inv: "worker_inv pos (wt_cp st) (wt_db st)" and rely: "rely pos (wk_interfere w)"
    and qr: "queue_ready ?cfg (wt_redis st)" by (simp_all add: worker_ready_def)
  obtain res cp db where job: "run_workflow_for_job (wk_lib_text w) (wk_engine w) (wk_interfere w) job (replay_context d \<noteq> None)
      (wt_cp st) (wt_db st) = (res, cp, db)" by (metis prod_cases3)
  obtain r where beat: "heartbeat ?cfg (wk_consumer w) d beats (wt_redis st) = (Inr (), r)" "queue_ready ?cfg r"
      "abs_queue ?cfg r = abs_queue ?cfg (wt_redis st)" "rs_now r = last (rs_now (wt_redis st) # beats)"
    using heartbeat_keeps [OF names qr live beats] by blast
  define st1 where "st1 = \<lparr>wt_cp = cp, wt_db = db, wt_redis = r\<rparr>"
  have "worker_inv pos cp db" using job_inv [OF eng inv rely job] .
  then have ready1: "worker_ready pos w st1" using ready beat(2) by (simp add: worker_ready_def st1_def)
  have via: "settled_as pos w d st out st'" if "settled_as pos w d st1 out st'" for out st'
    using that beat(3) by (simp add: settled_as_def st1_def)
  show thesis
  proof (cases res)
    case (Inl e)
    have "open_job job (wt_db st1)" using failed_job_open [OF eng inv rely fit job [unfolded Inl]] by (simp add: st1_def)
    from job_failed_settles [OF ready1 fit this] obtain out st' where
      "job_failed w now d job e st1 = (out, st')" "settled_as pos w d st1 out st'" "rs_now (wt_redis st') = rs_now (wt_redis st1)" by blast
    with job beat Inl via show thesis by (intro that [of out st']) (simp_all add: run_delivery_def Let_def st1_def)
  next
    case (Inr s)
    from on_redis_does [OF ready1 implements_acknowledge [OF names, of now d "Some (sm_processing_status s)"], of "Some s"]
    obtain st' where st': "on_redis (acknowledge (INVOICE_STREAM ?cfg) (INVOICE_CONSUMER_GROUP ?cfg) (INVOICE_DLQ_REPLAY_PREFIX ?cfg)
        now d (Some (sm_processing_status s))) (Some s) st1 = (Inr (Some s), st')"
      "worker_ready pos w st'" "rs_now (wt_redis st') = rs_now (wt_redis st1)"
      "abs_queue ?cfg (wt_redis st') = without (dv_id d) (abs_queue ?cfg (wt_redis st1))" by blast
    have "answers Acknowledged (Inr (Some s))" by simp
    then have "settled_as pos w d st1 (Inr (Some s)) st'"
      using st'(2) settles.acked unfolding settled_as_def st'(4) by blast
    with job beat Inr via st'(1,3) show thesis
      by (intro that [of "Inr (Some s)" st']) (simp_all add: run_delivery_def Let_def st1_def)
  qed
qed

lemma parse_delivery_error:
  assumes "parse_delivery pd d = Inl e"
  obtains m where "e = PermanentJobError m"
  using assms that by (auto simp: parse_delivery_def split: option.splits if_splits)

definition columns_fit :: "'c worker \<Rightarrow> delivery \<Rightarrow> bool" where
  "columns_fit w d \<longleftrightarrow> (case parse_delivery (wk_pydantic w) d of Inl _ \<Rightarrow> True | Inr job \<Rightarrow> job_columns_fit job)"

lemma process_delivery_settles:
  assumes eng: "graph_engine env (wk_engine w) pos" and ready: "worker_ready pos w st" and fit: "columns_fit w d"
    and live: "dv_id d \<in> fst ` set (aq_live (abs_queue (wk_settings w) (wt_redis st)))"
    and beats: "sorted (rs_now (wt_redis st) # beats)"
  obtains out st' where "process_delivery w now beats d st = (out, st')" "settled_as pos w d st out st'"
    "rs_now (wt_redis st') \<in> {rs_now (wt_redis st), last (rs_now (wt_redis st) # beats)}"
proof (cases "parse_delivery (wk_pydantic w) d")
  case (Inl e)
  then obtain m where e: "e = PermanentJobError m" using parse_delivery_error by blast
  let ?sum = "summary_result ''unknown'' [] ''failed'' None (JStr m) None None None None"
  from ready have names: "names_ok (wk_settings w)" by (simp add: worker_ready_def)
  from on_redis_does [OF ready implements_dead_letter [OF names, of now d m], of "Some ?sum"]
  obtain st' where st': "on_redis (dead_letter_delivery w now d m) (Some ?sum) st = (Inr (Some ?sum), st')"
    "worker_ready pos w st'" "rs_now (wt_redis st') = rs_now (wt_redis st)"
    "abs_queue (wk_settings w) (wt_redis st') = without (dv_id d) (buried (dead_letter_fields now d m)
        (abs_queue (wk_settings w) (wt_redis st)))" by blast
  have "answers Dead_Lettered (Inr (Some ?sum))" by (simp add: summary_result_def Let_def)
  then have "settled_as pos w d st (Inr (Some ?sum)) st'" using st'(2) settles.dead unfolding settled_as_def st'(4) by blast
  with Inl e st'(1,3) show thesis by (intro that [of "Inr (Some ?sum)" st']) (simp_all add: process_delivery_def Let_def)
next
  case (Inr job)
  have jf: "job_columns_fit job" using fit Inr by (simp add: columns_fit_def)
  show thesis
  proof (cases "replay_context d = None")
    case True
    obtain out st' where "run_delivery w now beats d job st = (out, st')" "settled_as pos w d st out st'"
        "rs_now (wt_redis st') = last (rs_now (wt_redis st) # beats)"
      using run_delivery_settles [OF eng ready jf live beats] by blast
    with True Inr show thesis by (intro that [of out st']) (simp_all add: process_delivery_def Let_def)
  next
    case False
    from ready have names: "names_ok (wk_settings w)" and qr: "queue_ready (wk_settings w) (wt_redis st)"
      by (simp_all add: worker_ready_def)
    obtain r where r: "record_replay_processing (INVOICE_DLQ_REPLAY_PREFIX (wk_settings w)) now d (wt_redis st) = (Inr (), r)"
        "queue_ready (wk_settings w) r" "rs_now r = rs_now (wt_redis st)"
        "abs_queue (wk_settings w) r = abs_queue (wk_settings w) (wt_redis st)"
      using implements_record_replay [OF names, of now d] qr by (rule implementsE)
    have "worker_ready pos w (st\<lparr>wt_redis := r\<rparr>)" using ready r(2) by (simp add: worker_ready_def)
    then obtain out st' where run: "run_delivery w now beats d job (st\<lparr>wt_redis := r\<rparr>) = (out, st')"
        "settled_as pos w d (st\<lparr>wt_redis := r\<rparr>) out st'" "rs_now (wt_redis st') = last (rs_now (wt_redis st) # beats)"
      using run_delivery_settles [OF eng _ jf, of "st\<lparr>wt_redis := r\<rparr>" d beats now] live beats r(3,4) by auto
    have "settled_as pos w d st out st'" using run(2) r(4) by (simp add: settled_as_def)
    with False Inr r(1) run(1,3) show thesis
      by (intro that [of out st']) (simp_all add: process_delivery_def Let_def split: unit.split)
  qed
qed


section \<open>A batch\<close>

lemma settles_others:
  "settles m d q l q' \<Longrightarrow> i \<noteq> dv_id d \<Longrightarrow> i \<in> fst ` set (aq_live q) \<Longrightarrow> i \<in> fst ` set (aq_live q')"
  by (auto simp: without_def buried_def elim!: settlesE)

lemma sorted_rest:
  "sorted (a # xs @ ys) \<Longrightarrow> b \<in> {a, last (a # xs)} \<Longrightarrow> sorted (b # (ys :: int list))"
  by (auto simp: sorted_append split: if_splits)


section \<open>A concrete queue\<close>

lemma default_names: "names_ok default_settings"
  by (simp add: names_ok_def hash_key_def default_settings_def)

definition sample_worker :: "checkpoints worker" where
  "sample_worker = \<lparr>wk_settings = default_settings, wk_pydantic = number_pydantic, wk_lib_text = (\<lambda>_. []),
     wk_lib_name = (\<lambda>_. ''Error''), wk_engine = model_engine sample_env 0, wk_interfere = (\<lambda>db. db), wk_consumer = ''w1''\<rparr>"

definition sample_live_stream :: stream where
  "sample_live_stream = \<lparr>st_entries = [((5, 0), dv_fields sample_delivery)], st_last = (5, 0),
     st_groups = [(INVOICE_CONSUMER_GROUP default_settings, \<lparr>gp_last = (5, 0),
        gp_pending = [\<lparr>pe_id = (5, 0), pe_consumer = ''w1'', pe_delivered_at = 6, pe_count = 3\<rparr>]\<rparr>)]\<rparr>"

definition sample_wstate :: "checkpoints wstate" where
  "sample_wstate = \<lparr>wt_cp = sample_job_cp, wt_db = sample_job_db,
     wt_redis = \<lparr>rs_keys = [INVOICE_STREAM default_settings \<mapsto> RStream sample_live_stream], rs_now = 10\<rparr>\<rparr>"

lemma sample_worker_ready: "worker_ready model_pos sample_worker sample_wstate"
proof -
  let ?r = "wt_redis sample_wstate"
  have look: "rs_look k ?r = (if k = INVOICE_STREAM default_settings then Some (RStream sample_live_stream) else None)" for k
    by (simp add: rs_look_def sample_wstate_def)
  have "hash_key default_settings k \<Longrightarrow> k \<noteq> INVOICE_STREAM default_settings" for k
    using default_names by (auto simp: names_ok_def)
  moreover have "INVOICE_DEAD_LETTER_STREAM default_settings \<noteq> INVOICE_STREAM default_settings"
    by (simp add: default_settings_def)
  ultimately have "queue_ready default_settings ?r"
    unfolding queue_ready_def by (auto simp: group_at_look stream_at_def hash_at_def look sample_live_stream_def)
  moreover have "worker_inv model_pos (wt_cp sample_wstate) (wt_db sample_wstate)"
    using sample_worker_inv by (simp add: sample_wstate_def)
  ultimately show ?thesis using default_names rely_none by (simp add: worker_ready_def sample_worker_def)
qed

lemma sample_delivery_facts:
  "columns_fit sample_worker sample_delivery"
  "dv_id sample_delivery \<in> fst ` set (aq_live (abs_queue (wk_settings sample_worker) (wt_redis sample_wstate)))"
  "sorted (rs_now (wt_redis sample_wstate) # [20, 30])" "graph_engine sample_env (wk_engine sample_worker) model_pos"
proof -
  have "parse_delivery number_pydantic sample_delivery = Inr sample_job"
    by (rule parse_delivery_dump [OF sample_job_ok sample_job_time]) (simp add: sample_delivery_def)
  moreover have "job_columns_fit sample_job" by (simp add: job_columns_fit_def sample_job_def)
  ultimately show "columns_fit sample_worker sample_delivery" by (simp add: columns_fit_def sample_worker_def)
  show "dv_id sample_delivery \<in> fst ` set (aq_live (abs_queue (wk_settings sample_worker) (wt_redis sample_wstate)))"
    by (simp add: abs_queue_def entries_at_def rs_look_def sample_worker_def sample_wstate_def sample_live_stream_def sample_delivery_def)
  show "sorted (rs_now (wt_redis sample_wstate) # [20, 30])" by (simp add: sample_wstate_def)
  show "graph_engine sample_env (wk_engine sample_worker) model_pos"
    using model_graph_engine by (simp add: sample_worker_def)
qed

lemma sample_last_attempt: "INVOICE_MAX_ATTEMPTS (wk_settings sample_worker) \<le> int (dv_attempt sample_delivery)"
  by (simp add: sample_worker_def default_settings_def sample_delivery_def)



end
