(* ===== verification/Background_Tasks.thy ===== *)
theory Background_Tasks
  imports Notifier Gmail_Poller Delivery_Lifecycle
begin

text \<open>
  The background tasks: the loops of \<open>process_invoice_queue\<close>
  (\<open>app/services/invoice_worker.py\<close>) and of the two schedulers of \<open>app/main.py\<close>, one
  iteration as one definition, the life of the process around them (\<open>lifespan\<close>), and the
  Gmail client they share (\<open>app/services/gmail_auth.py\<close>). The lemmas are about ownership of a
  delivery: while its worker's heartbeat runs no other worker claims it, and when that
  worker dies another one does, with the attempt counted.
\<close>

section \<open>The Gmail client\<close>

text \<open>The token file, as its credentials; the outcome of a refresh and of the browser flow is
  the Google library's. The second component is the token file afterwards.\<close>

record token =
  tk_valid :: bool
  tk_expired :: bool
  tk_refresh_token :: "string option"

definition get_gmail_service ::
  "(token \<Rightarrow> token result) \<Rightarrow> token result \<Rightarrow> bool \<Rightarrow> string \<Rightarrow> bool \<Rightarrow> token result option \<Rightarrow> token result \<times> token result option" where
  "get_gmail_service refresh flow allow_interactive credentials_path credentials_exist token_file =
     (case token_file of
        Some (Inl e) \<Rightarrow> (Inl e, token_file)
      | _ \<Rightarrow>
          (let creds = (case token_file of Some (Inr t) \<Rightarrow> Some t | _ \<Rightarrow> None) in
           if (case creds of None \<Rightarrow> False | Some t \<Rightarrow> tk_valid t) then (Inr (the creds), token_file)
           else if (case creds of None \<Rightarrow> False | Some t \<Rightarrow> tk_expired t \<and> text_set (tk_refresh_token t)) then
             (case refresh (the creds) of Inl e \<Rightarrow> (Inl e, token_file) | Inr t \<Rightarrow> (Inr t, Some (Inr t)))
           else if \<not> allow_interactive then (Inl (RuntimeError no_gmail_token), token_file)
           else if \<not> credentials_exist then (Inl (FileNotFoundError (''Gmail OAuth credentials file not found: '' @ credentials_path)), token_file)
           else (case flow of Inl e \<Rightarrow> (Inl e, token_file) | Inr t \<Rightarrow> (Inr t, Some (Inr t)))))"

section \<open>The worker loop\<close>

definition on_notifications :: "(background_outcome \<Rightarrow> background_outcome) \<Rightarrow> runtime_health option \<Rightarrow> runtime_health option" where
  "on_notifications f = map_option (\<lambda>h. h\<lparr>rh_notifications := f (rh_notifications h)\<rparr>)"

definition flush_batch_summary ::
  "(py_error \<Rightarrow> string) \<Rightarrow> mailer \<Rightarrow> datetime \<Rightarrow> datetime \<Rightarrow> summary list \<Rightarrow> runtime_health option \<Rightarrow> mail list \<Rightarrow> database
   \<Rightarrow> summary list \<times> runtime_health option \<times> mail list \<times> database" where
  "flush_batch_summary lib m t0 t1 results h outbox db =
     (if results = [] then (results, h, outbox, db)
      else (let h = on_notifications (started t0) h in
        case send_batch_summary m results outbox db of
          (Inl e, outbox, db) \<Rightarrow> ([], on_notifications (failed t1 (reason_code_for_exception (str_exc lib e))) h, outbox, db)
        | (Inr _, outbox, db) \<Rightarrow> ([], on_notifications (succeeded t1 (Some 1)) h, outbox, db)))"

text \<open>What the loop carries, besides the state of the worker.\<close>

record 'c loop_state =
  lp_results :: "summary list"
  lp_health :: "runtime_health option"
  lp_outbox :: "mail list"
  lp_work :: "'c wstate"

definition flush_loop :: "'c worker \<Rightarrow> mailer \<Rightarrow> datetime \<Rightarrow> datetime \<Rightarrow> 'c loop_state \<Rightarrow> 'c loop_state" where
  "flush_loop w m t0 t1 lp =
     (case flush_batch_summary (wk_lib_text w) m t0 t1 (lp_results lp) (lp_health lp) (lp_outbox lp) (wt_db (lp_work lp)) of
        (results, h, outbox, db) \<Rightarrow>
          \<lparr>lp_results = results, lp_health = h, lp_outbox = outbox, lp_work = (lp_work lp)\<lparr>wt_db := db\<rparr>\<rparr>)"

definition take_batch :: "'c worker \<Rightarrow> delivery list cmd" where
  "take_batch w = (let cfg = wk_settings w; n = nat (MAX_BATCH_SIZE cfg) in
     rbind (claim_stale_batch (INVOICE_STREAM cfg) (INVOICE_CONSUMER_GROUP cfg) (wk_consumer w)
              (INVOICE_VISIBILITY_TIMEOUT_MS cfg) n) (\<lambda>deliveries.
       if deliveries = [] then read_new_batch (INVOICE_STREAM cfg) (INVOICE_CONSUMER_GROUP cfg) (wk_consumer w) n
       else rpure deliveries))"

text \<open>One turn of the loop. \<open>timed_out\<close>: the client gave up waiting (\<open>RedisTimeoutError\<close>). Any
  other error is logged and the loop goes on.\<close>

definition worker_iteration ::
  "'c worker \<Rightarrow> mailer \<Rightarrow> datetime \<Rightarrow> datetime \<Rightarrow> bool \<Rightarrow> (delivery \<Rightarrow> datetime \<times> int list) \<Rightarrow> 'c loop_state \<Rightarrow> 'c loop_state" where
  "worker_iteration w m t0 t1 timed_out clock lp =
     (if timed_out then flush_loop w m t0 t1 lp
      else (case take_batch w (wt_redis (lp_work lp)) of
          (Inl e, r) \<Rightarrow> lp\<lparr>lp_work := (lp_work lp)\<lparr>wt_redis := r\<rparr>\<rparr>
        | (Inr [], r) \<Rightarrow> flush_loop w m t0 t1 (lp\<lparr>lp_work := (lp_work lp)\<lparr>wt_redis := r\<rparr>\<rparr>)
        | (Inr (d # ds), r) \<Rightarrow>
            (case process_batch w clock (d # ds) ((lp_work lp)\<lparr>wt_redis := r\<rparr>) of
               (summaries, st) \<Rightarrow> lp\<lparr>lp_results := lp_results lp @ summaries, lp_work := st\<rparr>)))"

text \<open>The start of the task: without its consumer group it ends, and says so.\<close>

definition start_worker :: "(py_error \<Rightarrow> string) \<Rightarrow> settings \<Rightarrow> runtime_health option \<Rightarrow> redis \<Rightarrow> runtime_health option result \<times> redis" where
  "start_worker lib cfg h r =
     (case ensure_consumer_group (INVOICE_STREAM cfg) (INVOICE_CONSUMER_GROUP cfg) r of
        (Inl e, r) \<Rightarrow> (Inl e, r)
      | (Inr _, r) \<Rightarrow> (Inr (map_option worker_started h), r))"

definition worker_exit_health :: "(py_error \<Rightarrow> string) \<Rightarrow> py_error \<Rightarrow> runtime_health option \<Rightarrow> runtime_health option" where
  "worker_exit_health lib e = map_option (worker_failed (reason_code_for_exception (str_exc lib e)))"

section \<open>The schedulers\<close>

text \<open>One turn of \<open>gmail_poll_scheduler\<close>: every error is logged and the loop goes on.\<close>

definition gmail_poll_iteration ::
  "(py_error \<Rightarrow> string) \<Rightarrow> gmail \<Rightarrow> pydantic \<Rightarrow> settings \<Rightarrow> (string \<Rightarrow> datetime) \<Rightarrow> datetime \<Rightarrow> datetime
   \<Rightarrow> runtime_health \<Rightarrow> redis \<Rightarrow> runtime_health \<times> string list \<times> redis" where
  "gmail_poll_iteration lib g pd cfg clock t0 t1 h r =
     (case poll_inbox lib g pd cfg clock t0 t1 (Some h) r of (_, h', marked, r) \<Rightarrow> (the h', marked, r))"

text \<open>One turn of \<open>missing_document_sla_scheduler\<close>: scan, then send what is pending. The health
  of the notifications is set by a failing dispatch itself; only one still in progress is
  a success. Times: \<open>now\<close> of the turn, then of each report.\<close>

definition sla_iteration ::
  "(py_error \<Rightarrow> string) \<Rightarrow> settings \<Rightarrow> (nat \<Rightarrow> mailer) \<Rightarrow> (nat \<Rightarrow> datetime) \<Rightarrow> (nat \<Rightarrow> uuid list) \<Rightarrow> (nat \<Rightarrow> uuid list)
   \<Rightarrow> datetime \<Rightarrow> datetime \<Rightarrow> datetime \<Rightarrow> datetime \<Rightarrow> scanner_health \<Rightarrow> runtime_health \<Rightarrow> mail list \<Rightarrow> database
   \<Rightarrow> (scanner_health \<times> runtime_health \<times> mail list \<times> database) option" where
  "sla_iteration lib cfg mailers clock locked1 locked2 now t1 t2 t3 health h outbox db =
     (let h = h\<lparr>rh_sla_scanner := started now (rh_sla_scanner h)\<rparr> in
      case scan_missing_document_slas now (sla_duration cfg) locked1 0 db of
        None \<Rightarrow> None
      | Some (scanned, db) \<Rightarrow>
          (case run_scanner_iteration health now scanned of
             (True, health) \<Rightarrow>
               (let h = h\<lparr>rh_sla_scanner := succeeded t1 (sc_last_result_count health) (rh_sla_scanner h)\<rparr>;
                    h = h\<lparr>rh_notifications := started t2 (rh_notifications h)\<rparr> in
                (case dispatch_pending_sla_notifications lib mailers clock locked2 0 (Some h) outbox db of
                   None \<Rightarrow> None
                 | Some (sent_count, h', outbox, db) \<Rightarrow>
                     (let h = the h' in
                      Some (health,
                        if bo_in_progress (rh_notifications h)
                        then h\<lparr>rh_notifications := succeeded t3 (Some sent_count) (rh_notifications h)\<rparr> else h,
                        outbox, db))))
           | (False, health) \<Rightarrow>
               Some (health, h\<lparr>rh_sla_scanner := failed t1
                  (case sc_last_error health of Some e \<Rightarrow> if e \<noteq> [] then e else ''scan_failed'' | None \<Rightarrow> ''scan_failed'')
                  (rh_sla_scanner h)\<rparr>, outbox, db)))"

section \<open>The process\<close>

text \<open>\<open>lifespan\<close> sets the phase around the three tasks; while it runs, a task that ends reports
  to the health record.\<close>

inductive process_step :: "runtime_health \<Rightarrow> runtime_health \<Rightarrow> bool" where
  running: "rh_phase h = PHASE_STARTING \<Longrightarrow> process_step h (h\<lparr>rh_phase := RUNNING\<rparr>)"
| stopping: "rh_phase h = RUNNING \<Longrightarrow> process_step h (h\<lparr>rh_phase := STOPPING\<rparr>)"
| worker: "process_step h (worker_started h)"
| worker_error: "process_step h (worker_failed reason h)"
| gmail: "process_step h (h\<lparr>rh_gmail := apply_event e (rh_gmail h)\<rparr>)"
| notifications: "process_step h (h\<lparr>rh_notifications := apply_event e (rh_notifications h)\<rparr>)"
| sla: "process_step h (h\<lparr>rh_sla_scanner := apply_event e (rh_sla_scanner h)\<rparr>)"
| exit: "process_step h (record_unexpected_task_exit cancelled c now h)"

inductive_cases process_stepE: "process_step h h'"

lemma after_events_snoc: "after_events (es @ [e]) = apply_event e (after_events es)"
  by (simp add: after_events_def)

text \<open>In every state the process reaches, the outcomes are those of task histories, so that what
  is known of histories holds of every report.\<close>

definition historic :: "runtime_health \<Rightarrow> bool" where
  "historic h \<longleftrightarrow> (\<exists>es. rh_gmail h = after_events es) \<and> (\<exists>es. rh_notifications h = after_events es)
     \<and> (\<exists>es. rh_sla_scanner h = after_events es)"

lemma historic_start: "historic (RuntimeHealth t)"
  unfolding historic_def RuntimeHealth_def by (auto intro!: exI [of _ "[]"] simp: after_events_def)

lemma historic_event:
  "\<exists>es. x = after_events es \<Longrightarrow> \<exists>es. apply_event e x = after_events es"
  by (metis after_events_snoc)

lemma failed_event: "failed t r = apply_event (TaskFailed t r)"
  by simp

lemma historic_step: "process_step h h' \<Longrightarrow> historic h \<Longrightarrow> historic h'"
proof (induction rule: process_step.induct)
  case (exit h cancelled c now)
  then show ?case
    by (cases c) (auto simp: record_unexpected_task_exit_def historic_def worker_failed_def failed_event
        simp del: apply_event.simps intro: historic_event)
qed (auto simp: historic_def worker_started_def worker_failed_def simp del: apply_event.simps intro: historic_event)

lemma historic_reachable: "process_step\<^sup>*\<^sup>* (RuntimeHealth t) h \<Longrightarrow> historic h"
  by (induction rule: rtranclp_induct) (auto intro: historic_start historic_step)

section \<open>Who owns a delivery\<close>

lemma autoclaim_idle:
  "i \<in> fst ` set (fst (autoclaim n entry c min_idle now ps)) \<Longrightarrow> \<exists>p \<in> set ps. pe_id p = i \<and> min_idle \<le> now - pe_delivered_at p"
  by (induction n entry c min_idle now ps rule: autoclaim.induct)
    (auto split: if_splits option.splits prod.splits)

lemma rbind_ok: "rbind m f r = (Inr y, r') \<longleftrightarrow> (\<exists>x r1. m r = (Inr x, r1) \<and> f x r1 = (Inr y, r'))"
  by (cases "m r"; cases "fst (m r)") (auto simp: rbind_def)

lemma xpending_same: "xpending_one k g i r = (Inr p, r') \<Longrightarrow> r' = r"
  by (cases "group_at k g r") (auto simp: xpending_one_def)

lemma claimed_deliveries_ids:
  assumes "claimed_deliveries k g rows r = (Inr ds, r')"
  shows "map dv_id ds = map fst rows \<and> r' = r"
  using assms
proof (induction rows arbitrary: ds r)
  case Nil
  then show ?case by (simp add: rpure_def)
next
  case (Cons e rows)
  from Cons.prems obtain p r1 ds' r2 where st: "xpending_one k g (fst e) r = (Inr p, r1)"
      "claimed_deliveries k g rows r1 = (Inr ds', r2)" "ds = \<lparr>dv_id = fst e, dv_fields = dict_of (snd e),
               dv_attempt = (case p of None \<Rightarrow> 1 | Some p \<Rightarrow> pe_count p)\<rparr> # ds'" "r' = r2"
    by (auto simp: rbind_ok rpure_def)
  from Cons.IH [OF st(2) [folded st(4)]] xpending_same [OF st(1)] st(3) show ?case by simp
qed

lemma claimed_deliveries_succeed:
  "group_at k g r = Inr (s, x) \<Longrightarrow> \<exists>ds. claimed_deliveries k g rows r = (Inr ds, r)"
  by (induction rows) (auto simp: cmd_simps xpending_one_def)

lemma claim_stale_batch_idle:
  assumes "claim_stale_batch k g c min_idle n r = (Inr ds, r')" and "i \<in> dv_id ` set ds"
  shows "\<exists>p \<in> set (pending_at k g r). pe_id p = i \<and> min_idle \<le> rs_now r - pe_delivered_at p"
proof -
  from assms(1) obtain rows r1 where auto: "xautoclaim k g c min_idle n r = (Inr rows, r1)"
      and rows: "claimed_deliveries k g rows r1 = (Inr ds, r')"
    by (auto simp: claim_stale_batch_def rbind_ok)
  from auto obtain s x where gx: "group_at k g r = Inr (s, x)"
      and r: "rows = fst (autoclaim n (map_of (st_entries s)) c min_idle (rs_now r) (take (10 * n) (gp_pending x)))"
    by (cases "group_at k g r") (auto simp: xautoclaim_def split: prod.splits)
  have "i \<in> fst ` set rows" using claimed_deliveries_ids [OF rows] assms(2) by (metis list.set_map)
  from autoclaim_idle [OF this [unfolded r]] obtain p where p: "p \<in> set (take (10 * n) (gp_pending x))" "pe_id p = i"
      "min_idle \<le> rs_now r - pe_delivered_at p" by blast
  have "pending_at k g r = gp_pending x" using gx by (simp add: group_at_look pending_at_def)
  with p show ?thesis by (metis in_set_takeD)
qed

lemma claim_stamps:
  assumes "xclaim_justid k g c i n r = (Inr (), r')" and "p \<in> set (pending_at k g r')" and "pe_id p = i"
  shows "pe_delivered_at p = rs_now r"
proof (cases "group_at k g r")
  case (Inl e)
  with assms(1) show ?thesis by (simp add: xclaim_justid_def)
next
  case (Inr y)
  obtain s x where y: "y = (s, x)" by fastforce
  define ps where "ps = (if map_of (st_entries s) i = None then filter (\<lambda>p. pe_id p \<noteq> i) (gp_pending x)
      else map (\<lambda>p. if pe_id p = i then p\<lparr>pe_consumer := c, pe_delivered_at := rs_now r, pe_count := n\<rparr> else p) (gp_pending x))"
  have "r' = rs_put k (RStream (set_group g (x\<lparr>gp_pending := ps\<rparr>) s)) r"
    using assms(1) Inr y by (simp add: xclaim_justid_def Let_def ps_def)
  then have "p \<in> set ps" using assms(2) by (simp add: pending_at_def set_group_def map_of_gset)
  then show ?thesis
  proof (cases "map_of (st_entries s) i")
    case None
    with \<open>p \<in> set ps\<close> assms(3) show ?thesis by (simp add: ps_def)
  next
    case (Some fs)
    with \<open>p \<in> set ps\<close> obtain q where "q \<in> set (gp_pending x)"
      and q: "p = (if pe_id q = i then q\<lparr>pe_consumer := c, pe_delivered_at := rs_now r, pe_count := n\<rparr> else q)"
      by (auto simp: ps_def)
    have "pe_id q = i" using assms(3) unfolding q by (cases "pe_id q = i") simp_all
    then show ?thesis unfolding q by simp
  qed
qed

lemma heartbeat_append:
  "heartbeat cfg c d (xs @ ys) r = (case heartbeat cfg c d xs r of (Inl e, r) \<Rightarrow> (Inl e, r) | (Inr _, r) \<Rightarrow> heartbeat cfg c d ys r)"
proof (induction xs arbitrary: r)
  case (Cons t ts)
  obtain y r1 where "xclaim_justid (INVOICE_STREAM cfg) (INVOICE_CONSUMER_GROUP cfg) c (dv_id d) (dv_attempt d) (r\<lparr>rs_now := t\<rparr>) = (y, r1)"
    by fastforce
  then show ?case by (cases y) (simp_all add: Cons.IH split: unit.split)
qed simp

lemma heartbeat_one:
  "heartbeat cfg c d [t] r = xclaim_justid (INVOICE_STREAM cfg) (INVOICE_CONSUMER_GROUP cfg) c (dv_id d) (dv_attempt d) (r\<lparr>rs_now := t\<rparr>)"
  by (simp split: prod.split sum.split unit.split)

lemma pending_advance: "pending_at k g (r\<lparr>rs_now := t\<rparr>) = pending_at k g r"
  by (auto simp: pending_at_def rs_look_def split: option.splits rvalue.splits)

text \<open>C32: a delivery belongs to the worker whose heart beats. From a heartbeat on and for as long as the visibility
  timeout, no other worker's claim returns that delivery, whatever else is pending.\<close>

theorem heartbeat_protects:
  assumes beat: "heartbeat cfg consumer d (beats @ [t]) r = (Inr (), r1)"
    and soon: "now - t < INVOICE_VISIBILITY_TIMEOUT_MS cfg"
    and claim: "claim_stale_batch (INVOICE_STREAM cfg) (INVOICE_CONSUMER_GROUP cfg) other (INVOICE_VISIBILITY_TIMEOUT_MS cfg) n
      (r1\<lparr>rs_now := now\<rparr>) = (Inr ds, r2)"
  shows "dv_id d \<notin> dv_id ` set ds"
proof
  let ?S = "INVOICE_STREAM cfg" and ?G = "INVOICE_CONSUMER_GROUP cfg"
  assume "dv_id d \<in> dv_id ` set ds"
  from claim_stale_batch_idle [OF claim this] obtain p where p: "p \<in> set (pending_at ?S ?G r1)" "pe_id p = dv_id d"
      "INVOICE_VISIBILITY_TIMEOUT_MS cfg \<le> now - pe_delivered_at p" by (auto simp: pending_advance)
  from beat obtain r0 where "heartbeat cfg consumer d [t] r0 = (Inr (), r1)"
    by (simp only: heartbeat_append split: prod.splits sum.splits) blast
  then have "xclaim_justid ?S ?G consumer (dv_id d) (dv_attempt d) (r0\<lparr>rs_now := t\<rparr>) = (Inr (), r1)"
    by (simp only: heartbeat_one)
  from claim_stamps [OF this p(1,2)] have "pe_delivered_at p = t" by simp
  with p(3) soon show False by simp
qed


lemma claim_succeeds:
  assumes "queue_ready cfg r"
  shows "\<exists>ds r'. claim_stale_batch (INVOICE_STREAM cfg) (INVOICE_CONSUMER_GROUP cfg) c min_idle n r = (Inr ds, r')"
proof -
  let ?S = "INVOICE_STREAM cfg" and ?G = "INVOICE_CONSUMER_GROUP cfg"
  from assms obtain s x where gx: "group_at ?S ?G r = Inr (s, x)" by (auto simp: queue_ready_def)
  obtain rows ps where a: "autoclaim n (map_of (st_entries s)) c min_idle (rs_now r) (take (10 * n) (gp_pending x)) = (rows, ps)"
    by fastforce
  define x' where "x' = x\<lparr>gp_pending := ps @ drop (10 * n) (gp_pending x)\<rparr>"
  define r' where "r' = rs_put ?S (RStream (set_group ?G x' s)) r"
  have "xautoclaim ?S ?G c min_idle n r = (Inr rows, r')" using gx a by (simp add: xautoclaim_def x'_def r'_def)
  moreover have "group_at ?S ?G r' = Inr (set_group ?G x' s, x')" by (simp add: r'_def group_at_look set_group_def map_of_gset)
  then obtain ds where "claimed_deliveries ?S ?G rows r' = (Inr ds, r')" using claimed_deliveries_succeed by blast
  ultimately show ?thesis by (auto simp: claim_stale_batch_def rbind_def)
qed

theorem heartbeat_protects_witness:
  "\<exists>r1 ds r2. heartbeat default_settings ''w1'' sample_delivery ([] @ [20]) (wt_redis sample_wstate) = (Inr (), r1)
     \<and> claim_stale_batch (INVOICE_STREAM default_settings) (INVOICE_CONSUMER_GROUP default_settings) ''w2''
         (INVOICE_VISIBILITY_TIMEOUT_MS default_settings) 10 (r1\<lparr>rs_now := 300000\<rparr>) = (Inr ds, r2)
     \<and> dv_id sample_delivery \<notin> dv_id ` set ds"
proof -
  have ready: "queue_ready default_settings (wt_redis sample_wstate)"
    using sample_worker_ready by (simp add: worker_ready_def sample_worker_def)
  have "sorted (rs_now (wt_redis sample_wstate) # [20])" by (simp add: sample_wstate_def)
  from heartbeat_keeps [OF default_names ready _ this, of sample_delivery "''w1''"] sample_delivery_facts(2) obtain r1 where
    b: "heartbeat default_settings ''w1'' sample_delivery [20] (wt_redis sample_wstate) = (Inr (), r1)"
      "queue_ready default_settings r1" "rs_now r1 = 20" by (auto simp: sample_worker_def)
  have b': "heartbeat default_settings ''w1'' sample_delivery ([] @ [20]) (wt_redis sample_wstate) = (Inr (), r1)"
    using b(1) by simp
  have "queue_ready default_settings (r1\<lparr>rs_now := 300000\<rparr>)" using advance_ready(1) [OF b(2), of 300000] b(3) by simp
  from claim_succeeds [OF this] obtain ds r2 where
    c: "claim_stale_batch (INVOICE_STREAM default_settings) (INVOICE_CONSUMER_GROUP default_settings) ''w2''
      (INVOICE_VISIBILITY_TIMEOUT_MS default_settings) 10 (r1\<lparr>rs_now := 300000\<rparr>) = (Inr ds, r2)" by blast
  have "300000 - 20 < INVOICE_VISIBILITY_TIMEOUT_MS default_settings" by (simp add: default_settings_def)
  from heartbeat_protects [OF b' this c] b' c show ?thesis by blast
qed


end
