(* ===== verification/Workflow_Api.thy ===== *)
theory Workflow_Api
  imports Worker_Safety SLA_Scanner
begin

text \<open>
  The HTTP routes on workflow runs (\<open>app/api/routes/workflow.py\<close>, with the request of
  \<open>app/schemas/workflow.py\<close>) and on a single extraction (\<open>app/api/routes/extraction.py\<close>). A
  route answers a value or an \<open>http_error\<close>: the \<open>HTTPException\<close> it raises, with status code
  and detail, or an exception the framework turns into a 500. The lemmas show that an upload
  leaves a run that agrees with the answer, that a decision reads back, and in which order runs
  are listed.
\<close>

datatype http_error = HTTPException nat json | InternalError py_error

type_synonym 'a response = "http_error + 'a"

section \<open>Projections\<close>

definition extracted_carrier :: "jdict \<Rightarrow> json" where
  "extracted_carrier extraction = (if extraction = [] then JNull else dget extraction ''carrier_name'')"

definition extracted_amount :: "jdict \<Rightarrow> pyfloat option result" where
  "extracted_amount extraction =
     (if extraction = [] then Inr None
      else if dget extraction ''doc_type'' \<noteq> JStr ''invoice'' then Inr None
      else if dget extraction ''total_amount'' = JNull then Inr None
      else (case float_of_json (dget extraction ''total_amount'') of
          Inr x \<Rightarrow> Inr (Some x)
        | Inl (TypeError m) \<Rightarrow> Inr None
        | Inl (ValueError m) \<Rightarrow> Inr None
        | Inl e \<Rightarrow> Inl e))"

definition run_exception_reason :: "workflow_run \<Rightarrow> json" where
  "run_exception_reason run = (let payload = payload_dict run in py_or (dget payload ''reason'') (dget payload ''error''))"

record triage_view =
  tv_route :: json
  tv_reasoning :: json
  tv_confidence :: json

definition triage_from_payload :: "jdict option \<Rightarrow> triage_view" where
  "triage_from_payload payload = (case payload of
     None \<Rightarrow> \<lparr>tv_route = JNull, tv_reasoning = JNull, tv_confidence = JNull\<rparr>
   | Some p \<Rightarrow> \<lparr>tv_route = dget p ''triage_route'', tv_reasoning = dget p ''triage_reasoning'',
                tv_confidence = dget p ''triage_confidence''\<rparr>)"

definition TRIAGE_PRIORITY :: "(string \<times> nat) list" where
  "TRIAGE_PRIORITY = [(''escalate_priority'', 0), (''escalate_standard'', 1), (''auto_resolve'', 2)]"

text \<open>\<open>triage_priority.get(route, 3) if route else 3\<close>: a list or an object is no dict key.\<close>

definition route_rank :: "json \<Rightarrow> nat result" where
  "route_rank route =
     (if \<not> truthy route then Inr 3
      else (case route of
          JStr s \<Rightarrow> Inr (case map_of TRIAGE_PRIORITY s of None \<Rightarrow> 3 | Some n \<Rightarrow> n)
        | JArr _ \<Rightarrow> Inl (TypeError ''unhashable type: list'')
        | JObj _ \<Rightarrow> Inl (TypeError ''unhashable type: dict'')
        | _ \<Rightarrow> Inr 3))"

section \<open>Rows\<close>

record run_row =
  rw_filename :: string
  rw_doc_type :: json
  rw_carrier_name :: json
  rw_amount :: "pyfloat option"
  rw_state :: state_view
  rw_created_at :: datetime
  rw_triage :: triage_view

definition run_sort_key :: "run_row \<Rightarrow> (nat \<times> nat \<times> datetime) result" where
  "run_sort_key row =
     (case route_rank (tv_route (rw_triage row)) of
        Inl e \<Rightarrow> Inl e
      | Inr rank \<Rightarrow> Inr (if sv_processing_status (rw_state row) = ''awaiting_review'' then 0 else 1, rank, rw_created_at row))"

definition get_workflow_run :: "database \<Rightarrow> string \<Rightarrow> workflow_run option result" where
  "get_workflow_run db run_id = scalar_one_or_none (filter (\<lambda>r. wr_run_id r = run_id) (workflow_runs db))"

definition get_review_decision :: "database \<Rightarrow> string \<Rightarrow> review_decision option result" where
  "get_review_decision db run_id = scalar_one_or_none (filter (\<lambda>d. rd_run_id d = run_id) (review_decisions db))"

text \<open>The changed run and its commit.\<close>

definition commit_run_state ::
  "workflow_run \<Rightarrow> string \<Rightarrow> string option \<Rightarrow> string option \<Rightarrow> jdict option \<Rightarrow> bool \<Rightarrow> database \<Rightarrow> workflow_run \<times> database" where
  "commit_run_state run status_value processing posting payload preserve_payload db =
     (let run = persist_run_state run status_value processing posting payload preserve_payload in
      (touch_run run db, save_run run db))"

text \<open>The select of the listing: runs joined with their documents and decisions, the newest
  twenty.\<close>

definition newest_runs :: "nat \<Rightarrow> database \<Rightarrow> (workflow_run \<times> document \<times> review_decision option) list" where
  "newest_runs n db = take n (List.map_filter
     (\<lambda>r. map_option (\<lambda>d. (r, d, List.find (\<lambda>x. rd_run_id x = wr_run_id r) (review_decisions db))) (get_document (wr_document_id r) db))
     (sort_key (\<lambda>r. - wr_created_at r) (workflow_runs db)))"

definition run_row_of :: "database \<Rightarrow> workflow_run \<times> document \<times> review_decision option \<Rightarrow> run_row result" where
  "run_row_of db row = (case row of (run, document, decision) \<Rightarrow>
     (let extraction = doc_extraction (Some document) in
      case extracted_amount extraction of
        Inl e \<Rightarrow> Inl e
      | Inr total_amount \<Rightarrow>
          Inr \<lparr>rw_filename = doc_filename document,
               rw_doc_type = py_or (dget extraction ''doc_type'') (JStr (doc_doc_type document)),
               rw_carrier_name = extracted_carrier extraction, rw_amount = total_amount,
               rw_state = state_payload run decision (reconciliation_status_for_run db (wr_run_id run)),
               rw_created_at = wr_created_at run, rw_triage = triage_from_payload (wr_interrupt_payload run)\<rparr>))"

fun all_results :: "'a result list \<Rightarrow> 'a list result" where
  "all_results [] = Inr []"
| "all_results (r # rs) = (case r of Inl e \<Rightarrow> Inl e
     | Inr x \<Rightarrow> (case all_results rs of Inl e \<Rightarrow> Inl e | Inr xs \<Rightarrow> Inr (x # xs)))"

definition list_runs :: "database \<Rightarrow> run_row list response" where
  "list_runs db =
     (case all_results (map (run_row_of db) (newest_runs 20 db)) of
        Inl e \<Rightarrow> Inl (InternalError e)
      | Inr rows \<Rightarrow> (case all_results (map run_sort_key rows) of
            Inl e \<Rightarrow> Inl (InternalError e)
          | Inr keys \<Rightarrow> Inr (map snd (sort_key fst (zip keys rows)))))"

section \<open>Uploading a document\<close>

definition upload_state :: "string \<Rightarrow> nat \<Rightarrow> string \<Rightarrow> string \<Rightarrow> workflow_state" where
  "upload_state run_id document_id file_bytes filename = \<lparr>ws_run_id = run_id, ws_document_id = document_id,
     ws_file_bytes = file_bytes, ws_filename = filename, ws_extraction = None, ws_match_result = None,
     ws_exception_reason = None, ws_triage_route = None, ws_triage_reasoning = None, ws_triage_confidence = None,
     ws_human_decision = None, ws_status = ''running'', ws_processing_status = Some ''running'',
     ws_posting_status = Some ''not_ready'', ws_review_disposition = None, ws_messages = [], ws_iteration_count = 0\<rparr>"

definition upload_run :: "nat \<Rightarrow> string \<Rightarrow> nat \<Rightarrow> datetime \<Rightarrow> workflow_run" where
  "upload_run i run_id document_id now = \<lparr>wr_id = i, wr_run_id = run_id, wr_document_id = document_id,
     wr_status = ''running'', wr_processing_status = ''running'', wr_posting_status = ''not_ready'',
     wr_interrupt_payload = None, wr_created_at = now, wr_updated_at = now\<rparr>"

definition create_upload :: "string \<Rightarrow> database \<Rightarrow> (document \<times> workflow_run \<times> database) result" where
  "create_upload filename db =
     (let (run_id, db1) = fresh_uuid db; (document, db2) = new_document filename ''unknown'' ''received'' None db1;
          run = upload_run (Suc (run_seq db2)) run_id (doc_id document) (pg_now db2) in
      if get_run run_id db2 \<noteq> None then Inl IntegrityError
      else Inr (document, run, (add_run run db2)\<lparr>run_seq := Suc (run_seq db2)\<rparr>))"

definition upload_failed :: "(py_error \<Rightarrow> string) \<Rightarrow> py_error \<Rightarrow> workflow_run \<Rightarrow> database \<Rightarrow> workflow_run \<times> database" where
  "upload_failed lib e run db =
     commit_run_state run ''failed'' (Some ''failed'') None (Some [(''error'', JStr (str_exc lib e))]) False db"

definition upload_error :: "py_error \<Rightarrow> http_error" where
  "upload_error e = (case e of ExtractionError m \<Rightarrow> HTTPException 422 (JStr m) | _ \<Rightarrow> InternalError e)"

definition upload_stopped :: "graph_result \<Rightarrow> workflow_run \<Rightarrow> database \<Rightarrow> workflow_run \<times> database" where
  "upload_stopped result run db = (case interrupt_payload result of
     Some payload \<Rightarrow> commit_run_state run ''awaiting_review'' (Some ''awaiting_review'') (Some ''not_ready'') (Some payload) False db
   | None \<Rightarrow> commit_run_state run (ws_status (gr_state result))
       (Some (or_default ''complete'' (ws_processing_status (gr_state result))))
       (Some (or_default ''not_ready'' (ws_posting_status (gr_state result)))) None True db)"

definition run_workflow ::
  "(py_error \<Rightarrow> string) \<Rightarrow> 'c engine \<Rightarrow> string \<Rightarrow> string option \<Rightarrow> 'c \<Rightarrow> database \<Rightarrow> state_view response \<times> 'c \<times> database" where
  "run_workflow lib eg file_bytes upload_name cp db =
     (let filename = (case upload_name of None \<Rightarrow> [] | Some n \<Rightarrow> n) in
      case detect_file_type filename of
        Inl (UnsupportedFileTypeError m) \<Rightarrow> (Inl (HTTPException 415 (JStr m)), cp, db)
      | Inl e \<Rightarrow> (Inl (InternalError e), cp, db)
      | Inr _ \<Rightarrow>
          (case create_upload filename db of
             Inl e \<Rightarrow> (Inl (InternalError e), cp, db)
           | Inr (document, run, db) \<Rightarrow>
               (case eg_invoke eg (Fresh (upload_state (wr_run_id run) (doc_id document) file_bytes filename)) (wr_run_id run) cp db of
                  (Inl e, cp, db) \<Rightarrow> (Inl (upload_error e), cp, snd (upload_failed lib e run db))
                | (Inr result, cp, db) \<Rightarrow>
                    (case upload_stopped result run db of
                       (run, db) \<Rightarrow> (Inr (state_payload run None (reconciliation_status_for_run db (wr_run_id run))), cp, db)))))"

section \<open>Reading a run\<close>

definition not_found :: http_error where
  "not_found = HTTPException 404 (JStr ''Workflow run not found'')"

record match_view =
  mv_matched :: bool
  mv_reconciliation_result_id :: uuid
  mv_shipment_id :: uuid
  mv_checks :: "recon_check list"
  mv_missing_docs :: "string list"
  mv_exception_reasons :: "string list"

record run_detail =
  dt_state :: state_view
  dt_filename :: string
  dt_created_at :: datetime
  dt_updated_at :: datetime
  dt_extraction :: "jdict option"
  dt_match_result :: "match_view option"
  dt_exception_reason :: json
  dt_interrupt_payload :: "jdict option"
  dt_triage :: triage_view

definition match_view_of :: "reconciliation_result \<Rightarrow> match_view" where
  "match_view_of r = \<lparr>mv_matched = (rr_exception_reasons r = []), mv_reconciliation_result_id = rr_id r,
     mv_shipment_id = rr_shipment_id r, mv_checks = rr_checks r, mv_missing_docs = rr_missing_docs r,
     mv_exception_reasons = rr_exception_reasons r\<rparr>"

definition workflow_detail :: "database \<Rightarrow> string \<Rightarrow> run_detail response" where
  "workflow_detail db run_id =
     (case scalar_one_or_none (filter (\<lambda>r. wr_run_id r = run_id \<and> get_document (wr_document_id r) db \<noteq> None) (workflow_runs db)) of
        Inl e \<Rightarrow> Inl (InternalError e)
      | Inr None \<Rightarrow> Inl not_found
      | Inr (Some run) \<Rightarrow>
          (let document = the (get_document (wr_document_id run) db); extraction = doc_extraction (Some document);
               reconciliation = latest rr_created_at (filter (\<lambda>r. rr_run_id r = Some (wr_run_id run)) (reconciliation_results db)) in
           case get_review_decision db (wr_run_id run) of
             Inl e \<Rightarrow> Inl (InternalError e)
           | Inr decision \<Rightarrow>
               Inr \<lparr>dt_state = state_payload run decision (case reconciliation of None \<Rightarrow> None
                      | Some r \<Rightarrow> map_option sh_reconciliation_status (get_shipment (rr_shipment_id r) db)),
                    dt_filename = doc_filename document, dt_created_at = wr_created_at run, dt_updated_at = wr_updated_at run,
                    dt_extraction = (if extraction = [] then None else Some extraction),
                    dt_match_result = map_option match_view_of reconciliation,
                    dt_exception_reason = run_exception_reason run, dt_interrupt_payload = wr_interrupt_payload run,
                    dt_triage = triage_from_payload (wr_interrupt_payload run)\<rparr>))"

definition workflow_audit :: "database \<Rightarrow> string \<Rightarrow> workflow_audit_log list response" where
  "workflow_audit db run_id =
     (case get_workflow_run db run_id of
        Inl e \<Rightarrow> Inl (InternalError e)
      | Inr None \<Rightarrow> Inl not_found
      | Inr (Some _) \<Rightarrow> Inr (sort_key al_created_at (filter (\<lambda>a. al_run_id a = run_id) (audit_logs db))))"

text \<open>The second component is the interrupt payload, present while the run awaits review.\<close>

definition workflow_status :: "database \<Rightarrow> string \<Rightarrow> (state_view \<times> jdict option option) response" where
  "workflow_status db run_id =
     (case get_workflow_run db run_id of
        Inl e \<Rightarrow> Inl (InternalError e)
      | Inr None \<Rightarrow> Inl not_found
      | Inr (Some run) \<Rightarrow>
          (case get_review_decision db run_id of
             Inl e \<Rightarrow> Inl (InternalError e)
           | Inr decision \<Rightarrow>
               Inr (state_payload run decision (reconciliation_status_for_run db run_id),
                    if wr_processing_status run = ''awaiting_review'' then Some (wr_interrupt_payload run) else None)))"

section \<open>Deciding\<close>

text \<open>\<open>ResumeRequest\<close>: the body is refused unless the decision is one of the two.\<close>

definition ResumeRequest :: "jdict \<Rightarrow> string option" where
  "ResumeRequest body = (case dget body ''decision'' of
     JStr d \<Rightarrow> if d \<in> set [''approved'', ''rejected''] then Some d else None | _ \<Rightarrow> None)"

definition resume_workflow ::
  "'c engine \<Rightarrow> string \<Rightarrow> jdict \<Rightarrow> 'c \<Rightarrow> database \<Rightarrow> (state_view \<times> bool) response \<times> 'c \<times> database" where
  "resume_workflow eg run_id body cp db =
     (case ResumeRequest body of
        None \<Rightarrow> (Inl (HTTPException 422 (JStr ''decision'')), cp, db)
      | Some requested \<Rightarrow>
          (case decide_review eg run_id requested cp db of
             (Inl (BusinessStateConflict code message details), cp, db) \<Rightarrow>
               (Inl (HTTPException 409 (JObj (dupdate [(''code'', JStr code), (''message'', JStr message)] details))), cp, db)
           | (Inl (Unhandled e), cp, db) \<Rightarrow> (Inl (InternalError e), cp, db)
           | (Inr (Some run, Some decision, idempotent), cp, db) \<Rightarrow>
               (Inr (state_payload run (Some decision) (reconciliation_status_for_run db run_id), idempotent), cp, db)
           | (Inr _, cp, db) \<Rightarrow> (Inl not_found, cp, db)))"

section \<open>One extraction\<close>

definition extract_route ::
  "settings \<Rightarrow> pydantic \<Rightarrow> claude \<Rightarrow> string \<Rightarrow> string option \<Rightarrow> database \<Rightarrow> jdict response \<times> database" where
  "extract_route cfg pd cl file_bytes upload_name db =
     (case extract_document cfg pd cl file_bytes (case upload_name of None \<Rightarrow> [] | Some n \<Rightarrow> n) None db of
        Inl (UnsupportedFileTypeError m) \<Rightarrow> (Inl (HTTPException 415 (JStr m)), db)
      | Inl (ExtractionError m) \<Rightarrow> (Inl (HTTPException 422 (JStr m)), db)
      | Inl e \<Rightarrow> (Inl (InternalError e), db)
      | Inr (extraction, db) \<Rightarrow> (Inr extraction, db))"

section \<open>What an upload leaves\<close>

lemma new_thread:
  assumes eng: "graph_engine env eg pos" and ok: "positions_ok pos cp db" and none: "get_run i db = None"
  shows "eg_invoke eg (Fresh s) i cp db' = job_result eg i s cp db'"
proof -
  have "pos i cp = None" using ok none unfolding positions_ok_def by (metis not_Some_eq)
  then show ?thesis using graph_engine.get_state [OF eng, of i cp] by (simp add: job_result_def)
qed

lemma create_upload_inv:
  assumes inv: "worker_inv pos cp db" and new: "create_upload filename db = Inr (d, run, db')"
  shows "worker_inv pos cp db'" "get_run (wr_run_id run) db = None" "get_run (wr_run_id run) db' = Some run"
    "wr_processing_status run = ''running''" "wr_posting_status run = ''not_ready''" "get_decision (wr_run_id run) db' = None"
proof -
  define i where "i = uuid4_at db (uuid_pos db)"
  obtain db2 where nd: "new_document filename ''unknown'' ''received'' None (db\<lparr>uuid_pos := Suc (uuid_pos db)\<rparr>) = (d, db2)"
    and run: "run = upload_run (Suc (run_seq db2)) i (doc_id d) (pg_now db2)" and none: "get_run i db2 = None"
    and db': "db' = (add_run run db2)\<lparr>run_seq := Suc (run_seq db2)\<rparr>"
    using new by (auto simp: create_upload_def fresh_uuid_def i_def Let_def split: prod.splits if_splits)
  from nd have d: "doc_id d = Suc (doc_seq db)" "doc_source_idempotency_key d = None"
    and db2: "db2 = db\<lparr>uuid_pos := Suc (uuid_pos db), documents := documents db @ [d], doc_seq := Suc (doc_seq db)\<rparr>"
    by (auto simp: new_document_def add_document_def Let_def)
  have id: "wr_run_id run = i" "wr_document_id run = doc_id d" by (simp_all add: run upload_run_def)
  have g: "get_run (wr_run_id run) db = None" using none id by (simp add: db2 get_run_def)
  then show "get_run (wr_run_id run) db = None" .
  have runs: "workflow_runs db' = workflow_runs db @ [run]" by (simp add: db' db2 add_run_def)
  have "get_run r db \<noteq> None \<Longrightarrow> get_run r db' \<noteq> None" for r by (auto simp: get_run_def runs get_row_append)
  then have same: "same_tables db db'" by (simp add: same_tables_def db' db2 add_run_def)
  have dec: "review_decisions db' = review_decisions db" by (simp add: db' db2 add_run_def)
  show "worker_inv pos cp db'"
    by (rule added_records_inv(1) [OF inv d(1) _ id(2) g _ _ runs dec _ _ same]) (simp_all add: d(2) db' db2 add_run_def)
  show "get_run (wr_run_id run) db' = Some run" using g by (simp add: get_run_def runs get_row_append)
  show "wr_processing_status run = ''running''" "wr_posting_status run = ''not_ready''" by (simp_all add: run upload_run_def)
  show "get_decision (wr_run_id run) db' = None"
  proof (rule ccontr)
    assume "get_decision (wr_run_id run) db' \<noteq> None"
    then obtain x where "get_decision (wr_run_id run) db = Some x" by (auto simp: get_decision_def dec)
    with runs_inv_decision [OF worker_invD(7) [OF inv]] g show False by (metis option.distinct(1))
  qed
qed

lemma upload_initial: "initial_state (upload_state i d bytes name)" "ws_run_id (upload_state i d bytes name) = i"
  by (simp_all add: upload_state_def initial_state_def)

text \<open>The run after the commit of its outcome reads back, in the status route too.\<close>

lemma committed_reads_back:
  assumes inv: "worker_inv pos cp db" and run: "get_run i db = Some run" "wr_processing_status run = ''running''"
    and c: "commit_run_state run st pr po pl keep db = (run', db')"
  shows "worker_inv pos cp db'" "get_run i db' = Some run'" "wr_run_id run' = i"
    "workflow_status db' i = Inr (state_payload run' None (reconciliation_status_for_run db' i),
       if wr_processing_status run' = ''awaiting_review'' then Some (wr_interrupt_payload run') else None)"
proof -
  let ?r = "persist_run_state run st pr po pl keep"
  have id: "wr_run_id run = i" using run(1) by (rule run_id_of)
  from c have run': "run' = touch_run ?r db" and db': "db' = save_run ?r db" by (simp_all add: commit_run_state_def Let_def)
  have "worker_inv pos cp (save_run ?r db)" by (rule saved_outcome(1) [OF inv run(1)]) (use run(2) in simp_all)
  then show inv': "worker_inv pos cp db'" by (simp add: db')
  show get: "get_run i db' = Some run'" using run(1) id by (simp add: db' run' get_run_save_run)
  show "wr_run_id run' = i" by (simp add: run' id)
  have "get_decision i db = None" using undecided [OF worker_invD(7) [OF inv] run(1)] run(2) by simp
  then have "get_review_decision db' i = Inr None" and "get_workflow_run db' i = Inr (Some run')"
    using worker_invD(7) [OF inv'] get
    by (simp_all add: get_review_decision_def get_workflow_run_def runs_inv_def scalar_one_or_none_unique get_decision_def
        get_run_def db')
  then show "workflow_status db' i = Inr (state_payload run' None (reconciliation_status_for_run db' i),
       if wr_processing_status run' = ''awaiting_review'' then Some (wr_interrupt_payload run') else None)"
    by (simp add: workflow_status_def)
qed

lemma upload_outcome:
  assumes "upload_stopped x run db = (run', db')"
    and "if gr_interrupt x = None then finished_ok (gr_state x) else unfinished (gr_state x)"
  shows "\<exists>sv pr po pl kp. commit_run_state run sv pr po pl kp db = (run', db')
    \<and> wr_processing_status run' \<in> {''awaiting_review'', ''complete'', ''failed''}
    \<and> (wr_posting_status run' = ''ready_for_posting'' \<longrightarrow> wr_processing_status run' = ''complete'')"
proof (cases "gr_interrupt x")
  case None
  let ?s = "gr_state x"
  have c: "commit_run_state run (ws_status ?s) (Some (or_default ''complete'' (ws_processing_status ?s)))
      (Some (or_default ''not_ready'' (ws_posting_status ?s))) None True db = (run', db')"
    using assms(1) None by (simp add: upload_stopped_def interrupt_payload_def)
  have f: "finished_ok ?s" using assms(2) None by simp
  then consider "ws_processing_status ?s = Some ''failed''" | "ws_processing_status ?s = Some ''complete''"
    by (auto simp: finished_ok_def)
  then have "wr_processing_status run' \<in> {''awaiting_review'', ''complete'', ''failed''}
    \<and> (wr_posting_status run' = ''ready_for_posting'' \<longrightarrow> wr_processing_status run' = ''complete'')"
  proof cases
    case 1
    with f have "ws_posting_status ?s \<noteq> Some ''ready_for_posting''"
      by (auto simp: finished_ok_def reconciled_clean_def is_decision_def)
    with 1 c show ?thesis by (auto simp: commit_run_state_def Let_def or_default_def split: option.splits)
  next
    case 2
    with c show ?thesis by (auto simp: commit_run_state_def Let_def or_default_def)
  qed
  with c show ?thesis by blast
next
  case (Some p)
  have c: "commit_run_state run ''awaiting_review'' (Some ''awaiting_review'') (Some ''not_ready'') (Some p) False db = (run', db')"
    using assms(1) Some by (simp add: upload_stopped_def interrupt_payload_def)
  then have "wr_processing_status run' = ''awaiting_review''" "wr_posting_status run' = ''not_ready''"
    by (auto simp: commit_run_state_def Let_def)
  then have "wr_processing_status run' \<in> {''awaiting_review'', ''complete'', ''failed''}
    \<and> (wr_posting_status run' = ''ready_for_posting'' \<longrightarrow> wr_processing_status run' = ''complete'')" by simp
  with c show ?thesis by blast
qed

lemma state_payload_simps [simp]:
  "sv_run_id (state_payload run d rs) = wr_run_id run" "sv_posting_status (state_payload run d rs) = wr_posting_status run"
  "sv_processing_status (state_payload run d rs) = processing_status run"
  by (simp_all add: state_payload_def Let_def)



section \<open>A decision reads back\<close>

lemma workflow_status_eq:
  assumes "runs_inv db" and "get_run i db = Some run"
  shows "workflow_status db i = Inr (state_payload run (get_decision i db) (reconciliation_status_for_run db i),
     if wr_processing_status run = ''awaiting_review'' then Some (wr_interrupt_payload run) else None)"
  using assms by (simp add: workflow_status_def get_workflow_run_def get_review_decision_def runs_inv_def
      scalar_one_or_none_unique get_run_def get_decision_def)

lemma resume_request_body: "d \<in> {''approved'', ''rejected''} \<Longrightarrow> ResumeRequest [(''decision'', JStr d)] = Some d"
  by (auto simp: ResumeRequest_def)

text \<open>C36: a review decision that was accepted reads back. The status route answers the same state as the request that
  recorded it; the same request again, on any engine and checkpoint, answers that state marked as idempotent and changes
  nothing; the other decision is a 409 and changes nothing; the run is ready for posting exactly when it was approved.\<close>

theorem resume_reads_back:
  assumes eng: "graph_engine env (eg :: 'c engine) pos" and ok: "positions_ok pos cp db" and inv: "service_inv db"
    and req: "resume_workflow eg i [(''decision'', JStr d)] cp db = (Inr (v, same), cp', db')"
  shows "service_inv db' \<and> workflow_status db' i = Inr (v, None)
    \<and> sv_review_disposition v = d \<and> sv_posting_status v = (if d = ''approved'' then ''ready_for_posting'' else ''blocked'')
    \<and> (\<forall>(eg' :: 'c engine) cp''. resume_workflow eg' i [(''decision'', JStr d)] cp'' db' = (Inr (v, True), cp'', db'))
    \<and> (\<forall>(eg' :: 'c engine) cp'' d'. d' \<in> {''approved'', ''rejected''} \<and> d' \<noteq> d \<longrightarrow>
         (\<exists>detail. resume_workflow eg' i [(''decision'', JStr d')] cp'' db' = (Inl (HTTPException 409 detail), cp'', db')))"
proof -
  from req have body: "ResumeRequest [(''decision'', JStr d)] = Some d"
    by (auto simp: resume_workflow_def ResumeRequest_def split: if_splits)
  then have d: "d \<in> {''approved'', ''rejected''}" by (auto simp: ResumeRequest_def split: if_splits)
  obtain r where dec: "decide_review eg i d cp db = (r, cp', db')"
    and r: "\<exists>run dec. r = Inr (Some run, Some dec, same) \<and> v = state_payload run (Some dec) (reconciliation_status_for_run db' i)"
    using req body by (auto simp: resume_workflow_def split: prod.splits sum.splits review_error.splits option.splits)
  obtain run dcs where run: "r = Inr (Some run, Some dcs, same)" "v = state_payload run (Some dcs) (reconciliation_status_for_run db' i)"
    using r by blast
  have stored: "service_inv db' \<and> get_run i db' = Some run \<and> get_decision i db' = Some dcs \<and> rd_disposition dcs = d"
    using eng ok inv dec
  proof (cases rule: decide_review_cases)
    case (first run0 run' dec')
    then have "run' = run" "dec' = dcs" using run(1) by simp_all
    with first show ?thesis by (simp add: get_decision_def get_row_append)
  qed (use run(1) inv in simp_all)
  then have stored: "service_inv db'" "get_run i db' = Some run" "get_decision i db' = Some dcs" "rd_disposition dcs = d" by simp_all
  note runs = service_invD(3) [OF stored(1)]
  obtain run2 where "get_run i db' = Some run2" "decided_ok dcs run2" using runs stored(3) by (rule runs_inv_decision)
  then have dok: "decided_ok dcs run" using stored(2) by simp
  have again: "resume_workflow eg' i [(''decision'', JStr d)] cp'' db' = (Inr (v, True), cp'', db')" for eg' :: "'c engine" and cp''
    by (simp add: resume_workflow_def body again_same [OF runs stored(3,2)] stored(4) run(2))
  have other: "\<exists>detail. resume_workflow eg' i [(''decision'', JStr d')] cp'' db' = (Inl (HTTPException 409 detail), cp'', db')"
    if "d' \<in> {''approved'', ''rejected''} \<and> d' \<noteq> d" for eg' :: "'c engine" and cp'' d'
    using that resume_request_body [of d'] not_sym [of d' d]
    by (simp add: resume_workflow_def again_same [OF runs stored(3,2)] stored(4) decision_conflict_def)
  have "workflow_status db' i = Inr (v, None)"
    using workflow_status_eq [OF runs stored(2)] dok by (simp add: stored(3) run(2) decided_ok_def)
  moreover have "sv_review_disposition v = d" "sv_posting_status v = (if d = ''approved'' then ''ready_for_posting'' else ''blocked'')"
    using dok stored(4) by (simp_all add: run(2) state_payload_def Let_def review_disposition_def decided_ok_def)
  ultimately show ?thesis using stored(1) again other by (intro conjI allI impI)
qed

theorem resume_reads_back_witness:
  "\<exists>cp db v cp' db'. resume_workflow (model_engine sample_env 0) ''run-1'' [(''decision'', JStr ''approved'')] cp db = (Inr (v, False), cp', db')
     \<and> workflow_status db' ''run-1'' = Inr (v, None) \<and> sv_posting_status v = ''ready_for_posting''"
proof (rule sample_review)
  fix cp db p
  assume s: "positions_ok model_pos cp db" "service_inv db" "get_run ''run-1'' db = Some sample_awaiting"
    "get_decision ''run-1'' db = None" "model_pos ''run-1'' cp = Some p" "tp_next p = Some Exception"
  have "processing_status sample_awaiting = ''awaiting_review''" by code_simp
  from decide_review_accepts [OF model_exact_engine, OF s(1,2,3) this s(4,5,6) disjI1 [OF refl], of sample_env 0]
  obtain run dec cp' db' where "decide_review (model_engine sample_env 0) ''run-1'' ''approved'' cp db
       = (Inr (Some run, Some dec, False), cp', db')" by (elim exE conjE)
  then obtain v where req: "resume_workflow (model_engine sample_env 0) ''run-1'' [(''decision'', JStr ''approved'')] cp db
      = (Inr (v, False), cp', db')" using resume_request_body [of "''approved''"] by (simp add: resume_workflow_def)
  from resume_reads_back [OF model_graph_engine s(1,2) req]
  have "workflow_status db' ''run-1'' = Inr (v, None) \<and> sv_posting_status v = ''ready_for_posting''" by simp
  with req show ?thesis by blast
qed

end
