(* ===== verification/Rate_Confirmation_Api.thy ===== *)
theory Rate_Confirmation_Api
  imports Workflow_Api
begin

text \<open>
  The routes on rate confirmations (\<open>app/api/routes/rate_confirmations.py\<close>). A request is one
  transaction: the row, its companion document, the assembly of the shipment and its
  reconciliation are committed together or not at all. Pydantic's reading of a date is the
  parameter \<open>pd_date\<close>. The lemmas show that the table invariant is kept, that an accepted
  confirmation is attached to the shipment of its load number and evaluated, and that a
  refused one leaves nothing.
\<close>

record rate_confirmation_body =
  rb_load_number :: string
  rb_carrier_name :: string
  rb_origin :: string
  rb_destination :: string
  rb_agreed_rate :: pyfloat
  rb_currency :: string
  rb_shipment_date :: date

definition text_field :: "jdict \<Rightarrow> string \<Rightarrow> string option" where
  "text_field body k = (case map_of body k of Some (JStr s) \<Rightarrow> Some s | _ \<Rightarrow> None)"

text \<open>\<open>RateConfirmationCreate\<close>; \<open>None\<close> is a validation error.\<close>

definition RateConfirmationCreate :: "pydantic \<Rightarrow> (json \<Rightarrow> date option) \<Rightarrow> jdict \<Rightarrow> rate_confirmation_body option" where
  "RateConfirmationCreate pd pd_date body =
     Option.bind (text_field body ''load_number'') (\<lambda>load_number.
     Option.bind (text_field body ''carrier_name'') (\<lambda>carrier_name.
     Option.bind (text_field body ''origin'') (\<lambda>origin.
     Option.bind (text_field body ''destination'') (\<lambda>destination.
     Option.bind (Option.bind (map_of body ''agreed_rate'') (pd_float pd)) (\<lambda>agreed_rate.
     Option.bind (if map_of body ''currency'' = None then Some ''USD'' else text_field body ''currency'') (\<lambda>currency.
     Option.bind (Option.bind (map_of body ''shipment_date'') pd_date) (\<lambda>shipment_date.
       if \<not> fle (Fin 0) agreed_rate then None
       else (case normalize_load_number (Some load_number) of
           Inr (Some n) \<Rightarrow> Some \<lparr>rb_load_number = n, rb_carrier_name = carrier_name, rb_origin = origin,
             rb_destination = destination, rb_agreed_rate = agreed_rate, rb_currency = currency,
             rb_shipment_date = shipment_date\<rparr>
         | _ \<Rightarrow> None))))))))"

definition rate_confirmation_row :: "uuid \<Rightarrow> datetime \<Rightarrow> rate_confirmation_body \<Rightarrow> rate_confirmation" where
  "rate_confirmation_row i now b = \<lparr>rc_id = i, rc_load_number = rb_load_number b, rc_carrier_name = rb_carrier_name b,
     rc_origin = rb_origin b, rc_destination = rb_destination b, rc_agreed_rate = rb_agreed_rate b,
     rc_currency = rb_currency b, rc_shipment_date = rb_shipment_date b, rc_created_at = now\<rparr>"

text \<open>The first flush: the unique index and the check constraint of the column.\<close>

definition insert_rate_confirmation :: "rate_confirmation_body \<Rightarrow> database \<Rightarrow> (rate_confirmation \<times> database) result" where
  "insert_rate_confirmation b db =
     (let (i, db) = fresh_uuid db; rc = rate_confirmation_row i (pg_now db) b in
      if rc_load_number rc \<in> rc_load_number ` set (rate_confirmations db) \<or> \<not> load_number_check (rc_load_number rc)
      then Inl IntegrityError
      else Inr (rc, db\<lparr>rate_confirmations := rate_confirmations db @ [rc]\<rparr>))"

text \<open>The statements inside the \<open>try\<close>; JSONB refuses an infinite rate.\<close>

definition assemble_rate_confirmation ::
  "datetime \<Rightarrow> timedelta \<Rightarrow> rate_confirmation_body \<Rightarrow> database \<Rightarrow> (rate_confirmation \<times> database) result" where
  "assemble_rate_confirmation now sla b db =
     (case insert_rate_confirmation b db of
        Inl e \<Rightarrow> Inl e
      | Inr (rc, db) \<Rightarrow>
          (let extraction = rate_confirmation_extraction rc in
           if \<not> pg_json_ok (JObj extraction) then Inl DataError
           else
             (let (document, db) = new_document (''manual-rate-confirmation-'' @ rc_load_number rc @ ''.json'')
                    ''rate_confirmation'' ''extracted'' (Some extraction) db in
              case upsert_shipment (Some (rc_load_number rc)) document extraction db of
                Inl e \<Rightarrow> Inl e
              | Inr (None, _) \<Rightarrow> Inl AssertionError
              | Inr (Some shipment, db) \<Rightarrow>
                  (case reconcile_shipment shipment None now sla (Some ''manual_rate_confirmation'')
                          (Some (''manual-rate-confirmation:'' @ rc_id rc)) db of
                     Inl e \<Rightarrow> Inl e
                   | Inr (_, _, db) \<Rightarrow> Inr (rc, db)))))"

definition create_rate_confirmation ::
  "pydantic \<Rightarrow> (json \<Rightarrow> date option) \<Rightarrow> settings \<Rightarrow> datetime \<Rightarrow> jdict \<Rightarrow> database \<Rightarrow> rate_confirmation response \<times> database" where
  "create_rate_confirmation pd pd_date cfg now body db =
     (case RateConfirmationCreate pd pd_date body of
        None \<Rightarrow> (Inl (HTTPException 422 (JStr ''body'')), db)
      | Some b \<Rightarrow>
          (case assemble_rate_confirmation now (sla_duration cfg) b db of
             Inl IntegrityError \<Rightarrow> (Inl (HTTPException 409 (JStr ''Rate confirmation already exists for load_number'')), db)
           | Inl e \<Rightarrow> (Inl (InternalError e), db)
           | Inr (rc, db) \<Rightarrow> (Inr rc, db)))"

definition list_rate_confirmations :: "database \<Rightarrow> rate_confirmation list" where
  "list_rate_confirmations db = sort_key (\<lambda>rc. - rc_created_at rc) (rate_confirmations db)"

section \<open>Laws\<close>

lemma RateConfirmationCreate_ok:
  assumes "RateConfirmationCreate pd pd_date body = Some b"
  shows "normalize_load_number (Some (rb_load_number b)) = Inr (Some (rb_load_number b))" "fle (Fin 0) (rb_agreed_rate b)"
  using assms normalize_load_number_idem
  by (auto simp: RateConfirmationCreate_def bind_eq_Some_conv split: if_splits sum.splits option.splits)

lemma insert_rate_confirmation_inv:
  assumes inv: "db_inv db" and ins: "insert_rate_confirmation b db = Inr (rc, db')"
  shows "db_inv db'" "rate_confirmations db' = rate_confirmations db @ [rc]" "load_number_check (rc_load_number rc)"
    "rc_load_number rc = rb_load_number b" "rc_load_number rc \<notin> rc_load_number ` set (rate_confirmations db)"
proof -
  from ins show rows: "rate_confirmations db' = rate_confirmations db @ [rc]" "load_number_check (rc_load_number rc)"
    "rc_load_number rc = rb_load_number b" "rc_load_number rc \<notin> rc_load_number ` set (rate_confirmations db)"
    by (auto simp: insert_rate_confirmation_def fresh_uuid_def Let_def rate_confirmation_row_def split: if_splits)
  have frame: "shipments db' = shipments db" "shipment_exceptions db' = shipment_exceptions db"
    "exception_events db' = exception_events db" "reconciliation_results db' = reconciliation_results db"
    "workflow_runs db' = workflow_runs db" "uuid4_at db' = uuid4_at db" "uuid_pos db \<le> uuid_pos db'"
    using ins by (auto simp: insert_rate_confirmation_def fresh_uuid_def Let_def split: if_splits)
  have "shipments_inv db'" by (rule shipments_inv_pool [OF db_invD(1) [OF inv]]) (simp_all add: frame)
  moreover have "exceptions_inv db'" by (rule exceptions_inv_pool [OF db_invD(2) [OF inv]]) (simp_all add: frame)
  moreover have "results_inv db'" by (rule results_inv_pool [OF db_invD(3) [OF inv]]) (simp_all add: frame)
  ultimately show "db_inv db'" using db_invD(4) [OF inv] rows by (simp add: db_inv_def)
qed

lemma new_document_db_inv:
  assumes "db_inv db" and "new_document f t st x db = (d, db')"
  shows "db_inv db'" "rate_confirmations db' = rate_confirmations db" "doc_doc_type d = t"
proof -
  note same = same_but_documents_fields [OF new_document_frame [OF assms(2)]]
  have "shipments_inv db'" by (rule shipments_inv_pool [OF db_invD(1) [OF assms(1)]]) (simp_all add: same)
  moreover have "exceptions_inv db'" by (rule exceptions_inv_pool [OF db_invD(2) [OF assms(1)]]) (simp_all add: same)
  moreover have "results_inv db'" by (rule results_inv_pool [OF db_invD(3) [OF assms(1)]]) (simp_all add: same)
  ultimately show "db_inv db'" using db_invD(4) [OF assms(1)] by (simp add: db_inv_def same)
  show "rate_confirmations db' = rate_confirmations db" by (simp add: same)
  show "doc_doc_type d = t" using assms(2) by (auto simp: new_document_def Let_def)
qed

lemma reconcile_shipment_rates:
  assumes "db_inv db" and "evaluation_identity run_id ekey db"
    and "reconcile_shipment s run_id now sla src ekey db = Inr (r, t, db')"
  shows "rate_confirmations db' = rate_confirmations db"
proof (cases rule: reconcile_shipment_steps [OF assms(1,2), where s = s and now = now and sla = sla and src = src,
      case_names overflow stored])
  case overflow
  with assms(3) show ?thesis by simp
next
  case (stored ev found r' db1 t')
  have "rate_confirmations db1 = rate_confirmations db"
    using store_result_frame(1) [OF stored(3)] by (auto simp: same_but_results_def dest: arg_cong [where f = rate_confirmations])
  with stored(6) assms(3) show ?thesis by (auto simp: put_shipment_def)
qed

lemma assemble_rate_confirmation_effect:
  assumes inv: "db_inv db" and norm: "normalize_load_number (Some (rb_load_number b)) = Inr (Some (rb_load_number b))"
    and run: "assemble_rate_confirmation now sla b db = Inr (rc, db')"
  shows "db_inv db'" "rate_confirmations db' = rate_confirmations db @ [rc]" "rc_load_number rc = rb_load_number b"
    "rc_load_number rc \<notin> rc_load_number ` set (rate_confirmations db)"
    "\<exists>s. get_shipment (sh_id s) db' = Some s \<and> sh_load_number s = rc_load_number rc \<and> slot_filled ''rate_confirmation'' s
       \<and> sh_reconciliation_status s \<in> set RECONCILIATION_STATUSES \<and> settled s now sla db'"
proof -
  obtain db1 where ins: "insert_rate_confirmation b db = Inr (rc, db1)"
    using run by (auto simp: assemble_rate_confirmation_def Let_def split: sum.splits prod.splits if_splits option.splits)
  note i1 = insert_rate_confirmation_inv [OF inv ins]
  define extraction where "extraction = rate_confirmation_extraction rc"
  obtain d db2 where nd: "new_document (''manual-rate-confirmation-'' @ rc_load_number rc @ ''.json'')
      ''rate_confirmation'' ''extracted'' (Some extraction) db1 = (d, db2)" by fastforce
  note i2 = new_document_db_inv [OF i1(1) nd]
  obtain s db3 where up: "upsert_shipment (Some (rc_load_number rc)) d extraction db2 = Inr (Some s, db3)"
    using run ins nd by (auto simp: assemble_rate_confirmation_def extraction_def Let_def split: sum.splits prod.splits if_splits option.splits)
  obtain r t where rec: "reconcile_shipment s None now sla (Some ''manual_rate_confirmation'')
      (Some (''manual-rate-confirmation:'' @ rc_id rc)) db3 = Inr (r, t, db')"
    using run ins nd up by (auto simp: assemble_rate_confirmation_def extraction_def Let_def split: sum.splits prod.splits if_splits)
  note i3 = upsert_shipment_db_inv [OF up i2(1)]
  have ident: "evaluation_identity None (Some (''manual-rate-confirmation:'' @ rc_id rc)) db3" by (simp add: evaluation_identity_def)
  note eff = reconcile_shipment_effect [OF i3(1) ident i3(2), of now sla "Some ''manual_rate_confirmation''", unfolded rec sum.case prod.case]
  from eff show "db_inv db'" by (elim conjE)
  have "rate_confirmations db3 = rate_confirmations db2" using up db_invD(1) [OF i2(1)] by (rule upsert_shipment_frame(5))
  then show "rate_confirmations db' = rate_confirmations db @ [rc]"
    using reconcile_shipment_rates [OF i3(1) ident rec] i2(2) i1(2) by simp
  show "rc_load_number rc = rb_load_number b" "rc_load_number rc \<notin> rc_load_number ` set (rate_confirmations db)"
    using i1(4,5) .
  have slot: "slot_filled ''rate_confirmation'' s" "normalize_load_number (Some (rc_load_number rc)) = Inr (Some (sh_load_number s))"
    by (rule upsert_shipment_core [OF up db_invD(1) [OF i2(1)]]; simp add: i2(3))+
  obtain st u where t: "st \<in> set RECONCILIATION_STATUSES" "t = (with_rate_confirmation s db3)\<lparr>sh_reconciliation_status := st, sh_updated_at := u\<rparr>"
    and get: "get_shipment (sh_id s) db' = Some t" and set: "settled t now sla db'" using eff by blast
  have "slot_filled ''rate_confirmation'' t" using slot(1) by (simp add: t(2) slot_filled_def with_rate_confirmation_def)
  moreover have "sh_id t = sh_id s" "sh_load_number t = sh_load_number s" by (simp_all add: t(2))
  moreover have "sh_load_number s = rc_load_number rc" using slot(2) norm i1(4) by simp
  ultimately show "\<exists>s. get_shipment (sh_id s) db' = Some s \<and> sh_load_number s = rc_load_number rc \<and> slot_filled ''rate_confirmation'' s
       \<and> sh_reconciliation_status s \<in> set RECONCILIATION_STATUSES \<and> settled s now sla db'"
    using get set t by (intro exI [of _ t]) simp
qed

text \<open>C37: a rate confirmation is created whole or not at all. Whatever the request, the table invariant holds after it. A
  refused or failed one leaves the database as it was. An accepted one adds exactly its row, whose load number was not
  there before, attaches it to the shipment of that load number, and leaves that shipment reconciled, with an exception
  record that agrees with the missing-document policy. A second confirmation for a load number is a 409.\<close>

theorem create_rate_confirmation_atomic:
  assumes inv: "db_inv db" and req: "create_rate_confirmation pd pd_date cfg now body db = (res, db')"
  shows "db_inv db'
    \<and> (\<forall>e. res = Inl e \<longrightarrow> db' = db)
    \<and> (\<forall>rc. res = Inr rc \<longrightarrow> rate_confirmations db' = rate_confirmations db @ [rc]
         \<and> rc_load_number rc \<notin> rc_load_number ` set (rate_confirmations db)
         \<and> (\<exists>s. get_shipment (sh_id s) db' = Some s \<and> sh_load_number s = rc_load_number rc \<and> slot_filled ''rate_confirmation'' s
              \<and> sh_reconciliation_status s \<in> set RECONCILIATION_STATUSES \<and> settled s now (sla_duration cfg) db'))
    \<and> (\<forall>b. RateConfirmationCreate pd pd_date body = Some b \<and> rb_load_number b \<in> rc_load_number ` set (rate_confirmations db) \<longrightarrow>
         (\<exists>detail. res = Inl (HTTPException 409 detail)))"
proof (cases "RateConfirmationCreate pd pd_date body")
  case None
  with req have "res = Inl (HTTPException 422 (JStr ''body''))" "db' = db" by (simp_all add: create_rate_confirmation_def)
  with inv None show ?thesis by simp
next
  case (Some b)
  have dup: "assemble_rate_confirmation now (sla_duration cfg) b db = Inl IntegrityError"
    if "rb_load_number b \<in> rc_load_number ` set (rate_confirmations db)"
    using that by (simp add: assemble_rate_confirmation_def insert_rate_confirmation_def fresh_uuid_def rate_confirmation_row_def)
  show ?thesis
  proof (cases "assemble_rate_confirmation now (sla_duration cfg) b db")
    case (Inl e)
    with req Some have "\<exists>x. res = Inl x" "db' = db" "e = IntegrityError \<longrightarrow> (\<exists>detail. res = Inl (HTTPException 409 detail))"
      by (auto simp: create_rate_confirmation_def split: py_error.splits)
    with inv Some Inl dup show ?thesis by auto
  next
    case (Inr x)
    then obtain rc where x: "assemble_rate_confirmation now (sla_duration cfg) b db = Inr (rc, db')" and res: "res = Inr rc"
      using req Some by (cases x) (auto simp: create_rate_confirmation_def)
    note eff = assemble_rate_confirmation_effect [OF inv RateConfirmationCreate_ok(1) [OF Some] x]
    have "rb_load_number b \<notin> rc_load_number ` set (rate_confirmations db)" using eff(3,4) by simp
    with eff Some show ?thesis by (simp add: res)
  qed
qed

definition sample_rate_body :: jdict where
  "sample_rate_body = [(''load_number'', JStr '' l-7 ''), (''carrier_name'', JStr ''Acme''), (''origin'', JStr ''A''),
     (''destination'', JStr ''B''), (''agreed_rate'', JInt 100), (''shipment_date'', JStr ''2026-07-01'')]"

theorem create_rate_confirmation_atomic_witness:
  "\<exists>res db'. create_rate_confirmation number_pydantic (\<lambda>_. Some 0) default_settings 0 sample_rate_body (fresh_database 0) = (res, db')
     \<and> db_inv db'"
proof -
  have inv: "db_inv (fresh_database 0)" using fresh_worker_inv by (rule worker_invD(5))
  obtain res db' where req: "create_rate_confirmation number_pydantic (\<lambda>_. Some 0) default_settings 0 sample_rate_body (fresh_database 0)
      = (res, db')" by fastforce
  from create_rate_confirmation_atomic [OF inv req] have "db_inv db'" by (elim conjE)
  with req show ?thesis by blast
qed

end
