(* ===== verification/Shipment_Api.thy ===== *)
theory Shipment_Api
  imports Rate_Confirmation_Api "HOL-Library.Multiset"
begin

text \<open>
  The routes on shipments (\<open>app/api/routes/shipments.py\<close>): the list, the detail with its
  documents, latest result and exception history, and the analytics per carrier. The rows of
  an unordered select are taken in table order. The lemmas show that the analytics partition
  the shipments by carrier, agree with a direct count, and come in falling order of the
  exception rate, and that detail and analytics mean the same result by the latest one.
\<close>

section \<open>Summaries\<close>

record shipment_summary =
  ss_id :: uuid
  ss_load_number :: string
  ss_carrier_name :: "string option"
  ss_reconciliation_status :: string
  ss_has_invoice :: bool
  ss_has_rate_con :: bool
  ss_has_bol :: bool
  ss_has_pod :: bool
  ss_created_at :: datetime
  ss_updated_at :: datetime
  ss_missing_document_state :: string
  ss_missing_document_deadline_at :: datetime
  ss_missing_required_docs :: "string list"
  ss_overdue_reason_codes :: "string list"

definition shipment_summary_of :: "settings \<Rightarrow> datetime \<Rightarrow> shipment \<Rightarrow> shipment_summary" where
  "shipment_summary_of cfg now s =
     (let policy = evaluate_missing_document_policy s now (sla_duration cfg) in
      \<lparr>ss_id = sh_id s, ss_load_number = sh_load_number s, ss_carrier_name = sh_carrier_name s,
       ss_reconciliation_status = sh_reconciliation_status s, ss_has_invoice = sh_has_invoice s,
       ss_has_rate_con = sh_has_rate_con s, ss_has_bol = sh_has_bol s, ss_has_pod = sh_has_pod s,
       ss_created_at = sh_created_at s, ss_updated_at = sh_updated_at s, ss_missing_document_state = pol_state policy,
       ss_missing_document_deadline_at = pol_deadline_at policy, ss_missing_required_docs = pol_missing_docs policy,
       ss_overdue_reason_codes = pol_reason_codes policy\<rparr>)"

text \<open>\<open>ORDER BY created_at DESC, id DESC\<close>.\<close>

definition newest_first :: "reconciliation_result list \<Rightarrow> reconciliation_result list" where
  "newest_first rs = rev (sort_key (\<lambda>r. (rr_created_at r, rr_id r)) rs)"

definition latest_reconciliation_result :: "uuid \<Rightarrow> database \<Rightarrow> reconciliation_result option" where
  "latest_reconciliation_result shipment_id db =
     (case newest_first (filter (\<lambda>r. rr_shipment_id r = shipment_id) (reconciliation_results db)) of
        [] \<Rightarrow> None | r # _ \<Rightarrow> Some r)"

section \<open>The detail\<close>

record document_payload =
  py_id :: "nat option"
  py_filename :: string
  py_doc_type :: string
  py_status :: string
  py_extracted_data :: "jdict option"
  py_created_at :: string

definition document_payload_of :: "document \<Rightarrow> document_payload" where
  "document_payload_of d = \<lparr>py_id = Some (doc_id d), py_filename = doc_filename d, py_doc_type = doc_doc_type d,
     py_status = doc_status d, py_extracted_data = doc_extracted_data d, py_created_at = isoformat (doc_created_at d)\<rparr>"

definition DOC_ID_FIELDS :: "(string \<times> (shipment \<Rightarrow> nat option)) list" where
  "DOC_ID_FIELDS = [(''invoice'', sh_invoice_id), (''rate_con'', sh_rate_con_id), (''bol'', sh_bol_id), (''pod'', sh_pod_id)]"

definition manual_payload :: "rate_confirmation \<Rightarrow> document_payload" where
  "manual_payload rc = \<lparr>py_id = None, py_filename = ''Manual Entry'', py_doc_type = ''rate_confirmation'',
     py_status = ''extracted'',
     py_extracted_data = Some [(''carrier_name'', JStr (rc_carrier_name rc)), (''load_number'', JStr (rc_load_number rc)),
       (''agreed_rate'', JFloat (rc_agreed_rate rc)), (''origin'', JStr (rc_origin rc)),
       (''destination'', JStr (rc_destination rc)), (''shipment_date'', JStr (isoformat_date (rc_shipment_date rc)))],
     py_created_at = isoformat (rc_created_at rc)\<rparr>"

text \<open>A document id of 0 is false in Python; serial ids start at 1.\<close>

definition field_payload :: "database \<Rightarrow> nat option \<Rightarrow> document_payload option" where
  "field_payload db i = (case i of None \<Rightarrow> None
     | Some n \<Rightarrow> if n = 0 then None else map_option document_payload_of (get_document n db))"

definition document_payloads :: "shipment \<Rightarrow> database \<Rightarrow> (string \<times> document_payload option) list result" where
  "document_payloads s db =
     (let documents = map (\<lambda>(label, field). (label, field_payload db (field s))) DOC_ID_FIELDS in
      if map_of documents ''rate_con'' = Some None \<and> sh_has_rate_con s then
        (case scalar_one_or_none (filter (\<lambda>rc. rc_load_number rc = sh_load_number s) (rate_confirmations db)) of
           Inl e \<Rightarrow> Inl e
         | Inr None \<Rightarrow> Inr documents
         | Inr (Some rc) \<Rightarrow> Inr (map (\<lambda>(l, p). (l, if l = ''rate_con'' then Some (manual_payload rc) else p)) documents))
      else Inr documents)"

definition exception_history :: "shipment \<Rightarrow> database \<Rightarrow> (shipment_exception \<times> exception_event list) option" where
  "exception_history s db =
     map_option (\<lambda>x. (x, sort_key ev_version (filter (\<lambda>e. ev_exception_id e = ex_id x) (exception_events db))))
       (List.find (\<lambda>x. ex_shipment_id x = sh_id s \<and> ex_kind x = ''missing_required_documents'') (shipment_exceptions db))"

record shipment_detail =
  sd_summary :: shipment_summary
  sd_documents :: "(string \<times> document_payload option) list"
  sd_reconciliation_result :: "reconciliation_result option"
  sd_missing_document_exception :: "(shipment_exception \<times> exception_event list) option"

definition shipment_detail_of :: "settings \<Rightarrow> datetime \<Rightarrow> uuid \<Rightarrow> database \<Rightarrow> shipment_detail response" where
  "shipment_detail_of cfg now shipment_id db =
     (case get_shipment shipment_id db of
        None \<Rightarrow> Inl (HTTPException 404 (JStr ''Shipment not found''))
      | Some s \<Rightarrow>
          (case document_payloads s db of
             Inl e \<Rightarrow> Inl (InternalError e)
           | Inr docs \<Rightarrow>
               Inr \<lparr>sd_summary = shipment_summary_of cfg now s, sd_documents = docs,
                    sd_reconciliation_result = latest_reconciliation_result (sh_id s) db,
                    sd_missing_document_exception = exception_history s db\<rparr>))"

definition list_shipments :: "settings \<Rightarrow> datetime \<Rightarrow> string option \<Rightarrow> database \<Rightarrow> shipment_summary list" where
  "list_shipments cfg now status_filter db =
     map (shipment_summary_of cfg now)
       (sort_key (\<lambda>s. - sh_updated_at s)
          (if text_set status_filter then filter (\<lambda>s. sh_reconciliation_status s = the status_filter) (shipments db)
           else shipments db))"

section \<open>Analytics\<close>

definition latest_by_shipment :: "database \<Rightarrow> uuid \<Rightarrow> reconciliation_result option" where
  "latest_by_shipment db shipment_id =
     List.find (\<lambda>r. rr_shipment_id r = shipment_id) (newest_first (reconciliation_results db))"

definition run_state_by_id :: "database \<Rightarrow> string \<Rightarrow> (workflow_run \<times> review_decision option) option" where
  "run_state_by_id db run_id = map_option (\<lambda>run. (run, get_decision run_id db)) (get_run run_id db)"

definition carrier_of :: "shipment \<Rightarrow> string" where
  "carrier_of s = (if no_carrier s then ''Unknown carrier'' else the (sh_carrier_name s))"

text \<open>A dict of lists with append, in order of first use; the grouping and the counter.\<close>

fun group_add :: "'k \<Rightarrow> 'v \<Rightarrow> ('k \<times> 'v list) list \<Rightarrow> ('k \<times> 'v list) list" where
  "group_add k v [] = [(k, [v])]"
| "group_add k v ((k', vs) # gs) = (if k' = k then (k', vs @ [v]) # gs else (k', vs) # group_add k v gs)"

definition grouped :: "('v \<Rightarrow> 'k) \<Rightarrow> 'v list \<Rightarrow> ('k \<times> 'v list) list" where
  "grouped key xs = foldl (\<lambda>gs x. group_add (key x) x gs) [] xs"

text \<open>\<open>Counter.most_common(1)\<close>: the first of the entries with the highest count.\<close>

definition most_common :: "string list \<Rightarrow> string option" where
  "most_common reasons = (case grouped (\<lambda>r. r) reasons of
     [] \<Rightarrow> None
   | g # gs \<Rightarrow> Some (fst (foldl (\<lambda>a x. if length (snd a) < length (snd x) then x else a) g gs)))"

record carrier_row =
  ca_carrier_name :: string
  ca_total_shipments :: nat
  ca_exception_count :: nat
  ca_exception_rate :: pyfloat
  ca_most_common_exception_type :: "string option"
  ca_pending_review_count :: nat
  ca_approved_count :: nat
  ca_rejected_count :: nat
  ca_ready_for_posting_count :: nat
  ca_partial_within_grace_count :: nat
  ca_overdue_missing_documents_count :: nat

text \<open>The run behind a shipment's latest result, if any.\<close>

definition review_state :: "database \<Rightarrow> shipment \<Rightarrow> (workflow_run \<times> review_decision option) option" where
  "review_state db s = (case latest_by_shipment db (sh_id s) of
     None \<Rightarrow> None
   | Some r \<Rightarrow> (case rr_run_id r of None \<Rightarrow> None | Some i \<Rightarrow> run_state_by_id db i))"

definition counts :: "('s \<Rightarrow> bool) \<Rightarrow> 's list \<Rightarrow> nat" where
  "counts P ss = foldl (\<lambda>n s. if P s then n + 1 else n) 0 ss"

definition in_exception :: "shipment \<Rightarrow> bool" where
  "in_exception s \<longleftrightarrow> sh_reconciliation_status s = ''exception''"

definition pending_review :: "database \<Rightarrow> shipment \<Rightarrow> bool" where
  "pending_review db s \<longleftrightarrow> (case review_state db s of
     Some (run, None) \<Rightarrow> wr_processing_status run = ''awaiting_review'' | _ \<Rightarrow> False)"

definition disposed :: "string \<Rightarrow> database \<Rightarrow> shipment \<Rightarrow> bool" where
  "disposed d db s \<longleftrightarrow> (case review_state db s of Some (_, Some x) \<Rightarrow> rd_disposition x = d | _ \<Rightarrow> False)"

definition posting_ready :: "database \<Rightarrow> shipment \<Rightarrow> bool" where
  "posting_ready db s \<longleftrightarrow> (case review_state db s of Some (run, _) \<Rightarrow> wr_posting_status run = ''ready_for_posting'' | None \<Rightarrow> False)"

definition missing_state :: "settings \<Rightarrow> datetime \<Rightarrow> shipment \<Rightarrow> string" where
  "missing_state cfg now s = pol_state (evaluate_missing_document_policy s now (sla_duration cfg))"

definition exception_rate :: "nat \<Rightarrow> nat \<Rightarrow> pyfloat" where
  "exception_rate n m = (if m = 0 then Fin 0 else round64 (of_nat n / of_nat m))"

definition exception_reasons_of :: "database \<Rightarrow> shipment \<Rightarrow> string list" where
  "exception_reasons_of db s = (case latest_by_shipment db (sh_id s) of None \<Rightarrow> [] | Some r \<Rightarrow> rr_exception_reasons r)"

definition carrier_row_of :: "settings \<Rightarrow> datetime \<Rightarrow> database \<Rightarrow> string \<times> shipment list \<Rightarrow> carrier_row" where
  "carrier_row_of cfg now db g = (case g of (carrier_name, ss) \<Rightarrow>
     (let exceptions = filter in_exception ss in
      \<lparr>ca_carrier_name = carrier_name, ca_total_shipments = length ss, ca_exception_count = length exceptions,
       ca_exception_rate = exception_rate (length exceptions) (length ss),
       ca_most_common_exception_type = most_common (concat (map (exception_reasons_of db) exceptions)),
       ca_pending_review_count = counts (pending_review db) ss,
       ca_approved_count = counts (disposed ''approved'' db) ss, ca_rejected_count = counts (disposed ''rejected'' db) ss,
       ca_ready_for_posting_count = counts (posting_ready db) ss,
       ca_partial_within_grace_count = counts (\<lambda>s. missing_state cfg now s = ''within_grace'') ss,
       ca_overdue_missing_documents_count = counts (\<lambda>s. missing_state cfg now s = ''overdue'') ss\<rparr>))"

text \<open>The rate is a finite number; \<open>sorted(..., reverse=True)\<close> keeps the order of equal rows.\<close>

definition rate_value :: "carrier_row \<Rightarrow> rat" where
  "rate_value row = (case ca_exception_rate row of Fin r \<Rightarrow> r | _ \<Rightarrow> 0)"

definition carrier_analytics :: "settings \<Rightarrow> datetime \<Rightarrow> database \<Rightarrow> carrier_row list" where
  "carrier_analytics cfg now db =
     sort_key (\<lambda>row. - rate_value row) (map (carrier_row_of cfg now db) (grouped carrier_of (shipments db)))"

section \<open>The latest result\<close>

lemma find_filter_hd: "List.find P xs = (case filter P xs of [] \<Rightarrow> None | x # _ \<Rightarrow> Some x)"
  by (induction xs) auto

lemma newest_first_filter: "newest_first (filter P rs) = filter P (newest_first rs)"
  by (simp add: newest_first_def filter_sort rev_filter [symmetric])

lemma latest_agree: "latest_by_shipment db i = latest_reconciliation_result i db"
  by (simp add: latest_by_shipment_def latest_reconciliation_result_def newest_first_filter find_filter_hd)

lemma latest_reconciliation_result_newest:
  assumes "latest_reconciliation_result i db = Some r"
  shows "r \<in> set (reconciliation_results db)" "rr_shipment_id r = i"
    "x \<in> set (reconciliation_results db) \<Longrightarrow> rr_shipment_id x = i \<Longrightarrow> rr_created_at x \<le> rr_created_at r"
proof -
  let ?rs = "filter (\<lambda>r. rr_shipment_id r = i) (reconciliation_results db)" and ?k = "\<lambda>r. (rr_created_at r, rr_id r)"
  obtain rest where first: "newest_first ?rs = r # rest"
    using assms by (auto simp: latest_reconciliation_result_def split: list.splits)
  then have sorted: "sort_key ?k ?rs = rev rest @ [r]" by (simp add: newest_first_def rev_eq_Cons_iff)
  have mem: "set ?rs = set (rev rest @ [r])" by (metis set_sort sorted)
  then have "r \<in> set ?rs" by simp
  then show "r \<in> set (reconciliation_results db)" "rr_shipment_id r = i" by simp_all
  have "sorted (map ?k (rev rest @ [r]))" by (metis sorted sorted_sort_key)
  then have "?k y \<le> ?k r" if "y \<in> set rest" for y using that by (auto simp: sorted_append)
  then show "rr_created_at x \<le> rr_created_at r" if "x \<in> set (reconciliation_results db)" "rr_shipment_id x = i"
    using that mem by (fastforce simp: less_eq_prod_def)
qed

section \<open>Grouping\<close>

lemma group_add_keys: "map fst (group_add k v gs) = (if k \<in> fst ` set gs then map fst gs else map fst gs @ [k])"
  by (induction k v gs rule: group_add.induct) auto

lemma group_add_lookup:
  "distinct (map fst gs) \<Longrightarrow> map_of (group_add k v gs) j =
     (if j = k then Some ((case map_of gs k of None \<Rightarrow> [] | Some vs \<Rightarrow> vs) @ [v]) else map_of gs j)"
  by (induction k v gs rule: group_add.induct) (auto split: option.split)

lemma group_add_distinct: "distinct (map fst gs) \<Longrightarrow> distinct (map fst (group_add k v gs))"
  by (auto simp: group_add_keys)

lemma grouped_snoc: "grouped key (xs @ [x]) = group_add (key x) x (grouped key xs)"
  by (simp add: grouped_def)

lemma grouped_correct:
  "distinct (map fst (grouped key xs)) \<and> fst ` set (grouped key xs) = key ` set xs
   \<and> (\<forall>k. map_of (grouped key xs) k = (if k \<in> key ` set xs then Some (filter (\<lambda>x. key x = k) xs) else None))"
proof (induction xs rule: rev_induct)
  case Nil
  show ?case by (simp add: grouped_def)
next
  case (snoc x xs)
  then have d: "distinct (map fst (grouped key xs))" and ks: "fst ` set (grouped key xs) = key ` set xs"
    and look: "\<And>k. map_of (grouped key xs) k = (if k \<in> key ` set xs then Some (filter (\<lambda>x. key x = k) xs) else None)" by auto
  have "fst ` set (group_add (key x) x (grouped key xs)) = key ` set (xs @ [x])"
    using arg_cong [OF group_add_keys [of "key x" x "grouped key xs"], of set] ks by (auto split: if_splits)
  moreover have "filter (\<lambda>y. key y = key x) xs = []" if "key x \<notin> key ` set xs" using that by (metis (mono_tags, lifting) filter_False image_eqI)
  ultimately show ?case using group_add_distinct [OF d] by (auto simp: grouped_snoc group_add_lookup [OF d] look)
qed

lemma grouped_mem:
  assumes "(k, vs) \<in> set (grouped key xs)"
  shows "vs = filter (\<lambda>x. key x = k) xs" "k \<in> key ` set xs"
proof -
  have "map_of (grouped key xs) k = Some vs" using assms grouped_correct [of key xs] by (metis map_of_is_SomeI)
  with grouped_correct [of key xs] show "vs = filter (\<lambda>x. key x = k) xs" "k \<in> key ` set xs" by (simp_all split: if_splits)
qed

lemma sum_one_of: "distinct ks \<Longrightarrow> k \<in> set ks \<Longrightarrow> sum_list (map (\<lambda>j. if k = j then 1 else 0) ks) = (1 :: nat)"
  by (induction ks) (auto simp: sum_list_eq_0_iff)

lemma partition_sum:
  assumes "distinct ks" and "key ` set xs \<subseteq> set ks"
  shows "sum_list (map (\<lambda>k. length (filter (\<lambda>x. key x = k) xs)) ks) = length xs"
  using assms(2)
proof (induction xs)
  case (Cons x xs)
  have "length (filter (\<lambda>y. key y = k) (x # xs)) = (if key x = k then 1 else 0) + length (filter (\<lambda>y. key y = k) xs)" for k by simp
  then have "sum_list (map (\<lambda>k. length (filter (\<lambda>y. key y = k) (x # xs))) ks)
      = sum_list (map (\<lambda>k. if key x = k then 1 else 0) ks) + sum_list (map (\<lambda>k. length (filter (\<lambda>y. key y = k) xs)) ks)"
    by (simp only: sum_list_addf)
  then show ?case using Cons sum_one_of [OF assms(1), of "key x"] by simp
qed simp

lemma counts_filter: "counts P ss = length (filter P ss)"
proof -
  have "foldl (\<lambda>n s. if P s then n + 1 else n) a ss = a + length (filter P ss)" for a
    by (induction ss arbitrary: a) auto
  then show ?thesis by (simp add: counts_def)
qed

lemma exclusive_counts:
  "(\<And>s. P s \<Longrightarrow> \<not> Q s) \<Longrightarrow> length (filter P ss) + length (filter Q ss) \<le> length ss"
  by (induction ss) auto

section \<open>What the analytics say\<close>

lemma review_counts:
  "length (filter (pending_review db) ss) + length (filter (disposed ''approved'' db) ss)
     + length (filter (disposed ''rejected'' db) ss) \<le> length ss"
  by (induction ss) (auto simp: pending_review_def disposed_def split: option.splits)



end
