(* ===== verification/Operations_Api.thy ===== *)
theory Operations_Api
  imports Shipment_Api Queue_Operations Notifier Gmail_Poller
begin

text \<open>
  The operator's routes: the queue (\<open>app/api/routes/queue_operations.py\<close>), the notification
  feed (\<open>app/api/routes/notifications.py\<close>), Gmail (\<open>app/api/routes/gmail.py\<close>) and the health
  routes of \<open>app/main.py\<close>. Pydantic's reading of a UUID header is the parameter \<open>pd_uuid\<close>. The
  lemmas show which requests cannot change the queue and in which order the feed comes.
\<close>

section \<open>The queue\<close>

definition coded_detail :: "string \<Rightarrow> string \<Rightarrow> json" where
  "coded_detail code message = JObj [(''code'', JStr code), (''message'', JStr message)]"

definition service_unavailable :: "string \<Rightarrow> http_error" where
  "service_unavailable message = HTTPException 503 (coded_detail ''redis_unavailable'' message)"

definition list_dead_letters :: "pydantic \<Rightarrow> settings \<Rightarrow> int option \<Rightarrow> string option \<Rightarrow> redis \<Rightarrow> dlq_page response \<times> redis" where
  "list_dead_letters pd cfg limit cursor r =
     (let limit = (case limit of None \<Rightarrow> 25 | Some n \<Rightarrow> n) in
      if limit < 1 \<or> 100 < limit then (Inl (HTTPException 422 (JStr ''limit'')), r)
      else (case list_dlq_entries pd (INVOICE_DEAD_LETTER_STREAM cfg) (INVOICE_DLQ_REPLAY_PREFIX cfg) (nat limit) cursor r of
          (Inl (ValueError m), r) \<Rightarrow> (Inl (HTTPException 422 (JStr m)), r)
        | (Inl (ResponseError m), r) \<Rightarrow> (Inl (service_unavailable m), r)
        | (Inl e, r) \<Rightarrow> (Inl (InternalError e), r)
        | (Inr page, r) \<Rightarrow> (Inr page, r)))"

definition replay_error :: "queue_error \<Rightarrow> http_error" where
  "replay_error e = (case e of
     DLQNotFound \<Rightarrow> HTTPException 404 (coded_detail ''dlq_not_found'' ''DLQ entry not found'')
   | DLQNotReplayable m \<Rightarrow> HTTPException 409 (coded_detail ''not_replayable'' m)
   | ReplayInProgress \<Rightarrow> HTTPException 409 (coded_detail ''replay_in_progress'' ''another replay action is still in progress'')
   | QueueOperationError m \<Rightarrow> HTTPException 409 (coded_detail ''queue_operation_error'' m)
   | QueueRaised (ValueError m) \<Rightarrow> HTTPException 422 (coded_detail ''invalid_dlq_id'' m)
   | QueueRaised (ResponseError m) \<Rightarrow> service_unavailable m
   | QueueRaised x \<Rightarrow> InternalError x)"

text \<open>The answer with its status code, 201 for a new replay and 200 for a known one.\<close>

definition replay_dead_letter ::
  "pydantic \<Rightarrow> (string \<Rightarrow> string option) \<Rightarrow> settings \<Rightarrow> datetime \<Rightarrow> string \<Rightarrow> string option \<Rightarrow> redis
   \<Rightarrow> (nat \<times> replay_response) response \<times> redis" where
  "replay_dead_letter pd pd_uuid cfg now dlq_id header r =
     (case Option.bind header pd_uuid of
        None \<Rightarrow> (Inl (HTTPException 422 (JStr ''Idempotency-Key'')), r)
      | Some idempotency_key \<Rightarrow>
          (case replay_dlq_entry pd (INVOICE_DEAD_LETTER_STREAM cfg) (INVOICE_STREAM cfg) (INVOICE_DLQ_REPLAY_PREFIX cfg)
                  dlq_id idempotency_key now r of
             (Inl e, r) \<Rightarrow> (Inl (replay_error e), r)
           | (Inr result, r) \<Rightarrow> (Inr (if rp_created result then 201 else 200, result), r)))"

definition read_queue_metrics :: "settings \<Rightarrow> datetime \<Rightarrow> redis \<Rightarrow> queue_metrics response \<times> redis" where
  "read_queue_metrics cfg now r =
     (case queue_metrics_of (INVOICE_STREAM cfg) (INVOICE_CONSUMER_GROUP cfg) (INVOICE_DEAD_LETTER_STREAM cfg) now r of
        (Inl (ResponseError m), r) \<Rightarrow> (Inl (service_unavailable m), r)
      | (Inl e, r) \<Rightarrow> (Inl (InternalError e), r)
      | (Inr m, r) \<Rightarrow> (Inr m, r))"

record purge_response =
  pu_before :: datetime
  pu_purged_count :: nat
  pu_has_more :: bool

definition purge_error :: "queue_error \<Rightarrow> http_error" where
  "purge_error e = (case e of
     QueueRaised (ResponseError m) \<Rightarrow> service_unavailable m
   | QueueRaised x \<Rightarrow> InternalError x
   | DLQNotFound \<Rightarrow> HTTPException 409 (coded_detail ''dlq_not_found'' ''DLQ entry not found'')
   | _ \<Rightarrow> replay_error e)"

definition purge_dead_letters ::
  "pydantic \<Rightarrow> settings \<Rightarrow> datetime \<Rightarrow> jdict \<Rightarrow> redis \<Rightarrow> (purge_response response \<times> redis) option" where
  "purge_dead_letters pd cfg now body r =
     (case Option.bind (map_of body ''before'') (pd_datetime pd) of
        None \<Rightarrow> Some (Inl (HTTPException 422 (JStr ''before'')), r)
      | Some (before, aware) \<Rightarrow>
          (if \<not> aware then Some (Inl (HTTPException 422 (JStr ''before must include a timezone'')), r)
           else if now \<le> before then Some (Inl (HTTPException 422 (JStr ''before must be in the past'')), r)
           else (case purge_dlq_entries (INVOICE_DEAD_LETTER_STREAM cfg) (INVOICE_DLQ_REPLAY_PREFIX cfg)
                        (INVOICE_METADATA_PREFIX cfg) before (nat (INVOICE_DLQ_RETENTION_MAX_DELETE cfg)) 100 r of
               None \<Rightarrow> None
             | Some (Inl e, r) \<Rightarrow> Some (Inl (purge_error e), r)
             | Some (Inr (purged_count, has_more), r) \<Rightarrow>
                 Some (Inr \<lparr>pu_before = before, pu_purged_count = purged_count, pu_has_more = has_more\<rparr>, r))))"

section \<open>The notification feed\<close>

datatype feed_record = BatchSummary notification | ExceptionEvent exception_event shipment

definition feed_time :: "feed_record \<Rightarrow> datetime" where
  "feed_time x = (case x of BatchSummary n \<Rightarrow> nt_sent_at n | ExceptionEvent e _ \<Rightarrow> ev_occurred_at e)"

definition notifications_feed :: "database \<Rightarrow> feed_record list" where
  "notifications_feed db =
     (let records = map BatchSummary (take 10 (sort_key (\<lambda>n. - nt_sent_at n) (notifications db)));
          sla_rows = take 10 (List.map_filter (\<lambda>e. map_option (ExceptionEvent e) (event_shipment db e))
                       (sort_key (\<lambda>e. - ev_occurred_at e) (exception_events db))) in
      take 10 (sort_key (\<lambda>x. - feed_time x) (records @ sla_rows)))"

section \<open>Gmail and health\<close>

text \<open>The size of the token file, if it exists.\<close>

definition gmail_auth :: "nat option \<Rightarrow> (string \<times> string) list" where
  "gmail_auth token_size = (case token_size of
     Some n \<Rightarrow> if 0 < n then [(''status'', ''authenticated'')]
       else [(''status'', ''not_authenticated''), (''message'', ''Run the OAuth flow locally to generate token.json'')]
   | None \<Rightarrow> [(''status'', ''not_authenticated''), (''message'', ''Run the OAuth flow locally to generate token.json'')])"

definition gmail_poll ::
  "(py_error \<Rightarrow> string) \<Rightarrow> gmail \<Rightarrow> pydantic \<Rightarrow> settings \<Rightarrow> (string \<Rightarrow> datetime) \<Rightarrow> datetime \<Rightarrow> datetime
   \<Rightarrow> runtime_health option \<Rightarrow> redis \<Rightarrow> nat response \<times> runtime_health option \<times> string list \<times> redis" where
  "gmail_poll lib g pd cfg clock t0 t1 h r =
     (case poll_inbox lib g pd cfg clock t0 t1 h r of
        (Inl e, h, marked, r) \<Rightarrow> (Inl (InternalError e), h, marked, r)
      | (Inr n, h, marked, r) \<Rightarrow> (Inr n, h, marked, r))"

text \<open>\<open>GET /health\<close>: the scanner's record, or a fresh one before the process started it.\<close>

definition health_check :: "scanner_health option \<Rightarrow> string \<times> string \<times> scanner_health" where
  "health_check state = (let h = (case state of None \<Rightarrow> ScannerHealth | Some h \<Rightarrow> h) in (''ok'', scanner_payload_status h, h))"

definition health_live :: "datetime \<Rightarrow> runtime_health option \<Rightarrow> datetime \<Rightarrow> liveness_response" where
  "health_live started_at state now = liveness (case state of None \<Rightarrow> RuntimeHealth started_at | Some h \<Rightarrow> h) now"

section \<open>Laws\<close>

lemma notifications_feed_order:
  "length (notifications_feed db) \<le> 10" "sorted_wrt (\<lambda>x y. feed_time y \<le> feed_time x) (notifications_feed db)"
proof -
  show "length (notifications_feed db) \<le> 10" by (simp add: notifications_feed_def Let_def)
  have "sorted_wrt (\<lambda>x y. feed_time y \<le> feed_time x) (sort_key (\<lambda>x. - feed_time x) xs)" for xs
    using sorted_sort_key [of "\<lambda>x. - feed_time x" xs] by (simp add: sorted_map)
  then show "sorted_wrt (\<lambda>x y. feed_time y \<le> feed_time x) (notifications_feed db)"
    by (simp add: notifications_feed_def Let_def sorted_wrt_take)
qed

text \<open>A refused request changes no key: wrong limits, a missing key, a naive or future cutoff.\<close>

lemma refused_requests_change_nothing:
  "limit < 1 \<or> 100 < limit \<Longrightarrow> \<exists>e. list_dead_letters pd cfg (Some limit) cursor r = (Inl e, r)"
  "Option.bind header pd_uuid = None \<Longrightarrow> \<exists>e. replay_dead_letter pd pd_uuid cfg now dlq_id header r = (Inl e, r)"
  "map_of body ''before'' = Some v \<Longrightarrow> pd_datetime pd v = Some (before, aware) \<Longrightarrow> \<not> aware \<or> now \<le> before \<Longrightarrow>
     \<exists>e. purge_dead_letters pd cfg now body r = Some (Inl e, r)"
  by (auto simp: list_dead_letters_def replay_dead_letter_def purge_dead_letters_def Let_def)

end
