(* ===== verification/Migrations.thy ===== *)
theory Migrations
  imports Shipment_Api
begin

text \<open>
  The migrations that change data: \<open>202607190001\<close> (duplicates), \<open>202607190002\<close> (business-state semantics), \<open>202607190003\<close>
  (load-number identity) and \<open>202607190004\<close> (evaluation sources), under \<open>alembic/versions\<close>. Each
  runs in one transaction, so an error leaves everything as it was. The rows before the first
  one have the types \<open>legacy_run\<close> and \<open>legacy_result\<close>, with the checks as the JSON objects
  they were. The lemmas show that a migration that succeeds establishes the invariants the
  services rely on, and that it refuses exactly the data it cannot convert.
\<close>

section \<open>Load-number identity\<close>

text \<open>\<open>NORMALIZED_LOAD_NUMBER_SQL\<close>.\<close>

definition normalized_load_number_sql :: "string \<Rightarrow> string" where
  "normalized_load_number_sql s = py_upper (pg_trim s)"

definition reject_invalid_load_numbers :: "string \<Rightarrow> string list \<Rightarrow> unit result" where
  "reject_invalid_load_numbers table_name values =
     (let normalized = map normalized_load_number_sql values;
          empty_count = length (filter (\<lambda>n. n = []) normalized);
          collisions = py_join '', '' (sort (filter (\<lambda>n. 1 < length (filter (\<lambda>m. m = n) normalized)) (remdups normalized))) in
      if empty_count \<noteq> 0 then Inl (RuntimeError (''Cannot normalize '' @ table_name @ ''.load_number: ''
                                    @ show_int (int empty_count) @ '' empty value(s)''))
      else if collisions \<noteq> [] then Inl (RuntimeError (''Cannot normalize '' @ table_name @ ''.load_number; collisions: '' @ collisions))
      else Inr ())"

definition upgrade_load_numbers :: "database \<Rightarrow> database result" where
  "upgrade_load_numbers db =
     (case reject_invalid_load_numbers ''shipments'' (map sh_load_number (shipments db)) of
        Inl e \<Rightarrow> Inl e
      | Inr _ \<Rightarrow>
          (let db = db\<lparr>shipments := map (\<lambda>s. s\<lparr>sh_load_number := normalized_load_number_sql (sh_load_number s)\<rparr>) (shipments db)\<rparr> in
           case reject_invalid_load_numbers ''rate_confirmations'' (map rc_load_number (rate_confirmations db)) of
             Inl e \<Rightarrow> Inl e
           | Inr _ \<Rightarrow>
               (let db = db\<lparr>rate_confirmations :=
                      map (\<lambda>r. r\<lparr>rc_load_number := normalized_load_number_sql (rc_load_number r)\<rparr>) (rate_confirmations db)\<rparr> in
                if list_all (\<lambda>s. load_number_check (sh_load_number s)) (shipments db)
                   \<and> list_all (\<lambda>r. load_number_check (rc_load_number r)) (rate_confirmations db)
                then Inr db else Inl IntegrityError)))"

section \<open>Business-state semantics\<close>

record legacy_run =
  lr_id :: nat
  lr_run_id :: string
  lr_document_id :: nat
  lr_status :: string
  lr_interrupt_payload :: "jdict option"
  lr_created_at :: datetime
  lr_updated_at :: datetime

record legacy_result =
  lt_id :: uuid
  lt_shipment_id :: uuid
  lt_run_id :: "string option"
  lt_checks :: "jdict list"
  lt_missing_docs :: "string list"
  lt_exception_reasons :: "string list"
  lt_created_at :: datetime

record legacy_db =
  lg_runs :: "legacy_run list"
  lg_audit :: "workflow_audit_log list"
  lg_documents :: "document list"
  lg_shipments :: "shipment list"
  lg_results :: "legacy_result list"

record migrated =
  mg_runs :: "workflow_run list"
  mg_decisions :: "review_decision list"
  mg_results :: "legacy_result list"
  mg_shipments :: "shipment list"

definition audited :: "string \<Rightarrow> legacy_run \<Rightarrow> legacy_db \<Rightarrow> workflow_audit_log list" where
  "audited event_type r g = filter (\<lambda>a. al_run_id a = lr_run_id r \<and> al_event_type a = event_type) (lg_audit g)"

definition decided_status :: "string \<Rightarrow> bool" where
  "decided_status s \<longleftrightarrow> s = ''approved'' \<or> s = ''rejected''"

definition conflicting :: "legacy_db \<Rightarrow> legacy_run \<Rightarrow> bool" where
  "conflicting g r \<longleftrightarrow> \<not> decided_status (lr_status r) \<and> audited ''approved'' r g \<noteq> [] \<and> audited ''rejected'' r g \<noteq> []"

definition legacy_disposition :: "legacy_db \<Rightarrow> legacy_run \<Rightarrow> string option" where
  "legacy_disposition g r =
     (if decided_status (lr_status r) then Some (lr_status r)
      else if audited ''approved'' r g \<noteq> [] then Some ''approved''
      else if audited ''rejected'' r g \<noteq> [] then Some ''rejected'' else None)"

definition legacy_decided_at :: "legacy_db \<Rightarrow> legacy_run \<Rightarrow> datetime" where
  "legacy_decided_at g r =
     (let event_type = (if decided_status (lr_status r) then lr_status r
                        else if audited ''approved'' r g \<noteq> [] then ''approved'' else ''rejected'') in
      case map al_created_at (audited event_type r g) of [] \<Rightarrow> lr_updated_at r | t # ts \<Rightarrow> foldl min t ts)"

text \<open>\<open>gen_random_uuid()\<close> of a run is \<open>ids\<close>.\<close>

definition backfilled_decision :: "(string \<Rightarrow> uuid) \<Rightarrow> legacy_db \<Rightarrow> legacy_run \<Rightarrow> review_decision option" where
  "backfilled_decision ids g r = map_option (\<lambda>d. \<lparr>rd_id = ids (lr_run_id r), rd_run_id = lr_run_id r, rd_disposition = d,
     rd_decided_at = legacy_decided_at g r, rd_reviewer_id = None\<rparr>) (legacy_disposition g r)"

definition backfilled_decisions :: "(string \<Rightarrow> uuid) \<Rightarrow> legacy_db \<Rightarrow> review_decision list" where
  "backfilled_decisions ids g = List.map_filter (backfilled_decision ids g) (lg_runs g)"

definition backfilled_processing :: "review_decision list \<Rightarrow> legacy_run \<Rightarrow> string" where
  "backfilled_processing decisions r =
     (if list_ex (\<lambda>d. rd_run_id d = lr_run_id r) decisions then ''complete''
      else if lr_status r \<in> set [''complete'', ''approved'', ''rejected'', ''partial'', ''reconciled''] then ''complete''
      else if lr_status r = ''awaiting_review'' then ''awaiting_review''
      else if lr_status r = ''exception'' \<and> lr_interrupt_payload r \<noteq> None then ''awaiting_review''
      else if lr_status r \<in> set [''failed'', ''exception''] then ''failed''
      else if lr_status r \<in> set [''pending'', ''running'', ''retrying''] then lr_status r
      else ''failed'')"

definition document_reconciled :: "legacy_db \<Rightarrow> legacy_run \<Rightarrow> bool" where
  "document_reconciled g r \<longleftrightarrow> list_ex (\<lambda>d. doc_id d = lr_document_id r
     \<and> list_ex (\<lambda>s. doc_shipment_id d = Some (sh_id s) \<and> sh_reconciliation_status s = ''reconciled'') (lg_shipments g)) (lg_documents g)
     \<and> lr_status r \<in> set [''complete'', ''reconciled'']"

definition backfilled_posting :: "legacy_db \<Rightarrow> review_decision list \<Rightarrow> legacy_run \<Rightarrow> string" where
  "backfilled_posting g decisions r =
     (if list_ex (\<lambda>d. rd_run_id d = lr_run_id r \<and> rd_disposition d = ''approved'') decisions then ''ready_for_posting''
      else if list_ex (\<lambda>d. rd_run_id d = lr_run_id r \<and> rd_disposition d = ''rejected'') decisions then ''blocked''
      else if lr_status r = ''reconciled'' \<or> document_reconciled g r then ''ready_for_posting''
      else ''not_ready'')"

definition migrated_run :: "legacy_db \<Rightarrow> review_decision list \<Rightarrow> legacy_run \<Rightarrow> workflow_run" where
  "migrated_run g decisions r =
     (let processing = backfilled_processing decisions r in
      \<lparr>wr_id = lr_id r, wr_run_id = lr_run_id r, wr_document_id = lr_document_id r,
       wr_status = (case List.find (\<lambda>d. rd_run_id d = lr_run_id r) decisions of Some d \<Rightarrow> rd_disposition d | None \<Rightarrow> processing),
       wr_processing_status = processing, wr_posting_status = backfilled_posting g decisions r,
       wr_interrupt_payload = lr_interrupt_payload r, wr_created_at = lr_created_at r, wr_updated_at = lr_updated_at r\<rparr>)"

text \<open>\<open>item->>key\<close>: the text of a member; JSON null and a missing member are both NULL.\<close>

definition json_text :: "jdict \<Rightarrow> string \<Rightarrow> string option" where
  "json_text item k = (case dget item k of JNull \<Rightarrow> None | JStr s \<Rightarrow> Some s
     | JBool b \<Rightarrow> Some (if b then ''true'' else ''false'') | v \<Rightarrow> Some (json_dumps '', '' '': '' v))"

definition check_outcome_of :: "string list \<Rightarrow> jdict \<Rightarrow> string" where
  "check_outcome_of missing_docs item =
     (let details = (case json_text item ''details'' of None \<Rightarrow> [] | Some t \<Rightarrow> t) in
      if json_text item ''passed'' = Some ''false'' then ''failed''
      else if json_text item ''passed'' = None then ''not_evaluated''
      else if json_text item ''check_name'' = Some ''missing_docs'' \<and> missing_docs \<noteq> [] then ''not_evaluated''
      else if starts_with ''skipped:'' details then ''not_evaluated''
      else if contains ''within 3-day grace period'' details then ''not_evaluated''
      else ''passed'')"

definition without_key :: "string \<Rightarrow> jdict \<Rightarrow> jdict" where
  "without_key k item = filter (\<lambda>kv. fst kv \<noteq> k) item"

definition migrated_check :: "string list \<Rightarrow> jdict \<Rightarrow> jdict" where
  "migrated_check missing_docs item = dset ''outcome'' (JStr (check_outcome_of missing_docs item)) (without_key ''passed'' item)"

definition migrated_result :: "legacy_result \<Rightarrow> legacy_result" where
  "migrated_result t = t\<lparr>lt_checks := map (migrated_check (lt_missing_docs t)) (lt_checks t)\<rparr>"

definition latest_legacy :: "legacy_result list \<Rightarrow> uuid \<Rightarrow> legacy_result option" where
  "latest_legacy rs shipment_id = latest lt_created_at (filter (\<lambda>t. lt_shipment_id t = shipment_id) rs)"

definition known_status :: "shipment \<Rightarrow> bool" where
  "known_status s \<longleftrightarrow> sh_reconciliation_status s \<in> set [''pending'', ''partial'', ''exception'', ''reconciled'']"

text \<open>The two updates of the shipments: from the latest result, then those that have none.\<close>

definition status_from_result :: "legacy_result list \<Rightarrow> shipment \<Rightarrow> shipment" where
  "status_from_result rs s =
     (if known_status s then s
      else (case latest_legacy rs (sh_id s) of
          None \<Rightarrow> s
        | Some t \<Rightarrow> s\<lparr>sh_reconciliation_status :=
            (if lt_exception_reasons t \<noteq> [] then ''exception''
             else if lt_missing_docs t \<noteq> [] \<or> list_ex (\<lambda>c. json_text c ''outcome'' = Some ''not_evaluated'') (lt_checks t)
             then ''partial'' else ''reconciled'')\<rparr>))"

definition status_without_result :: "shipment \<Rightarrow> shipment" where
  "status_without_result s =
     (if known_status s then s
      else s\<lparr>sh_reconciliation_status :=
        (if sh_reconciliation_status s \<in> set [''awaiting_review'', ''approved'', ''rejected'', ''failed''] then ''exception'' else ''pending'')\<rparr>)"

text \<open>The three check constraints created at the end.\<close>

definition migrated_constraints :: "migrated \<Rightarrow> bool" where
  "migrated_constraints m \<longleftrightarrow>
     list_all (\<lambda>r. wr_processing_status r \<in> set ProcessingStatus \<and> wr_posting_status r \<in> set PostingStatus) (mg_runs m)
   \<and> list_all (\<lambda>s. sh_reconciliation_status s \<in> set RECONCILIATION_STATUSES) (mg_shipments m)"

definition upgrade_business_state :: "(string \<Rightarrow> uuid) \<Rightarrow> legacy_db \<Rightarrow> migrated result" where
  "upgrade_business_state ids g =
     (let conflicts = map lr_run_id (filter (conflicting g) (lg_runs g)) in
      if conflicts \<noteq> [] then Inl (RuntimeError (''Conflicting historical review decisions require resolution: ''
                                     @ py_join '', '' conflicts))
      else
        (let decisions = backfilled_decisions ids g; rs = map migrated_result (lg_results g);
             m = \<lparr>mg_runs = map (migrated_run g decisions) (lg_runs g), mg_decisions = decisions, mg_results = rs,
                  mg_shipments = map status_without_result (map (status_from_result rs) (lg_shipments g))\<rparr> in
         if migrated_constraints m then Inr m else Inl IntegrityError))"

definition downgraded_check :: "jdict \<Rightarrow> jdict" where
  "downgraded_check item = dset ''passed'' (JBool (json_text item ''outcome'' \<noteq> Some ''failed'')) (without_key ''outcome'' item)"

definition downgraded_run :: "review_decision list \<Rightarrow> workflow_run \<Rightarrow> legacy_run" where
  "downgraded_run decisions run = \<lparr>lr_id = wr_id run, lr_run_id = wr_run_id run, lr_document_id = wr_document_id run,
     lr_status = (case List.find (\<lambda>d. rd_run_id d = wr_run_id run) decisions of Some d \<Rightarrow> rd_disposition d
                  | None \<Rightarrow> wr_processing_status run),
     lr_interrupt_payload = wr_interrupt_payload run, lr_created_at = wr_created_at run, lr_updated_at = wr_updated_at run\<rparr>"

definition downgrade_business_state :: "migrated \<Rightarrow> legacy_run list \<times> legacy_result list" where
  "downgrade_business_state m = (map (downgraded_run (mg_decisions m)) (mg_runs m),
     map (\<lambda>t. t\<lparr>lt_checks := map downgraded_check (lt_checks t)\<rparr>) (mg_results m))"

section \<open>Duplicates\<close>

text \<open>\<open>202607190001\<close> deletes the duplicates its two unique indexes would refuse: of several results of a run the one
  stored last stays (the tables here list their rows in physical order, the order of \<open>ctid\<close>), of several entries of
  one event the one with the smallest ID.\<close>

fun dedup_results :: "legacy_result list \<Rightarrow> legacy_result list" where
  "dedup_results [] = []"
| "dedup_results (a # rs) =
     (if lt_run_id a \<noteq> None \<and> list_ex (\<lambda>b. lt_run_id a = lt_run_id b) rs then dedup_results rs else a # dedup_results rs)"

definition dedup_audit :: "workflow_audit_log list \<Rightarrow> workflow_audit_log list" where
  "dedup_audit entries = filter (\<lambda>a. \<not> list_ex (\<lambda>b. al_run_id a = al_run_id b \<and> al_event_type a = al_event_type b \<and> al_id a > al_id b) entries) entries"

section \<open>Evaluation sources\<close>

definition evaluation_source_of :: "string option \<Rightarrow> string" where
  "evaluation_source_of run_id = (if run_id = None then ''legacy'' else ''document_workflow'')"


section \<open>What the load-number migration establishes\<close>

lemma pg_space_upper [simp]: "pg_space (upper_char c) = pg_space c"
  by (auto simp: upper_char_def pg_space_def Let_def)

lemma dropWhile_pg_upper: "dropWhile pg_space (map upper_char s) = map upper_char (dropWhile pg_space s)"
  by (induction s) auto

lemma pg_trim_upper: "pg_trim (py_upper s) = py_upper (pg_trim s)"
  by (simp add: pg_trim_def py_upper_def dropWhile_pg_upper rev_map)

lemma dropWhile_hd: "dropWhile P s \<noteq> [] \<Longrightarrow> \<not> P (hd (dropWhile P s))"
  by (rule hd_dropWhile)

lemma dropWhile_rev_stable:
  assumes "s = [] \<or> \<not> P (hd s)"
  shows "rev (dropWhile P (rev s)) = [] \<or> \<not> P (hd (rev (dropWhile P (rev s))))"
proof (cases "rev (dropWhile P (rev s)) = []")
  case False
  then have "hd (rev (dropWhile P (rev s))) = hd s"
    by (metis hd_append2 rev_append rev_rev_ident takeWhile_dropWhile_id)
  with assms False show ?thesis by auto
qed simp

lemma dropWhile_stable: "s = [] \<or> \<not> P (hd s) \<Longrightarrow> dropWhile P s = s"
  by (cases s) auto

lemma pg_trim_idem [simp]: "pg_trim (pg_trim s) = pg_trim s"
proof -
  have "pg_trim s = [] \<or> \<not> pg_space (hd (pg_trim s))"
    unfolding pg_trim_def by (rule dropWhile_rev_stable) (metis dropWhile_hd)
  then have "dropWhile pg_space (pg_trim s) = pg_trim s" by (rule dropWhile_stable)
  then have "pg_trim (pg_trim s) = rev (dropWhile pg_space (rev (pg_trim s)))" by (simp add: pg_trim_def [of "pg_trim s"])
  also have "\<dots> = pg_trim s" by (simp add: pg_trim_def)
  finally show ?thesis .
qed

lemma normalized_load_number_check: "load_number_check (normalized_load_number_sql s) \<longleftrightarrow> normalized_load_number_sql s \<noteq> []"
  by (simp add: load_number_check_def normalized_load_number_sql_def pg_trim_upper)

lemma repeated_values: "filter (\<lambda>n. 1 < length (filter (\<lambda>m. m = n) xs)) (remdups xs) = [] \<longleftrightarrow> distinct xs"
proof -
  have "(\<forall>x\<in>set xs. \<not> 1 < length (filter (\<lambda>m. m = x) xs)) \<longleftrightarrow> distinct xs"
  proof (induction xs)
    case (Cons a xs)
    have "length (filter (\<lambda>m. m = a) xs) = 0 \<longleftrightarrow> a \<notin> set xs" by (auto simp: filter_empty_conv)
    with Cons show ?case by (auto split: if_splits)
  qed simp
  then show ?thesis by (simp add: filter_empty_conv)
qed

lemma py_join_Nil_iff: "[] \<notin> set xs \<Longrightarrow> py_join sep xs = [] \<longleftrightarrow> xs = []"
  by (cases xs; cases "tl xs") auto

lemma sort_Nil_iff: "sort xs = [] \<longleftrightarrow> xs = []"
  by (metis set_empty set_sort)

text \<open>The guard lets a table through exactly when its normalised load numbers are non-empty and distinct.\<close>

lemma reject_invalid_iff:
  "reject_invalid_load_numbers table_name vs = Inr () \<longleftrightarrow>
     [] \<notin> normalized_load_number_sql ` set vs \<and> distinct (map normalized_load_number_sql vs)"
proof (cases "[] \<in> normalized_load_number_sql ` set vs")
  case True
  then have "[] \<in> set (map normalized_load_number_sql vs)" by simp
  then have "filter (\<lambda>n. n = []) (map normalized_load_number_sql vs) \<noteq> []" unfolding filter_empty_conv by blast
  with True show ?thesis by (simp add: reject_invalid_load_numbers_def Let_def)
next
  case False
  let ?ns = "map normalized_load_number_sql vs"
  let ?cs = "filter (\<lambda>n. 1 < length (filter (\<lambda>m. m = n) ?ns)) (remdups ?ns)"
  from False have "[] \<notin> set ?ns" by simp
  then have none: "length (filter (\<lambda>n. n = []) ?ns) = 0" by (metis (mono_tags, lifting) filter_False list.size(3))
  from False have "[] \<notin> set (sort ?cs)" by auto
  then have "py_join '', '' (sort ?cs) = [] \<longleftrightarrow> sort ?cs = []" by (rule py_join_Nil_iff)
  also have "\<dots> \<longleftrightarrow> distinct ?ns" by (simp only: sort_Nil_iff repeated_values)
  finally have "py_join '', '' (sort ?cs) = [] \<longleftrightarrow> distinct ?ns" .
  with False none show ?thesis by (simp add: reject_invalid_load_numbers_def Let_def filter_map del: distinct_map)
qed

definition convertible :: "string list \<Rightarrow> bool" where
  "convertible vs \<longleftrightarrow> [] \<notin> set (map normalized_load_number_sql vs) \<and> distinct (map normalized_load_number_sql vs)"

definition normalized_tables :: "database \<Rightarrow> database" where
  "normalized_tables db = db\<lparr>
     shipments := map (\<lambda>s. s\<lparr>sh_load_number := normalized_load_number_sql (sh_load_number s)\<rparr>) (shipments db),
     rate_confirmations := map (\<lambda>r. r\<lparr>rc_load_number := normalized_load_number_sql (rc_load_number r)\<rparr>) (rate_confirmations db)\<rparr>"

lemma normalized_numbers:
  "map sh_load_number (shipments (normalized_tables db)) = map normalized_load_number_sql (map sh_load_number (shipments db))"
  "map rc_load_number (rate_confirmations (normalized_tables db)) = map normalized_load_number_sql (map rc_load_number (rate_confirmations db))"
  by (simp_all add: normalized_tables_def)

lemma normalized_idem [simp]: "normalized_load_number_sql (normalized_load_number_sql s) = normalized_load_number_sql s"
  by (simp add: normalized_load_number_sql_def pg_trim_upper)

lemma convertible_checks: "convertible vs \<Longrightarrow> list_all load_number_check (map normalized_load_number_sql vs)"
  by (auto simp: convertible_def list_all_iff normalized_load_number_check image_iff)

lemma upgrade_load_numbers_cases:
  "upgrade_load_numbers db = Inr (normalized_tables db) \<and> convertible (map sh_load_number (shipments db))
     \<and> convertible (map rc_load_number (rate_confirmations db))
   \<or> (\<exists>t. upgrade_load_numbers db = Inl (RuntimeError t)) \<and> \<not> (convertible (map sh_load_number (shipments db))
     \<and> convertible (map rc_load_number (rate_confirmations db)))"
proof -
  have guard: "reject_invalid_load_numbers t vs = Inr () \<longleftrightarrow> convertible vs" for t vs
    by (simp only: reject_invalid_iff convertible_def set_map)
  have err: "reject_invalid_load_numbers t vs = Inl e \<Longrightarrow> \<exists>x. e = RuntimeError x" for t vs e
    by (auto simp: reject_invalid_load_numbers_def Let_def split: if_splits)
  show ?thesis
  proof (cases "reject_invalid_load_numbers ''shipments'' (map sh_load_number (shipments db))")
    case (Inl e)
    then show ?thesis using err [OF Inl] guard [of "''shipments''" "map sh_load_number (shipments db)"]
      by (auto simp: upgrade_load_numbers_def)
  next
    case s: (Inr u)
    show ?thesis
    proof (cases "reject_invalid_load_numbers ''rate_confirmations'' (map rc_load_number (rate_confirmations db))")
      case (Inl e)
      then show ?thesis using err [OF Inl] s guard [of "''rate_confirmations''" "map rc_load_number (rate_confirmations db)"]
        by (auto simp: upgrade_load_numbers_def Let_def)
    next
      case r: (Inr v)
      from s r guard have c: "convertible (map sh_load_number (shipments db))"
          "convertible (map rc_load_number (rate_confirmations db))" by simp_all
      from convertible_checks [OF c(1)] convertible_checks [OF c(2)] s r
      have "upgrade_load_numbers db = Inr (normalized_tables db)"
        by (simp add: upgrade_load_numbers_def normalized_tables_def list_all_iff)
      with c show ?thesis by simp
    qed
  qed
qed

text \<open>C39: the load-number migration converts exactly the data it can. It succeeds if and only if, in each of the two tables,
  no load number normalises to the empty string and no two normalise to the same string; otherwise it stops with a
  RuntimeError, never with a constraint violation. When it succeeds every load number satisfies the check constraint and
  is unique, no row is lost and no other table changes, and running it again changes nothing.\<close>

theorem load_number_upgrade_exact:
  "((\<exists>db'. upgrade_load_numbers db = Inr db') \<longleftrightarrow>
      convertible (map sh_load_number (shipments db)) \<and> convertible (map rc_load_number (rate_confirmations db)))
   \<and> (\<forall>e. upgrade_load_numbers db = Inl e \<longrightarrow> (\<exists>t. e = RuntimeError t))
   \<and> (\<forall>db'. upgrade_load_numbers db = Inr db' \<longrightarrow>
        list_all load_number_check (map sh_load_number (shipments db')) \<and> distinct (map sh_load_number (shipments db'))
      \<and> list_all load_number_check (map rc_load_number (rate_confirmations db')) \<and> distinct (map rc_load_number (rate_confirmations db'))
      \<and> map sh_id (shipments db') = map sh_id (shipments db)
      \<and> db'\<lparr>shipments := [], rate_confirmations := []\<rparr> = db\<lparr>shipments := [], rate_confirmations := []\<rparr>
      \<and> upgrade_load_numbers db' = Inr db')"
proof -
  have kept: "map sh_id (shipments (normalized_tables db)) = map sh_id (shipments db)"
    "(normalized_tables db)\<lparr>shipments := [], rate_confirmations := []\<rparr> = db\<lparr>shipments := [], rate_confirmations := []\<rparr>"
    by (simp_all add: normalized_tables_def)
  have idem: "normalized_tables (normalized_tables db) = normalized_tables db" by (simp add: normalized_tables_def)
  have conv: "convertible (map normalized_load_number_sql vs)" if "convertible vs" for vs
    using that by (simp add: convertible_def comp_def image_image del: distinct_map)
  from upgrade_load_numbers_cases [of db] show ?thesis
  proof (elim disjE conjE exE)
    assume up: "upgrade_load_numbers db = Inr (normalized_tables db)" and c: "convertible (map sh_load_number (shipments db))"
      "convertible (map rc_load_number (rate_confirmations db))"
    have "upgrade_load_numbers (normalized_tables db) = Inr (normalized_tables db)"
      using upgrade_load_numbers_cases [of "normalized_tables db"] conv [OF c(1)] conv [OF c(2)] idem
      by (simp only: normalized_numbers) simp
    moreover have "distinct (map normalized_load_number_sql vs)" if "convertible vs" for vs
      using that by (simp add: convertible_def)
    ultimately show ?thesis using up c kept convertible_checks [OF c(1)] convertible_checks [OF c(2)]
      by (simp del: map_map distinct_map list.pred_map add: normalized_numbers)
  qed auto
qed

definition sample_legacy_tables :: database where
  "sample_legacy_tables = (fresh_database 0)\<lparr>rate_confirmations := [\<lparr>rc_id = ''r1'', rc_load_number = '' l-7 '', rc_carrier_name = ''Acme'',
     rc_origin = ''A'', rc_destination = ''B'', rc_agreed_rate = Fin 100, rc_currency = ''USD'', rc_shipment_date = 0, rc_created_at = 0\<rparr>]\<rparr>"

theorem load_number_upgrade_exact_witness:
  "\<exists>db'. upgrade_load_numbers sample_legacy_tables = Inr db'
     \<and> list_all load_number_check (map rc_load_number (rate_confirmations db')) \<and> upgrade_load_numbers db' = Inr db'"
proof -
  have "convertible (map sh_load_number (shipments sample_legacy_tables))"
    "convertible (map rc_load_number (rate_confirmations sample_legacy_tables))" by code_simp+
  with load_number_upgrade_exact [of sample_legacy_tables] obtain db' where
    "upgrade_load_numbers sample_legacy_tables = Inr db'" by blast
  with load_number_upgrade_exact [of sample_legacy_tables] show ?thesis by blast
qed

section \<open>What the business-state migration establishes\<close>

lemma map_filter_keys:
  assumes key: "\<And>x y. f x = Some y \<Longrightarrow> k' y = k x"
  shows "distinct (map k xs) \<Longrightarrow> distinct (map k' (List.map_filter f xs))"
    and "distinct (map k xs) \<Longrightarrow> x \<in> set xs \<Longrightarrow> get_row k' (k x) (List.map_filter f xs) = f x"
proof -
  have sub: "k' ` set (List.map_filter f xs) \<subseteq> k ` set xs" for xs
    by (induction xs) (auto simp: List.map_filter_simps key split: option.splits)
  show "distinct (map k xs) \<Longrightarrow> distinct (map k' (List.map_filter f xs))"
  proof (induction xs)
    case (Cons a xs)
    then show ?case using sub [of xs] by (auto simp: List.map_filter_simps key split: option.splits)
  qed (simp add: List.map_filter_simps)
  show "distinct (map k xs) \<Longrightarrow> x \<in> set xs \<Longrightarrow> get_row k' (k x) (List.map_filter f xs) = f x"
  proof (induction xs)
    case (Cons a xs)
    show ?case
    proof (cases "x = a")
      case True
      with Cons.prems sub [of xs] have "k x \<notin> k' ` set (List.map_filter f xs)" by auto
      with True show ?thesis
        by (auto simp: List.map_filter_simps get_row_None_iff key split: option.splits)
    next
      case False
      with Cons.prems have "k x \<noteq> k a" by (metis distinct.simps(2) image_eqI list.set_map list.simps(9) set_ConsD)
      with False Cons show ?thesis by (auto simp: List.map_filter_simps key split: option.splits)
    qed
  qed simp
qed

lemma backfilled_decision_key: "backfilled_decision ids g r = Some d \<Longrightarrow> rd_run_id d = lr_run_id r"
  by (auto simp: backfilled_decision_def)

lemma backfilled_keys:
  assumes "distinct (map lr_run_id (lg_runs g))"
  shows "distinct (map rd_run_id (backfilled_decisions ids g))"
    and "r \<in> set (lg_runs g) \<Longrightarrow> get_row rd_run_id (lr_run_id r) (backfilled_decisions ids g) = backfilled_decision ids g r"
  unfolding backfilled_decisions_def
  using map_filter_keys [where f = "backfilled_decision ids g" and k' = rd_run_id and k = lr_run_id, OF _ assms]
    backfilled_decision_key by metis+

lemma list_ex_get_row: "list_ex (\<lambda>d. key d = k) ds \<longleftrightarrow> get_row key k ds \<noteq> None"
  by (induction ds) auto

lemma list_ex_get_row_and:
  "distinct (map key ds) \<Longrightarrow> list_ex (\<lambda>d. key d = k \<and> P d) ds \<longleftrightarrow> (\<exists>d. get_row key k ds = Some d \<and> P d)"
  unfolding list_ex_iff by (metis get_row_distinct get_row_key option.inject)

text \<open>What becomes of one run, once its decision is known.\<close>

lemma migrated_run_facts:
  assumes "distinct (map lr_run_id (lg_runs g))" and "r \<in> set (lg_runs g)" and "ds = backfilled_decisions ids g"
  shows "wr_run_id (migrated_run g ds r) = lr_run_id r"
    and "wr_processing_status (migrated_run g ds r) \<in> set ProcessingStatus"
    and "wr_posting_status (migrated_run g ds r) \<in> set PostingStatus"
    and "wr_status (migrated_run g ds r) = legacy_status (processing_status (migrated_run g ds r)) (backfilled_decision ids g r)"
    and "backfilled_decision ids g r = Some d \<Longrightarrow> decided_ok d (migrated_run g ds r)"
    and "downgraded_run ds (migrated_run g ds r) = r\<lparr>lr_status := wr_status (migrated_run g ds r)\<rparr>"
proof -
  note keys = backfilled_keys(1) [OF assms(1), of ids, folded assms(3)] backfilled_keys(2) [OF assms(1,2), of ids, folded assms(3)]
  have find: "List.find (\<lambda>d. rd_run_id d = lr_run_id r) ds = backfilled_decision ids g r" using keys(2) by (simp add: get_row_def)
  have proc: "backfilled_processing ds r \<noteq> []" "backfilled_processing ds r \<in> set ProcessingStatus"
    by (auto simp: backfilled_processing_def ProcessingStatus_def)
  show "wr_run_id (migrated_run g ds r) = lr_run_id r" by (simp add: migrated_run_def Let_def)
  show "wr_processing_status (migrated_run g ds r) \<in> set ProcessingStatus" using proc by (simp add: migrated_run_def Let_def)
  show "wr_posting_status (migrated_run g ds r) \<in> set PostingStatus"
    by (simp add: migrated_run_def Let_def backfilled_posting_def PostingStatus_def)
  show "wr_status (migrated_run g ds r) = legacy_status (processing_status (migrated_run g ds r)) (backfilled_decision ids g r)"
    using proc by (simp add: migrated_run_def Let_def find legacy_status_def processing_status_def)
  show "downgraded_run ds (migrated_run g ds r) = r\<lparr>lr_status := wr_status (migrated_run g ds r)\<rparr>"
    by (cases r) (simp add: downgraded_run_def migrated_run_def Let_def split: option.split)
  assume d: "backfilled_decision ids g r = Some d"
  then have "rd_disposition d \<in> {''approved'', ''rejected''}"
    by (auto simp: backfilled_decision_def legacy_disposition_def decided_status_def split: if_splits)
  moreover have "backfilled_processing ds r = ''complete''"
    using keys(2) d by (simp add: backfilled_processing_def list_ex_get_row)
  ultimately show "decided_ok d (migrated_run g ds r)"
    using keys d find by (auto simp: decided_ok_def migrated_run_def Let_def backfilled_posting_def list_ex_get_row_and)
qed

lemma migrated_shipment_status:
  "sh_reconciliation_status (status_without_result (status_from_result rs s)) \<in> set RECONCILIATION_STATUSES"
  by (auto simp: status_without_result_def status_from_result_def known_status_def RECONCILIATION_STATUSES_def
      split: option.split)

lemma migrated_run_ids: "map wr_run_id (map (migrated_run g ds) rs) = map lr_run_id rs"
  by (simp add: migrated_run_def Let_def)

lemma get_migrated_run:
  assumes "distinct (map lr_run_id rs)" and "r \<in> set rs"
  shows "get_row wr_run_id (lr_run_id r) (map (migrated_run g ds) rs) = Some (migrated_run g ds r)"
proof -
  from assms(1) have "distinct (map wr_run_id (map (migrated_run g ds) rs))" by (simp only: migrated_run_ids)
  from get_row_distinct [OF this, of "migrated_run g ds r"] assms(2) show ?thesis by (simp add: migrated_run_def Let_def)
qed

text \<open>A status that still exists is kept.\<close>

lemma migrated_status_kept:
  assumes "distinct (map lr_run_id (lg_runs g))" and "r \<in> set (lg_runs g)"
    and "legacy_disposition g r = Some (lr_status r) \<or> legacy_disposition g r = None \<and> lr_status r \<in> set ProcessingStatus"
  shows "wr_status (migrated_run g (backfilled_decisions ids g) r) = lr_status r"
  using assms(3)
proof
  note keys = backfilled_keys(2) [OF assms(1,2), of ids]
  {
    assume "legacy_disposition g r = Some (lr_status r)"
    with keys show ?thesis by (auto simp: migrated_run_def Let_def get_row_def backfilled_decision_def)
  next
    assume none: "legacy_disposition g r = None \<and> lr_status r \<in> set ProcessingStatus"
    with keys have no: "get_row rd_run_id (lr_run_id r) (backfilled_decisions ids g) = None" by (simp add: backfilled_decision_def)
    then have "\<not> list_ex (\<lambda>d. rd_run_id d = lr_run_id r) (backfilled_decisions ids g)" by (simp add: list_ex_get_row)
    with none no show ?thesis
      by (auto simp: migrated_run_def Let_def get_row_def backfilled_processing_def ProcessingStatus_def)
  }
qed

text \<open>The constraints created at the end never fail, so conflicting decisions are the only obstacle.\<close>

definition converted :: "(string \<Rightarrow> uuid) \<Rightarrow> legacy_db \<Rightarrow> migrated" where
  "converted ids g = (let ds = backfilled_decisions ids g; rs = map migrated_result (lg_results g) in
     \<lparr>mg_runs = map (migrated_run g ds) (lg_runs g), mg_decisions = ds, mg_results = rs,
      mg_shipments = map status_without_result (map (status_from_result rs) (lg_shipments g))\<rparr>)"

lemma converted_constraints: "distinct (map lr_run_id (lg_runs g)) \<Longrightarrow> migrated_constraints (converted ids g)"
  using migrated_run_facts(2,3) [of g _ "backfilled_decisions ids g" ids]
  by (simp add: migrated_constraints_def converted_def Let_def list_all_iff migrated_shipment_status)

lemma upgrade_business_state_eq:
  assumes "distinct (map lr_run_id (lg_runs g))"
  shows "upgrade_business_state ids g =
    (if \<exists>r \<in> set (lg_runs g). conflicting g r
     then Inl (RuntimeError (''Conflicting historical review decisions require resolution: ''
                 @ py_join '', '' (map lr_run_id (filter (conflicting g) (lg_runs g)))))
     else Inr (converted ids g))"
  using converted_constraints [OF assms, of ids]
  by (simp add: upgrade_business_state_def converted_def Let_def filter_empty_conv)

lemma migrated_runs_inv:
  assumes "distinct (map lr_run_id (lg_runs g))"
  shows "runs_inv (db\<lparr>workflow_runs := mg_runs (converted ids g), review_decisions := mg_decisions (converted ids g)\<rparr>)"
proof -
  let ?ds = "backfilled_decisions ids g"
  have "\<exists>run. get_row wr_run_id (rd_run_id d) (map (migrated_run g ?ds) (lg_runs g)) = Some run \<and> decided_ok d run"
    if "d \<in> set ?ds" for d
  proof -
    from that obtain r where r: "r \<in> set (lg_runs g)" "backfilled_decision ids g r = Some d"
      by (auto simp: backfilled_decisions_def List.map_filter_def)
    from get_migrated_run [OF assms r(1)] migrated_run_facts(5) [OF assms r(1) refl r(2)] backfilled_decision_key [OF r(2)]
    show ?thesis by simp
  qed
  with assms backfilled_keys(1) [OF assms, of ids] show ?thesis
    by (simp add: runs_inv_def converted_def Let_def get_run_def migrated_run_ids del: map_map)
qed

text \<open>A check comes back with the verdict it had: downgrading undoes the conversion of the boolean.\<close>

lemma dget_without_key: "dget (without_key k d) k' = (if k' = k then JNull else dget d k')"
  by (induction d) (auto simp: without_key_def)

lemma check_round_trip:
  assumes "dget item ''passed'' = JBool b" and "k \<noteq> ''outcome''"
  shows "dget (downgraded_check (migrated_check missing_docs item)) k = dget item k"
  using assms by (cases b) (auto simp: downgraded_check_def migrated_check_def dget_without_key json_text_def check_outcome_of_def Let_def)


definition sample_legacy_db :: legacy_db where
  "sample_legacy_db = \<lparr>lg_runs =
       [\<lparr>lr_id = 1, lr_run_id = ''a'', lr_document_id = 1, lr_status = ''approved'', lr_interrupt_payload = None, lr_created_at = 0, lr_updated_at = 5\<rparr>,
        \<lparr>lr_id = 2, lr_run_id = ''b'', lr_document_id = 2, lr_status = ''exception'', lr_interrupt_payload = Some [], lr_created_at = 1, lr_updated_at = 6\<rparr>],
     lg_audit = [], lg_documents = [], lg_shipments = [], lg_results = []\<rparr>"


section \<open>What the removal of duplicates establishes\<close>

lemma dedup_results_subset: "set (dedup_results rs) \<subseteq> set rs"
  by (induction rs) auto

lemma dedup_results_unique: "partial_unique lt_run_id (dedup_results rs)"
proof (induction rs)
  case (Cons a rs)
  then show ?case using dedup_results_subset [of rs] by (auto simp: partial_unique_def list_ex_iff)
qed (simp add: partial_unique_def)

lemma dedup_results_keeps_runs: "lt_run_id ` set (dedup_results rs) = lt_run_id ` set rs"
  by (induction rs) (auto simp: list_ex_iff image_iff)

text \<open>One entry of each event of a run is left, the earliest, and no event is lost.\<close>

lemma dedup_audit_unique:
  assumes "distinct (map al_id entries)"
  shows "distinct (map (\<lambda>a. (al_run_id a, al_event_type a)) (dedup_audit entries))"
proof -
  have "inj_on (\<lambda>a. (al_run_id a, al_event_type a)) (set (dedup_audit entries))"
  proof (rule inj_onI)
    fix a b
    assume ab: "a \<in> set (dedup_audit entries)" "b \<in> set (dedup_audit entries)"
      and eq: "(al_run_id a, al_event_type a) = (al_run_id b, al_event_type b)"
    then have "al_id a = al_id b" by (auto simp: dedup_audit_def list_ex_iff not_less intro!: antisym)
    with ab assms show "a = b" by (auto simp: dedup_audit_def distinct_map inj_on_def)
  qed
  with assms show ?thesis by (simp add: distinct_map dedup_audit_def)
qed

lemma dedup_audit_keeps_events:
  "(\<lambda>a. (al_run_id a, al_event_type a)) ` set (dedup_audit entries) = (\<lambda>a. (al_run_id a, al_event_type a)) ` set entries"
proof -
  have "\<exists>b \<in> set (dedup_audit entries). al_run_id b = al_run_id a \<and> al_event_type b = al_event_type a" if a: "a \<in> set entries" for a
  proof -
    define same where "same b \<longleftrightarrow> b \<in> set entries \<and> al_run_id b = al_run_id a \<and> al_event_type b = al_event_type a" for b
    from a have "same a" by (simp add: same_def)
    then obtain b where "same b" "\<And>c. same c \<Longrightarrow> al_id b \<le> al_id c" using exists_least_iff [of "\<lambda>n. \<exists>b. same b \<and> al_id b = n"]
      by (metis not_less)
    then show ?thesis by (intro bexI [of _ b]) (auto simp: same_def dedup_audit_def list_ex_iff not_less)
  qed
  then show ?thesis by (auto simp: dedup_audit_def image_iff) metis
qed

end
