(* ===== verification/Spec2Isabelle.thy ===== *)
theory Spec2Isabelle
  imports SLA_Scanner Business_State Queue_Safety Worker_Safety Background_Tasks Operations_Api Migrations
begin

text \<open>
  Verification of the freight accounts-payable workflow (the Python service under \<open>app/\<close> and its
  migrations under \<open>alembic/\<close>).

  \<^bold>\<open>The program.\<close> Freight documents (invoices, rate confirmations, bills of lading, proofs of
  delivery) arrive by mail or upload. The Gmail poller puts each attachment as a job into a
  Redis stream. Workers take jobs from the stream, create a document and a workflow run in
  PostgreSQL, and run a LangGraph graph on it: a language model extracts the fields, the
  document is attached to the shipment of its load number, the shipment is reconciled, and an
  exception is triaged and waits for a reviewer. The reviewer's decision resumes the thread.
  A scanner finds shipments whose required documents are overdue, a notifier sends mail, and
  an HTTP API serves all of it. A job that keeps failing goes to a dead-letter stream, which
  operators list, replay and purge.

  \<^bold>\<open>Conventions.\<close> A Python exception is a value of \<open>py_error\<close> in a sum (\<open>'a result\<close>), an HTTP
  error a value of \<open>http_error\<close>. A function that writes takes the state it works on and returns
  it: the tables (\<open>database\<close>), the Redis keyspace (\<open>redis\<close>), the checkpoints of the graph, the
  health records. A transaction that raises leaves the caller with the old \<open>database\<close>. Times are
  integers in microseconds, floats are IEEE doubles over exact rationals, text is ASCII.
  Whatever is not in this repository is a parameter: the Claude client (\<open>claude\<close>), the Gmail
  service (\<open>gmail\<close>, \<open>mailer\<close>), pydantic's coercions (\<open>pydantic\<close>), the LangGraph engine
  (\<open>engine\<close>). What other processes do between two statements is a parameter too (locked rows,
  \<open>interfere\<close>, heartbeat times).

  \<^bold>\<open>Foundations.\<close>
  \<^item> \<open>Prelude\<close>, \<open>PyDate\<close>, \<open>Iso_Datetime\<close>, \<open>PyFloat\<close>, \<open>PyJson\<close>, \<open>Json_Text\<close>, \<open>Encoding\<close>: what the
    sources use of Python's text, \<open>datetime\<close>, \<open>float\<close>, \<open>json\<close>, \<open>base64\<close>, \<open>hashlib\<close> and \<open>uuid\<close>, with
    the rounding bounds of doubles and the round trips of JSON and base64.
  \<^item> \<open>Pydantic\<close>, \<open>Config\<close>: field validation of \<open>app/schemas\<close>, and \<open>app/core/config.py\<close>.
  \<^item> \<open>Database\<close>: the rows of \<open>app/models\<close> and the locale \<open>keyed_store\<close> (get, put, add by key),
    interpreted for documents, shipments and runs.
  \<^item> \<open>Redis_Store\<close>: streams, groups, hashes and keys with the commands the services send, and the
    locale \<open>append_log\<close>, interpreted on the stream operations.
  \<^item> \<open>Load_Numbers\<close>: \<open>app/load_numbers.py\<close> and \<open>app/services/json_utils.py\<close>.

  \<^bold>\<open>Shipments and reconciliation.\<close>
  \<^item> \<open>Shipments\<close>: \<open>app/services/shipment.py\<close>. \<open>upsert_shipment\<close> keeps one row per load number.
  \<^item> \<open>Missing_Document_SLA\<close>, \<open>SLA_Scanner\<close>: \<open>app/services/missing_document_sla.py\<close>. The exception
    record is the fold of its gap-free event log; a scan ends and leaves no claimable overdue
    shipment without an exception.
  \<^item> \<open>Reconciliation\<close>: \<open>app/services/reconciliation.py\<close>. The status rule, the exact meaning of the
    five-percent tolerance in doubles, idempotence per run and per evaluation key.

  \<^bold>\<open>The graph.\<close>
  \<^item> \<open>Document_Extraction\<close>: \<open>app/services/extraction.py\<close> and \<open>triage.py\<close>; only validated output is stored.
  \<^item> \<open>Audit_Log\<close>: \<open>app/services/audit.py\<close>; an event is recorded once per run.
  \<^item> \<open>Workflow\<close>, \<open>Workflow_Safety\<close>, \<open>Workflow_Runner\<close>: \<open>app/workflow/state.py\<close>, \<open>nodes.py\<close> and
    \<open>graph.py\<close>, one definition per node and the inductive relation \<open>graph_step\<close>. By rule induction,
    the posting rule and the table invariants hold in every reachable state. \<open>run_graph\<close> has a
    budget of nodes; seven are always enough, below LangGraph's limit of 25.
  \<^item> \<open>Graph_Engine\<close>: the contract of the engine as the locales \<open>graph_engine\<close> and \<open>exact_engine\<close>,
    interpreted on \<open>model_engine\<close>, which drives \<open>run_graph\<close> over a map of checkpoints.
  \<^item> \<open>Business_State\<close>: \<open>app/services/business_state.py\<close>. The first decision is recorded once with run
    and audit event; a repeated one changes nothing, a different one is a conflict.

  \<^bold>\<open>The queue and its workers.\<close>
  \<^item> \<open>Invoice_Queue\<close>: \<open>app/services/invoice_queue.py\<close>, \<open>app/schemas/invoice_job.py\<close>. The round trip of
    the envelope, enqueueing once, evidence of dead letters.
  \<^item> \<open>Queue_Operations\<close>, \<open>Queue_Safety\<close>: \<open>app/services/queue_operations.py\<close> with its Lua scripts.
  \<^item> \<open>Document_Sources\<close>, \<open>Invoice_Worker\<close>, \<open>Worker_Safety\<close>: \<open>app/services/invoice_worker.py\<close>. Redelivery,
    crashes and concurrent creation of the same records.
  \<^item> \<open>Delivery_Lifecycle\<close>: an abstract queue (live, pending, dead) and the refinement lemmas that
    \<open>process_delivery\<close> and \<open>process_batch\<close> implement it.
  \<^item> \<open>Health\<close>: \<open>app/services/health.py\<close>. \<open>Notifier\<close>: \<open>app/services/notifier.py\<close>. \<open>Gmail_Poller\<close>:
    \<open>app/services/gmail_poller.py\<close>. \<open>Background_Tasks\<close>: the consumer loop, the schedulers and
    \<open>lifespan\<close> of \<open>app/main.py\<close>, and \<open>app/services/gmail_auth.py\<close>.

  \<^bold>\<open>The API.\<close>
  \<^item> \<open>Workflow_Api\<close>: \<open>app/api/routes/workflow.py\<close> and \<open>extraction.py\<close>; what an upload stores is what it
    answers, and a decision reads back.
  \<^item> \<open>Rate_Confirmation_Api\<close>: \<open>app/api/routes/rate_confirmations.py\<close>; creation is atomic.
  \<^item> \<open>Shipment_Api\<close>: \<open>app/api/routes/shipments.py\<close>; the analytics agree with direct counts.
  \<^item> \<open>Operations_Api\<close>: \<open>queue_operations.py\<close>, \<open>notifications.py\<close> and \<open>gmail.py\<close> of \<open>app/api/routes\<close>, and the
    health routes of \<open>app/main.py\<close>.

  \<^bold>\<open>Migrations.\<close> \<open>Migrations\<close>: the statements of \<open>alembic/versions\<close> that change rows. A migration
  that succeeds establishes the invariants the services rely on (\<open>runs_inv\<close>, the load-number
  constraint), and it refuses exactly the data it cannot convert.

  \<^bold>\<open>Loops.\<close> A loop without a bound of its own is a \<open>partial_function (option)\<close> and its
  termination is proved: \<open>scan_missing_document_slas\<close> by the number of due shipments,
  \<open>dispatch_pending_sla_notifications\<close> by the number of pending events, \<open>purge_loop\<close> by the rest of the
  deletion bound. The endless consumer and scheduler loops are modelled one turn at a time.

  \<^bold>\<open>Not modelled.\<close> The TypeScript front end; log lines; the construction of the FastAPI application,
  of the SQLAlchemy engine and of the Redis client (library calls without a decision of their
  own); migrations that only create tables, columns and indexes (the constraints they create are
  part of the invariants here); LangGraph, the Claude and Gmail clients and pydantic's coercions
  (parameters). Characters beyond ASCII: upper case and white space are those of ASCII text.
\<close>

end
